(* ===== verification/Wsl_Prelude.thy ===== *)
theory Wsl_Prelude
  imports Main "HOL-Library.Word"
begin

text \<open>
  Shared vocabulary of the development: the integer and string types of the C++ code, decimal
  printing, the two combinators that thread a state through calls which may fail, and the list
  and word lemmas the component theories share.

  A \<open>std::string\<close> is a \<^typ>\<open>string\<close>, a list of bytes. A \<open>std::wstring\<close> on Windows is a list
  of 16-bit code units. Unsigned integers keep their width as words; \<open>std::chrono\<close> durations
  are \<^typ>\<open>int\<close> milliseconds.
\<close>

section \<open>Types\<close>

type_synonym u8 = "8 word"
type_synonym u16 = "16 word"
type_synonym u32 = "32 word"
type_synonym u64 = "64 word"
type_synonym wstr = "16 word list"

text \<open>A \<open>std::filesystem::path\<close> is its native wide string on Windows.\<close>

type_synonym path = wstr

text \<open>Wide literals are written as the narrow literal of the same ASCII characters.\<close>

definition wide :: "string \<Rightarrow> wstr" where
  "wide s = map (\<lambda>c. of_char c) s"

text \<open>The same, bit by bit, for evaluating the long key and value names.\<close>

definition unit_of_char :: "char \<Rightarrow> u16" where
  "unit_of_char c = of_char c"

definition low_bits :: "bool \<Rightarrow> bool \<Rightarrow> bool \<Rightarrow> bool \<Rightarrow> u16" where
  "low_bits b0 b1 b2 b3 =
     (if b3 then if b2 then if b1 then if b0 then 15 else 14 else if b0 then 13 else 12
               else if b1 then if b0 then 11 else 10 else if b0 then 9 else 8
      else if b2 then if b1 then if b0 then 7 else 6 else if b0 then 5 else 4
               else if b1 then if b0 then 3 else 2 else if b0 then 1 else 0)"
lemma unit_of_char_code [code]:
  "unit_of_char (Char b0 b1 b2 b3 b4 b5 b6 b7) = low_bits b0 b1 b2 b3 + push_bit 4 (low_bits b4 b5 b6 b7)"
  by (cases b0; cases b1; cases b2; cases b3; cases b4; cases b5; cases b6; cases b7;
      simp add: unit_of_char_def low_bits_def of_char_def)

lemma wide_code [code]: "wide s = map unit_of_char s"
  by (simp add: wide_def unit_of_char_def)

named_theorems action_simps \<open>unfolding of the state-passing combinators\<close>
named_theorems digit_simps \<open>decimal digits as characters\<close>

section \<open>Actions: calls on a state that may fail\<close>

text \<open>
  A method call takes the state (the outside world, or an operation object that holds it) and
  returns its value with the state after it. \<open>call m f\<close> runs \<open>m\<close> and continues with its value;
  \<open>attempt m f\<close> is the pattern \<open>if (!r.has_value()) return std::unexpected(r.error());\<close>.
\<close>

definition ret :: "'a \<Rightarrow> 's \<Rightarrow> 'a \<times> 's" where
  [action_simps]: "ret x s = (x, s)"

definition call :: "('s \<Rightarrow> 'a \<times> 's) \<Rightarrow> ('a \<Rightarrow> 's \<Rightarrow> 'b \<times> 's) \<Rightarrow> 's \<Rightarrow> 'b \<times> 's" where
  [action_simps]: "call m f s = (case m s of (x, s') \<Rightarrow> f x s')"

definition attempt ::
  "('s \<Rightarrow> ('e + 'a) \<times> 's) \<Rightarrow> ('a \<Rightarrow> 's \<Rightarrow> ('e + 'b) \<times> 's) \<Rightarrow> 's \<Rightarrow> ('e + 'b) \<times> 's" where
  [action_simps]: "attempt m f s =
     (case m s of (r, s') \<Rightarrow> (case r of Inl e \<Rightarrow> (Inl e, s') | Inr x \<Rightarrow> f x s'))"

text \<open>The value of \<open>value_or\<close> on a result whose error is dropped.\<close>

definition value_or :: "'e + 'a \<Rightarrow> 'a \<Rightarrow> 'a" where
  "value_or r d = (case r of Inl _ \<Rightarrow> d | Inr x \<Rightarrow> x)"

lemma value_or_simps [simp]: "value_or (Inl e) d = d" "value_or (Inr x) d = x"
  by (simp_all add: value_or_def)

lemma ret_simps [simp]: "ret x s = (x, s)"
  by (simp add: ret_def)

lemma attempt_Inr_iff:
  "attempt m f s = (Inr y, t) \<longleftrightarrow> (\<exists>x u. m s = (Inr x, u) \<and> f x u = (Inr y, t))"
  by (auto simp: attempt_def split: prod.splits sum.splits)

lemma attempt_Inl_iff:
  "attempt m f s = (Inl e, t) \<longleftrightarrow>
     m s = (Inl e, t) \<or> (\<exists>x u. m s = (Inr x, u) \<and> f x u = (Inl e, t))"
  by (auto simp: attempt_def split: prod.splits sum.splits)

lemma call_iff: "call m f s = r \<longleftrightarrow> (\<exists>x u. m s = (x, u) \<and> f x u = r)"
  by (auto simp: call_def split: prod.splits)

text \<open>Pre- and postconditions of a call that may fail: from a state with \<open>P\<close>, a value \<open>x\<close> comes
  with \<open>Q x\<close> and an error with \<open>E\<close>.\<close>

definition triple ::
  "('s \<Rightarrow> bool) \<Rightarrow> ('s \<Rightarrow> ('e + 'a) \<times> 's) \<Rightarrow> ('a \<Rightarrow> 's \<Rightarrow> bool) \<Rightarrow> ('s \<Rightarrow> bool) \<Rightarrow> bool" where
  "triple P m Q E \<longleftrightarrow>
     (\<forall>s r s'. P s \<longrightarrow> m s = (r, s') \<longrightarrow> (case r of Inl e \<Rightarrow> E s' | Inr x \<Rightarrow> Q x s'))"

named_theorems triple_rules \<open>rules for the pre- and postconditions of calls\<close>

lemma tripleI:
  assumes "\<And>s x s'. P s \<Longrightarrow> m s = (Inr x, s') \<Longrightarrow> Q x s'"
    and "\<And>s e s'. P s \<Longrightarrow> m s = (Inl e, s') \<Longrightarrow> E s'"
  shows "triple P m Q E"
  using assms by (auto simp: triple_def split: sum.splits)

lemma triple_InrD: "triple P m Q E \<Longrightarrow> P s \<Longrightarrow> m s = (Inr x, s') \<Longrightarrow> Q x s'"
  by (auto simp: triple_def split: sum.splits)

lemma triple_InlD: "triple P m Q E \<Longrightarrow> P s \<Longrightarrow> m s = (Inl e, s') \<Longrightarrow> E s'"
  unfolding triple_def by (metis (no_types, lifting) sum.case(1))

lemma triple_weaken:
  assumes "triple P' m Q' E'" and "\<And>s. P s \<Longrightarrow> P' s" and "\<And>x s. Q' x s \<Longrightarrow> Q x s"
    and "\<And>s. E' s \<Longrightarrow> E s"
  shows "triple P m Q E"
  using assms unfolding triple_def by (metis (no_types, lifting) sum.case_eq_if)

lemma triple_ret_Inr [triple_rules]: "(\<And>s. P s \<Longrightarrow> Q x s) \<Longrightarrow> triple P (ret (Inr x)) Q E"
  by (auto simp: triple_def)

lemma triple_ret_Inl [triple_rules]: "(\<And>s. P s \<Longrightarrow> E s) \<Longrightarrow> triple P (ret (Inl e)) Q E"
  by (auto simp: triple_def)

lemma triple_attempt:
  assumes "triple P m R E" and "\<And>x. triple (R x) (f x) Q E"
  shows "triple P (attempt m f) Q E"
  using assms by (fastforce simp: triple_def attempt_def split: prod.splits sum.splits)

lemma triple_call:
  assumes "\<And>s x s'. P s \<Longrightarrow> m s = (x, s') \<Longrightarrow> R x s'" and "\<And>x. triple (R x) (f x) Q E"
  shows "triple P (call m f) Q E"
  using assms by (fastforce simp: triple_def call_def split: prod.splits)

lemma triple_if:
  assumes "b \<Longrightarrow> triple P m Q E" and "\<not> b \<Longrightarrow> triple P n Q E"
  shows "triple P (if b then m else n) Q E"
  using assms by simp

section \<open>Calls that may not return\<close>

text \<open>The value of a call that does not return is \<open>None\<close>; \<open>at_once\<close> is a call that does, and
  \<open>attempt_wait\<close> is \<open>attempt\<close> for calls that may not.\<close>

definition attempt_wait ::
  "('s \<Rightarrow> (('e + 'a) \<times> 's) option) \<Rightarrow> ('a \<Rightarrow> 's \<Rightarrow> (('e + 'b) \<times> 's) option) \<Rightarrow>
     's \<Rightarrow> (('e + 'b) \<times> 's) option" where
  [action_simps]: "attempt_wait m f s =
     (case m s of
        None \<Rightarrow> None
      | Some (Inl e, s') \<Rightarrow> Some (Inl e, s')
      | Some (Inr x, s') \<Rightarrow> f x s')"

definition at_once :: "('s \<Rightarrow> 'a) \<Rightarrow> 's \<Rightarrow> 'a option" where
  [action_simps]: "at_once m s = Some (m s)"

lemma attempt_wait_Some:
  "attempt_wait m f s = Some (Inr y, t) \<longleftrightarrow>
     (\<exists>x u. m s = Some (Inr x, u) \<and> f x u = Some (Inr y, t))"
  "attempt_wait m f s = Some (Inl e, t) \<longleftrightarrow>
     m s = Some (Inl e, t) \<or> (\<exists>x u. m s = Some (Inr x, u) \<and> f x u = Some (Inl e, t))"
  by (auto simp: attempt_wait_def split: option.splits prod.splits sum.splits)

lemma attempt_wait_returns:
  assumes "m s \<noteq> None" and "\<And>x u. m s = Some (Inr x, u) \<Longrightarrow> f x u \<noteq> None"
  shows "attempt_wait m f s \<noteq> None"
  using assms by (auto simp: attempt_wait_def split: sum.splits)

lemma at_once_returns [simp]: "at_once m s \<noteq> None"
  by (simp add: at_once_def)

text \<open>A call that always comes back.\<close>

definition comes_back :: "('s \<Rightarrow> 'a option) \<Rightarrow> bool" where
  "comes_back m \<longleftrightarrow> (\<forall>s. m s \<noteq> None)"

lemma comes_back_at_once: "comes_back (at_once m)"
  by (simp add: comes_back_def)

lemma comes_back_attempt_wait:
  "comes_back m \<Longrightarrow> (\<And>x. comes_back (f x)) \<Longrightarrow> comes_back (attempt_wait m f)"
  unfolding comes_back_def by (intro allI attempt_wait_returns) auto

lemma comes_back_after:
  "(\<And>x. comes_back (f x)) \<Longrightarrow> comes_back (\<lambda>s. case m s of (x, s') \<Rightarrow> f x s')"
  by (simp add: comes_back_def split: prod.split)

lemmas comes_back_rules = comes_back_at_once comes_back_attempt_wait comes_back_after

section \<open>Decimal numbers as text\<close>

definition is_digit_char :: "char \<Rightarrow> bool" where
  "is_digit_char c \<longleftrightarrow> 48 \<le> (of_char c :: nat) \<and> (of_char c :: nat) \<le> 57"

definition digit_val :: "char \<Rightarrow> nat" where
  "digit_val c = of_char c - 48"

definition digit_char :: "nat \<Rightarrow> char" where
  "digit_char d = char_of (48 + d)"

fun show_nat :: "nat \<Rightarrow> string" where
  "show_nat n = (if n < 10 then [digit_char n] else show_nat (n div 10) @ [digit_char (n mod 10)])"

declare show_nat.simps [simp del]

definition show_int :: "int \<Rightarrow> string" where
  "show_int i = (if i < 0 then ''-'' @ show_nat (nat (- i)) else show_nat (nat i))"

definition show_word :: "'a::len word \<Rightarrow> string" where
  "show_word w = show_nat (unat w)"

text \<open>The value of a run of digits read most significant first, on top of \<open>acc\<close>.\<close>

fun digits_value :: "nat \<Rightarrow> string \<Rightarrow> nat" where
  "digits_value acc [] = acc"
| "digits_value acc (c # cs) = digits_value (acc * 10 + digit_val c) cs"

lemma of_char_digit_char: "d < 10 \<Longrightarrow> (of_char (digit_char d) :: nat) = 48 + d"
  by (simp add: digit_char_def)

lemma digit_char_is_digit [digit_simps]: "d < 10 \<Longrightarrow> is_digit_char (digit_char d)"
  by (simp add: is_digit_char_def of_char_digit_char)

lemma digit_val_digit_char [digit_simps]: "d < 10 \<Longrightarrow> digit_val (digit_char d) = d"
  by (simp add: digit_val_def of_char_digit_char)

lemma digit_val_less: "is_digit_char c \<Longrightarrow> digit_val c < 10"
  by (auto simp: is_digit_char_def digit_val_def)

lemma digits_value_append:
  "digits_value acc (xs @ ys) = digits_value (digits_value acc xs) ys"
  by (induction xs arbitrary: acc) auto

lemma digits_value_ge: "acc \<le> digits_value acc cs"
proof (induction cs arbitrary: acc)
  case (Cons c cs)
  have "acc \<le> acc * 10 + digit_val c" by simp
  also have "\<dots> \<le> digits_value (acc * 10 + digit_val c) cs" by (rule Cons.IH)
  finally show ?case by simp
qed simp

lemma show_nat_nonempty [simp]: "show_nat n \<noteq> []"
  by (subst show_nat.simps) simp

lemma show_nat_digits: "\<forall>c \<in> set (show_nat n). is_digit_char c"
proof (induction n rule: show_nat.induct)
  case (1 n)
  show ?case
  proof (cases "n < 10")
    case True
    then show ?thesis by (subst show_nat.simps) (simp add: digit_simps)
  next
    case False
    with "1.IH" show ?thesis by (subst show_nat.simps) (auto simp: digit_simps)
  qed
qed

lemma digits_value_show_nat: "digits_value 0 (show_nat n) = n"
proof (induction n rule: show_nat.induct)
  case (1 n)
  show ?case
  proof (cases "n < 10")
    case True
    then show ?thesis by (subst show_nat.simps) (simp add: digit_simps)
  next
    case False
    with "1.IH" show ?thesis
      by (subst show_nat.simps) (simp add: digits_value_append digit_simps)
  qed
qed

lemma show_nat_inj: "show_nat m = show_nat n \<longleftrightarrow> m = n"
  by (metis digits_value_show_nat)

lemma takeWhile_digits_show_nat:
  assumes "xs = [] \<or> \<not> is_digit_char (hd xs)"
  shows "takeWhile is_digit_char (show_nat n @ xs) = show_nat n"
    and "dropWhile is_digit_char (show_nat n @ xs) = xs"
proof -
  have all: "\<And>c. c \<in> set (show_nat n) \<Longrightarrow> is_digit_char c"
    using show_nat_digits by blast
  show "takeWhile is_digit_char (show_nat n @ xs) = show_nat n"
    using assms all by (cases xs) (simp_all add: takeWhile_append2)
  show "dropWhile is_digit_char (show_nat n @ xs) = xs"
    using assms all by (cases xs) (simp_all add: dropWhile_append2)
qed

section \<open>Text helpers\<close>

text \<open>\<open>starts_with\<close> and \<open>ends_with\<close> of the C++ string views.\<close>

definition starts_with :: "'a list \<Rightarrow> 'a list \<Rightarrow> bool" where
  "starts_with xs p \<longleftrightarrow> take (length p) xs = p"

definition ends_with :: "'a list \<Rightarrow> 'a list \<Rightarrow> bool" where
  "ends_with xs q \<longleftrightarrow> starts_with (rev xs) (rev q)"

lemma starts_with_iff: "starts_with xs p \<longleftrightarrow> (\<exists>ys. xs = p @ ys)"
  by (metis append_eq_conv_conj append_take_drop_id starts_with_def)

lemma starts_with_append [simp]: "starts_with (p @ xs) p"
  by (simp add: starts_with_def)

text \<open>\<open>std::views::split\<close> by one character: the pieces between separators, empty ones included.\<close>

fun split_on :: "'a \<Rightarrow> 'a list \<Rightarrow> 'a list list" where
  "split_on x [] = [[]]"
| "split_on x (y # ys) =
     (if y = x then [] # split_on x ys
      else (case split_on x ys of [] \<Rightarrow> [[y]] | p # ps \<Rightarrow> (y # p) # ps))"

lemma split_on_nonempty [simp]: "split_on x ys \<noteq> []"
  by (induction ys) (auto split: list.splits)

lemma split_on_no_sep: "x \<notin> set ys \<Longrightarrow> split_on x ys = [ys]"
  by (induction ys) auto

lemma split_on_append:
  "x \<notin> set ys \<Longrightarrow> split_on x (ys @ x # zs) = ys # split_on x zs"
  by (induction ys) auto

lemma dropWhile_hd: "xs = [] \<or> \<not> P (hd xs) \<Longrightarrow> dropWhile P xs = xs"
  by (cases xs) simp_all

text \<open>Text whose ends need no trimming.\<close>

lemma trim_ends_id:
  assumes "xs \<noteq> []" and "\<not> P (hd xs)" and "\<not> P (last xs)"
  shows "rev (dropWhile P (rev (dropWhile P xs))) = xs"
proof -
  have "dropWhile P xs = xs" using assms(2) by (simp add: dropWhile_hd)
  moreover have "dropWhile P (rev xs) = rev xs" using assms(3) by (simp add: dropWhile_hd hd_rev)
  ultimately show ?thesis by simp
qed

text \<open>Names joined with a separator, as the refusal and config messages print them.\<close>

fun join_with :: "string \<Rightarrow> string list \<Rightarrow> string" where
  "join_with sep [] = []"
| "join_with sep [x] = x"
| "join_with sep (x # y # ys) = x @ sep @ join_with sep (y # ys)"

end
