(* ===== verification/Errors.thy ===== *)
theory Errors
  imports Wsl_Prelude
begin

text \<open>
  The failures the tool reports (\<open>src/src/lib/errors.h\<close>, \<open>errors.cpp\<close>): the codes with their
  process exit codes, the error record every operation returns, and the stable names used in
  the JSON output. \<open>Result<T>\<close> is the sum \<open>error + T\<close>, \<open>Status\<close> the sum \<open>error + unit\<close>.
\<close>

datatype error_code =
    Generic
  | Usage
  | Preflight
  | NeedsElevation
  | Partial
  | IntegrityCheckFailed
  | DistroNotFound
  | DistroBusy

record error =
  err_code :: error_code
  err_message :: string
  err_remedy :: string

type_synonym status = "error + unit"

definition exit_code_success :: int where
  "exit_code_success = 0"

text \<open>\<open>exit_code_for\<close>: the enumerators carry their exit codes.\<close>

fun exit_code_for :: "error_code \<Rightarrow> int" where
  "exit_code_for Generic = 1"
| "exit_code_for Usage = 2"
| "exit_code_for Preflight = 3"
| "exit_code_for NeedsElevation = 4"
| "exit_code_for Partial = 5"
| "exit_code_for IntegrityCheckFailed = 6"
| "exit_code_for DistroNotFound = 10"
| "exit_code_for DistroBusy = 11"

definition mk_error :: "error_code \<Rightarrow> string \<Rightarrow> string \<Rightarrow> error" where
  "mk_error c m r = \<lparr>err_code = c, err_message = m, err_remedy = r\<rparr>"

text \<open>\<open>fail(code, message, remedy)\<close> is the unexpected half of a result.\<close>

definition fail :: "error_code \<Rightarrow> string \<Rightarrow> string \<Rightarrow> error + 'a" where
  "fail c m r = Inl (mk_error c m r)"

definition error_to_string :: "error \<Rightarrow> string" where
  "error_to_string e =
     (if err_remedy e = [] then err_message e
      else err_message e @ '' -- '' @ err_remedy e)"

definition error_code_names :: "(error_code \<times> string) list" where
  "error_code_names =
     [(Generic, ''generic''),
      (Usage, ''usage''),
      (Preflight, ''preflight''),
      (NeedsElevation, ''needs-elevation''),
      (Partial, ''partial''),
      (IntegrityCheckFailed, ''integrity-check-failed''),
      (DistroNotFound, ''distro-not-found''),
      (DistroBusy, ''distro-busy'')]"

fun lookup_code_name :: "(error_code \<times> string) list \<Rightarrow> error_code \<Rightarrow> string" where
  "lookup_code_name [] c = ''generic''"
| "lookup_code_name ((k, n) # rest) c = (if k = c then n else lookup_code_name rest c)"

definition error_code_name :: "error_code \<Rightarrow> string" where
  "error_code_name c = lookup_code_name error_code_names c"

lemma mk_error_simps [simp]:
  "err_code (mk_error c m r) = c"
  "err_message (mk_error c m r) = m"
  "err_remedy (mk_error c m r) = r"
  by (simp_all add: mk_error_def)

lemma fail_not_Inr [simp]: "fail c m r \<noteq> Inr x" "Inr x \<noteq> fail c m r"
  by (simp_all add: fail_def)

lemma fail_eq_Inl_iff [simp]: "fail c m r = Inl e \<longleftrightarrow> e = mk_error c m r"
  by (auto simp: fail_def)

lemma case_fail [simp]: "(case fail c m r of Inl e \<Rightarrow> f e | Inr x \<Rightarrow> g x) = f (mk_error c m r)"
  by (simp add: fail_def)

text \<open>Every error code has its own name and its own non-zero exit code: scripts that
  branch on either cannot confuse two failures, or a failure with success.\<close>

theorem error_codes_distinguishable:
  "inj error_code_name \<and> inj exit_code_for \<and> exit_code_success \<notin> range exit_code_for"
proof (intro conjI)
  show "inj error_code_name"
    by (rule injI, case_tac x; case_tac y; simp add: error_code_name_def error_code_names_def)
  show "inj exit_code_for"
    by (rule injI, case_tac x; case_tac y; simp)
  have "exit_code_for c \<noteq> 0" for c by (cases c) simp_all
  then show "exit_code_success \<notin> range exit_code_for"
    by (auto simp: exit_code_success_def)
qed

end
