(* ===== verification/Size.thy ===== *)
theory Size
  imports Errors
begin

unbundle bit_operations_syntax

text \<open>
  Human-written sizes (\<open>src/src/lib/model/size.cpp\<close>): \<open>parse_size\<close>, \<open>format_size\<close> and
  \<open>format_size_delta\<close>, in 64-bit words as the code computes them. Positions into the input are
  the remaining suffix. A reference reading of the same grammar over the natural numbers is
  given beside it, and the machine version is shown to compute it or refuse.
\<close>

section \<open>The code\<close>

definition kib :: u64 where "kib = 1024"
definition mib :: u64 where "mib = kib * 1024"
definition gib :: u64 where "gib = mib * 1024"
definition tib :: u64 where "tib = gib * 1024"
definition pib :: u64 where "pib = tib * 1024"

definition suffixes :: "(string \<times> u64) list" where
  "suffixes =
     [('''', 1), (''b'', 1),
      (''k'', kib), (''kb'', kib), (''kib'', kib),
      (''m'', mib), (''mb'', mib), (''mib'', mib),
      (''g'', gib), (''gb'', gib), (''gib'', gib),
      (''t'', tib), (''tb'', tib), (''tib'', tib),
      (''p'', pib), (''pib'', pib)]"

definition u64_max :: u64 where "u64_max = - 1"

definition max_fraction_digits :: nat where "max_fraction_digits = 9"

record number =
  whole :: u64
  frac_numerator :: u64
  frac_denominator :: u64

definition is_space :: "char \<Rightarrow> bool" where
  "is_space c \<longleftrightarrow> c = CHR '' '' \<or> c = CHR 0x09 \<or> c = CHR 0x0D \<or> c = CHR 0x0A"

definition lower :: "char \<Rightarrow> char" where
  "lower c = (if 65 \<le> (of_char c :: nat) \<and> (of_char c :: nat) \<le> 90
              then char_of ((of_char c :: nat) - 65 + 97) else c)"

definition trim_size :: "string \<Rightarrow> string" where
  "trim_size text = rev (dropWhile is_space (rev (dropWhile is_space text)))"

definition bad_size :: "string \<Rightarrow> error + 'a" where
  "bad_size text = fail Usage (CHR 0x27 # text @ CHR 0x27 # '' is not a valid size'')
     ''use a byte count or a binary suffix, for example 64G, 1.5TiB or 1048576''"

definition checked_mul :: "u64 \<Rightarrow> u64 \<Rightarrow> u64 option" where
  "checked_mul value factor = (if value > u64_max div factor then None else Some (value * factor))"

definition checked_add :: "u64 \<Rightarrow> u64 \<Rightarrow> u64 option" where
  "checked_add a b = (if a > u64_max - b then None else Some (a + b))"


text \<open>The digit loop of \<open>parse_whole\<close>: \<open>digits\<close> counts what was read, the suffix is the new position.\<close>

fun parse_whole_loop :: "u64 \<Rightarrow> nat \<Rightarrow> string \<Rightarrow> (u64 \<times> string) option" where
  "parse_whole_loop acc digits [] = (if digits = 0 then None else Some (acc, []))"
| "parse_whole_loop acc digits (c # cs) =
     (if is_digit_char c then
        (case checked_mul acc 10 of
           None \<Rightarrow> None
         | Some scaled \<Rightarrow>
             (case checked_add scaled (of_nat (digit_val c)) of
                None \<Rightarrow> None
              | Some added \<Rightarrow> parse_whole_loop added (Suc digits) cs))
      else if digits = 0 then None else Some (acc, c # cs))"

definition parse_whole :: "string \<Rightarrow> (u64 \<times> string) option" where
  "parse_whole input = parse_whole_loop 0 0 input"

fun parse_fraction_loop :: "number \<Rightarrow> nat \<Rightarrow> string \<Rightarrow> (number \<times> string) option" where
  "parse_fraction_loop n digits [] = (if digits > 0 then Some (n, []) else None)"
| "parse_fraction_loop n digits (c # cs) =
     (if is_digit_char c then
        (if digits < max_fraction_digits then
           parse_fraction_loop
             (n\<lparr>frac_numerator := frac_numerator n * 10 + of_nat (digit_val c),
                frac_denominator := frac_denominator n * 10\<rparr>) (Suc digits) cs
         else parse_fraction_loop n digits cs)
      else if digits > 0 then Some (n, c # cs) else None)"

definition parse_fraction :: "string \<Rightarrow> number \<Rightarrow> (number \<times> string) option" where
  "parse_fraction input n =
     (case input of
        [] \<Rightarrow> Some (n, input)
      | c # cs \<Rightarrow> if c \<noteq> CHR ''.'' then Some (n, input) else parse_fraction_loop n 0 cs)"

definition parse_multiplier :: "string \<Rightarrow> u64 option" where
  "parse_multiplier input = map_of suffixes (map lower (dropWhile is_space input))"

definition scale_fraction :: "number \<Rightarrow> u64 \<Rightarrow> u64" where
  "scale_fraction n multiplier =
     (frac_numerator n * (multiplier div frac_denominator n)) +
     ((frac_numerator n * (multiplier mod frac_denominator n)) div frac_denominator n)"

definition parse_size :: "string \<Rightarrow> error + u64" where
  "parse_size text =
     (let input = trim_size text in
      if input = [] then bad_size text else
      (case parse_whole input of
         None \<Rightarrow> bad_size text
       | Some (w, after_whole) \<Rightarrow>
           (case parse_fraction after_whole \<lparr>whole = w, frac_numerator = 0, frac_denominator = 1\<rparr> of
              None \<Rightarrow> bad_size text
            | Some (n, after_fraction) \<Rightarrow>
                (case parse_multiplier after_fraction of
                   None \<Rightarrow> bad_size text
                 | Some multiplier \<Rightarrow>
                     (case checked_mul (whole n) multiplier of
                        None \<Rightarrow> bad_size text
                      | Some whole_bytes \<Rightarrow> Inr (whole_bytes + scale_fraction n multiplier))))))"

definition larger_units :: "(u64 \<times> string) list" where
  "larger_units = [(pib, ''PiB''), (tib, ''TiB''), (gib, ''GiB''), (mib, ''MiB'')]"

fun pick_unit :: "(u64 \<times> string) list \<Rightarrow> u64 \<Rightarrow> u64 \<times> string" where
  "pick_unit [] bytes = (kib, ''KiB'')"
| "pick_unit ((divisor, name) # rest) bytes =
     (if bytes \<ge> divisor then (divisor, name) else pick_unit rest bytes)"

definition format_size :: "u64 \<Rightarrow> string" where
  "format_size bytes =
     (if bytes < kib then show_word bytes @ '' B''
      else
        (case pick_unit larger_units bytes of
           (divisor, name) \<Rightarrow>
             (let w = bytes div divisor;
                  tenths = ((bytes mod divisor) * 10) div divisor
              in show_word w @ ''.'' @ show_word tenths @ '' '' @ name)))"

text \<open>The argument is a \<open>std::int64_t\<close>, given as its 64-bit two's complement word.\<close>

definition format_size_delta :: "u64 \<Rightarrow> string" where
  "format_size_delta bytes =
     (if bytes = 0 then ''0 B''
      else
        (let magnitude = (if bytes <s 0 then NOT bytes + 1 else bytes)
         in (if bytes <s 0 then ''-'' else ''+'') @ format_size magnitude))"


section \<open>The reference reading\<close>

text \<open>
  The same grammar over the natural numbers: a run of digits, an optional fraction of which the
  first nine digits count, a unit. \<open>size_value\<close> is the byte count the text denotes, without any
  limit on its magnitude.
\<close>

definition size_value :: "string \<Rightarrow> nat option" where
  "size_value text =
     (let input = trim_size text;
          ds = takeWhile is_digit_char input;
          rest = dropWhile is_digit_char input
      in if ds = [] then None
         else if rest \<noteq> [] \<and> hd rest = CHR ''.'' then
           (let fs = takeWhile is_digit_char (tl rest);
                shown = take max_fraction_digits fs
            in if fs = [] then None
               else map_option (\<lambda>m. digits_value 0 ds * unat m +
                                    digits_value 0 shown * unat m div 10 ^ length shown)
                      (parse_multiplier (dropWhile is_digit_char (tl rest))))
         else map_option (\<lambda>m. digits_value 0 ds * unat m) (parse_multiplier rest))"

section \<open>Machine arithmetic against the natural numbers\<close>

lemma unat_u64_max: "unat u64_max = 2 ^ 64 - 1"
  by (simp add: u64_max_def unsigned_minus_1_eq_mask mask_eq_exp_minus_1)

lemma unat_lt_u64: "unat (x :: u64) < 2 ^ 64"
proof -
  have "unat x < 2 ^ LENGTH(64)" by (rule unsigned_less)
  then show ?thesis by simp
qed

lemma checked_mul_eq:
  assumes "factor \<noteq> 0"
  shows "checked_mul v factor =
    (if unat v * unat factor < 2 ^ 64 then Some (of_nat (unat v * unat factor)) else None)"
proof -
  have pos: "0 < unat factor" using assms by (simp add: unat_gt_0)
  have "v > u64_max div factor \<longleftrightarrow> \<not> unat v * unat factor \<le> 2 ^ 64 - 1"
    using pos by (simp add: word_less_nat_alt unat_div unat_u64_max not_le
        less_eq_div_iff_mult_less_eq [symmetric] del: less_eq_div_iff_mult_less_eq)
  then show ?thesis by (auto simp: checked_mul_def)
qed

lemma checked_add_eq:
  "checked_add a b = (if unat a + unat b < 2 ^ 64 then Some (of_nat (unat a + unat b)) else None)"
proof -
  have "unat (u64_max - b) = 2 ^ 64 - 1 - unat b"
    using unat_lt_u64 [of b]
    by (subst unat_sub) (auto simp: word_le_nat_alt unat_u64_max)
  then have "a > u64_max - b \<longleftrightarrow> \<not> unat a + unat b < 2 ^ 64"
    using unat_lt_u64 [of b] by (auto simp: word_less_nat_alt)
  then show ?thesis by (auto simp: checked_add_def)
qed

lemma unat_of_nat_u64: "n < 2 ^ 64 \<Longrightarrow> unat (of_nat n :: u64) = n"
  by (simp add: unat_of_nat)

lemma parse_whole_loop_eq:
  "parse_whole_loop acc k cs =
     (let ds = takeWhile is_digit_char cs in
      if k = 0 \<and> ds = [] then None
      else if digits_value (unat acc) ds < 2 ^ 64
        then Some (of_nat (digits_value (unat acc) ds), dropWhile is_digit_char cs)
      else None)"
proof (induction acc k cs rule: parse_whole_loop.induct)
  case (1 acc k)
  then show ?case using unat_lt_u64 [of acc] by simp
next
  case (2 acc k c cs)
  show ?case
  proof (cases "is_digit_char c")
    case False
    then show ?thesis using unat_lt_u64 [of acc] by simp
  next
    case digit: True
    define v where "v = unat acc * 10 + digit_val c"
    have d10: "digit_val c < 10" using digit by (rule digit_val_less)
    have ge: "v \<le> digits_value v (takeWhile is_digit_char cs)" by (rule digits_value_ge)
    show ?thesis
    proof (cases "v < 2 ^ 64")
      case True
      have scaled: "checked_mul acc 10 = Some (of_nat (unat acc * 10))"
        using True by (simp add: checked_mul_eq v_def)
      have un: "unat (of_nat (unat acc * 10) :: u64) = unat acc * 10"
        using True by (intro unat_of_nat_u64) (simp add: v_def)
      have added: "checked_add (of_nat (unat acc * 10)) (of_nat (digit_val c)) = Some (of_nat v)"
        using True d10 by (simp add: checked_add_eq un unat_of_nat_u64 v_def del: of_nat_mult of_nat_add)
      have "unat (of_nat v :: u64) = v" using True by (rule unat_of_nat_u64)
      then show ?thesis
        using digit "2.IH"(1) [OF digit scaled added]
        by (simp add: scaled added Let_def v_def del: of_nat_mult of_nat_add)
    next
      case False
      then have none: "\<not> digits_value v (takeWhile is_digit_char cs) < 2 ^ 64"
        using ge by linarith
      have "(case checked_mul acc 10 of None \<Rightarrow> None
          | Some scaled \<Rightarrow> (case checked_add scaled (of_nat (digit_val c)) of
              None \<Rightarrow> None | Some added \<Rightarrow> parse_whole_loop added (Suc k) cs)) = None"
        using False d10
        by (auto simp: checked_mul_eq checked_add_eq v_def unat_of_nat_u64 simp del: of_nat_mult)
      then show ?thesis using digit none by (simp add: v_def)
    qed
  qed
qed


text \<open>The fraction loop keeps numerator and denominator as exact powers-of-ten fixed point: never
  more than nine digits, so neither overflows.\<close>

definition fraction_state :: "u64 \<Rightarrow> nat \<Rightarrow> nat \<Rightarrow> number" where
  "fraction_state w v k =
     \<lparr>whole = w, frac_numerator = of_nat v, frac_denominator = of_nat (10 ^ k)\<rparr>"

lemma parse_fraction_loop_eq:
  assumes "k \<le> max_fraction_digits" and "0 < k \<or> k = 0"
  shows "parse_fraction_loop (fraction_state w v k) k cs =
    (let fs = takeWhile is_digit_char cs; shown = take (max_fraction_digits - k) fs in
     if k = 0 \<and> fs = [] then None
     else Some (fraction_state w (digits_value v shown) (k + length shown),
                dropWhile is_digit_char cs))"
  using assms
proof (induction cs arbitrary: v k)
  case Nil
  then show ?case by simp
next
  case (Cons c cs)
  show ?case
  proof (cases "is_digit_char c")
    case False
    then show ?thesis by simp
  next
    case True
    show ?thesis
    proof (cases "k < max_fraction_digits")
      case True
      have step: "(fraction_state w v k)
          \<lparr>frac_numerator := frac_numerator (fraction_state w v k) * 10 + of_nat (digit_val c),
           frac_denominator := frac_denominator (fraction_state w v k) * 10\<rparr>
        = fraction_state w (v * 10 + digit_val c) (Suc k)"
        by (simp add: fraction_state_def)
      have sub: "max_fraction_digits - k = Suc (max_fraction_digits - Suc k)"
        using True by simp
      show ?thesis
        using Cons.IH [of "Suc k" "v * 10 + digit_val c"] True \<open>is_digit_char c\<close> Cons.prems
        by (simp add: step sub Let_def)
    next
      case False
      then have "k = max_fraction_digits" "0 < k"
        using Cons.prems by (auto simp: max_fraction_digits_def)
      then show ?thesis
        using Cons.IH [of k v] \<open>is_digit_char c\<close> by simp
    qed
  qed
qed

lemma unit_power:
  assumes "parse_multiplier r = Some m"
  obtains k where "k \<le> 50" and "unat m = 2 ^ k" and "m \<noteq> 0"
proof -
  have "m \<in> {1, kib, mib, gib, tib, pib}"
    using map_of_SomeD [OF assms [unfolded parse_multiplier_def]]
    by (auto simp: suffixes_def)
  then have "\<exists>k \<le> 50. unat m = 2 ^ k \<and> m \<noteq> 0"
    by (auto simp: kib_def mib_def gib_def tib_def pib_def
        intro: exI [of _ 0] exI [of _ 10] exI [of _ 20] exI [of _ 30] exI [of _ 40] exI [of _ 50])
  then show ?thesis using that by blast
qed

lemma digits_value_bound:
  "\<forall>c \<in> set cs. is_digit_char c \<Longrightarrow> digits_value acc cs < (acc + 1) * 10 ^ length cs"
proof (induction cs arbitrary: acc)
  case (Cons c cs)
  have d: "digit_val c < 10" using Cons.prems by (simp add: digit_val_less)
  have "digits_value (acc * 10 + digit_val c) cs < (acc * 10 + digit_val c + 1) * 10 ^ length cs"
    using Cons by simp
  also have "\<dots> \<le> ((acc + 1) * 10) * 10 ^ length cs"
    using d by (intro mult_right_mono) simp_all
  finally show ?case by (simp add: algebra_simps)
qed simp

text \<open>\<open>scale_fraction\<close> is the floor of the exact product, and no intermediate product wraps.\<close>

lemma scale_fraction_eq:
  assumes "v < 10 ^ k" and "k \<le> max_fraction_digits" and m: "unat m = 2 ^ e" "e \<le> 50"
  shows "unat (scale_fraction (fraction_state w v k) m) = v * unat m div 10 ^ k"
    and "v * unat m div 10 ^ k < unat m"
proof -
  let ?d = "10 ^ k :: nat"
  let ?m = "unat m"
  have d9: "?d \<le> 10 ^ 9"
    using assms(2) power_increasing [of k 9 "10 :: nat"] by (simp add: max_fraction_digits_def)
  have v9: "v < 10 ^ 9" using assms(1) d9 by linarith
  have m50: "?m \<le> 2 ^ 50" using m power_increasing [of e 50 "2 :: nat"] by simp
  define D V :: u64 where "D = of_nat ?d" and "V = of_nat v"
  have ud: "unat D = ?d" unfolding D_def using d9 by (intro unat_of_nat_u64) simp
  have uv: "unat V = v" unfolding V_def using v9 by (intro unat_of_nat_u64) simp
  have q: "v * (?m div ?d) + v * (?m mod ?d) div ?d = v * ?m div ?d"
  proof -
    have "v * ?m = v * (?m mod ?d) + ?d * (v * (?m div ?d))"
      by (metis (no_types, lifting) add.commute distrib_left mult.left_commute mult_div_mod_eq)
    then show ?thesis by (simp add: div_mult_self4)
  qed
  have total: "v * ?m div ?d < ?m"
    using assms(1) m(1) by (simp add: div_less_iff_less_mult mult.commute)
  then show "v * unat m div 10 ^ k < unat m" .
  have small: "v * (?m div ?d) < 2 ^ 64"
  proof -
    have "v * (?m div ?d) \<le> v * ?m div ?d" by (metis q le_add1)
    also have "\<dots> < ?m" by (rule total)
    also have "\<dots> < 2 ^ 64" by (rule unat_lt_u64)
    finally show ?thesis .
  qed
  have prod: "v * (?m mod ?d) < 2 ^ 64"
  proof -
    have "?m mod ?d \<le> 10 ^ 9"
      by (rule order_trans [OF less_imp_le [OF mod_less_divisor] d9]) simp
    then have "v * (?m mod ?d) \<le> 10 ^ 9 * 10 ^ 9"
      using v9 by (intro mult_mono) simp_all
    also have "\<dots> < 2 ^ 64" by simp
    finally show ?thesis .
  qed
  have a: "unat (V * (m div D)) = v * (?m div ?d)"
    using small by (subst unat_mult_lem [THEN iffD1]) (simp_all add: unat_div ud uv)
  have "unat (V * (m mod D)) = v * (?m mod ?d)"
    using prod by (subst unat_mult_lem [THEN iffD1]) (simp_all add: unat_mod ud uv)
  then have b: "unat ((V * (m mod D)) div D) = v * (?m mod ?d) div ?d"
    by (simp add: unat_div ud)
  have sum: "unat (V * (m div D)) + unat ((V * (m mod D)) div D) < 2 ^ LENGTH(64)"
    unfolding a b q using total m50 by simp
  have "unat (scale_fraction (fraction_state w v k) m)
      = unat (V * (m div D) + (V * (m mod D)) div D)"
    by (simp add: scale_fraction_def fraction_state_def D_def V_def)
  also have "\<dots> = v * (?m div ?d) + v * (?m mod ?d) div ?d"
    using sum unat_add_lem [THEN iffD1, OF sum] by (simp only: a b)
  also have "\<dots> = v * ?m div ?d"
    by (rule q)
  finally show "unat (scale_fraction (fraction_state w v k) m) = v * unat m div 10 ^ k" .
qed

lemma parse_whole_eq:
  "parse_whole cs =
     (let ds = takeWhile is_digit_char cs in
      if ds = [] then None
      else if digits_value 0 ds < 2 ^ 64
        then Some (of_nat (digits_value 0 ds), dropWhile is_digit_char cs)
      else None)"
  by (simp add: parse_whole_def parse_whole_loop_eq Let_def)

lemma parse_fraction_eq:
  "parse_fraction cs \<lparr>whole = w, frac_numerator = 0, frac_denominator = 1\<rparr> =
     (if cs \<noteq> [] \<and> hd cs = CHR ''.'' then
        (let fs = takeWhile is_digit_char (tl cs); shown = take max_fraction_digits fs in
         if fs = [] then None
         else Some (fraction_state w (digits_value 0 shown) (length shown),
                    dropWhile is_digit_char (tl cs)))
      else Some (fraction_state w 0 0, cs))"
proof (cases cs)
  case Nil
  then show ?thesis by (simp add: parse_fraction_def fraction_state_def)
next
  case (Cons c cs')
  have "\<lparr>whole = w, frac_numerator = 0, frac_denominator = 1\<rparr> = fraction_state w 0 0"
    by (simp add: fraction_state_def)
  then show ?thesis
    using parse_fraction_loop_eq [of 0 w 0 cs'] Cons
    by (simp add: parse_fraction_def Let_def)
qed

text \<open>Whole bytes and fraction together stay below \<open>2 ^ 64\<close>: the unit is a power of two, so the
  whole part leaves room for everything the fraction can add.\<close>

lemma whole_plus_fraction_bound:
  fixes m e w f :: nat
  assumes "m = 2 ^ e" and "e \<le> 50" and "w * m < 2 ^ 64" and "f < m"
  shows "w * m + f < 2 ^ 64"
proof -
  have split: "(2 :: nat) ^ 64 = 2 ^ (64 - e) * m"
    using assms(1,2) by (simp flip: power_add)
  then have "w < 2 ^ (64 - e)"
    using assms(3) unfolding split by simp
  then have "(w + 1) * m \<le> 2 ^ (64 - e) * m"
    by (intro mult_right_mono) simp_all
  then show ?thesis using assms(4) split by simp
qed

text \<open>The last step of \<open>parse_size\<close> once the text is read: whole part, fixed-point fraction, unit.\<close>

lemma parse_size_tail:
  assumes m: "unat m = 2 ^ e" "e \<le> 50" "m \<noteq> 0"
    and v: "v < 10 ^ k" "k \<le> max_fraction_digits" and W: "W < 2 ^ 64"
  shows "(case checked_mul (whole (fraction_state (of_nat W) v k)) m of
            None \<Rightarrow> bad_size text
          | Some b \<Rightarrow> Inr (b + scale_fraction (fraction_state (of_nat W) v k) m)) =
         (if W * unat m + v * unat m div 10 ^ k < 2 ^ 64
          then Inr (of_nat (W * unat m + v * unat m div 10 ^ k)) else bad_size text)"
proof (cases "W * unat m < 2 ^ 64")
  case True
  have frac: "unat (scale_fraction (fraction_state (of_nat W) v k) m) = v * unat m div 10 ^ k"
    and less: "v * unat m div 10 ^ k < unat m"
    using scale_fraction_eq [OF v m(1,2)] by auto
  have "W * unat m + v * unat m div 10 ^ k < 2 ^ 64"
    using whole_plus_fraction_bound [OF m(1,2)] True less by simp
  moreover have "scale_fraction (fraction_state (of_nat W) v k) m
      = of_nat (v * unat m div 10 ^ k)"
    using arg_cong [OF frac, of "of_nat :: nat \<Rightarrow> u64"] by simp
  ultimately show ?thesis
    using True W m(3) by (simp add: checked_mul_eq fraction_state_def unat_of_nat_u64)
next
  case False
  then show ?thesis
    using W m(3) by (simp add: checked_mul_eq fraction_state_def unat_of_nat_u64)
qed

text \<open>The rules that evaluate a reading on a concrete text.\<close>

lemmas size_eval = size_value_def trim_size_def is_space_def is_digit_char_def digit_val_def
  max_fraction_digits_def
  kib_def mib_def gib_def tib_def pib_def Let_def

lemma parse_size_machine:
  "parse_size text =
     (case size_value text of
        None \<Rightarrow> bad_size text
      | Some v \<Rightarrow> if v < 2 ^ 64 then Inr (of_nat v) else bad_size text)"
proof -
  define input where "input = trim_size text"
  define ds where "ds = takeWhile is_digit_char input"
  define rest where "rest = dropWhile is_digit_char input"
  define W where "W = digits_value 0 ds"
  define dotted where "dotted \<longleftrightarrow> rest \<noteq> [] \<and> hd rest = CHR ''.''"
  define fs where "fs = takeWhile is_digit_char (tl rest)"
  define shown where "shown = take max_fraction_digits fs"
  define unit_text where
    "unit_text = (if dotted then dropWhile is_digit_char (tl rest) else rest)"
  have shown_digits: "\<forall>c \<in> set shown. is_digit_char c"
    unfolding shown_def fs_def by (meson in_set_takeD set_takeWhileD)
  have v: "digits_value 0 shown < 10 ^ length shown"
    using digits_value_bound [OF shown_digits, of 0] by simp
  have k: "length shown \<le> max_fraction_digits" by (simp add: shown_def)
  show ?thesis
  proof (cases "ds = [] \<or> dotted \<and> fs = [] \<or> parse_multiplier unit_text = None")
    case True
    then show ?thesis
      by (auto simp: parse_size_def size_value_def parse_whole_eq parse_fraction_eq Let_def
          ds_def rest_def input_def dotted_def fs_def unit_text_def split: if_splits)
  next
    case False
    then obtain m where pm: "parse_multiplier unit_text = Some m" by blast
    obtain e where m: "e \<le> 50" "unat m = 2 ^ e" "m \<noteq> 0" using pm by (rule unit_power)
    define v' k' where "v' = (if dotted then digits_value 0 shown else 0)"
      and "k' = (if dotted then length shown else 0)"
    have vk: "v' < 10 ^ k'" "k' \<le> max_fraction_digits"
      using v k by (simp_all add: v'_def k'_def)
    have size_val: "size_value text = Some (W * unat m + v' * unat m div 10 ^ k')"
      using False pm
      by (auto simp: size_value_def Let_def ds_def rest_def input_def dotted_def fs_def shown_def
          unit_text_def W_def v'_def k'_def split: if_splits)
    show ?thesis
    proof (cases "W < 2 ^ 64")
      case big: False
      have "W * 1 \<le> W * unat m" using m(2) by (intro mult_left_mono) simp_all
      then have "\<not> W * unat m + v' * unat m div 10 ^ k' < 2 ^ 64" using big by linarith
      then show ?thesis
        using big size_val by (simp add: parse_size_def parse_whole_eq Let_def ds_def input_def W_def)
    next
      case small: True
      have "parse_size text =
          (case checked_mul (whole (fraction_state (of_nat W) v' k')) m of
             None \<Rightarrow> bad_size text
           | Some b \<Rightarrow> Inr (b + scale_fraction (fraction_state (of_nat W) v' k') m))"
      proof -
        have ne: "input \<noteq> []" using False by (auto simp: ds_def)
        have pw: "parse_whole input = Some (of_nat W, rest)"
          using False small by (simp add: parse_whole_eq Let_def ds_def rest_def W_def)
        have pf: "parse_fraction rest \<lparr>whole = of_nat W, frac_numerator = 0, frac_denominator = 1\<rparr>
            = Some (fraction_state (of_nat W) v' k', unit_text)"
          using False
          by (auto simp: parse_fraction_eq Let_def dotted_def fs_def shown_def unit_text_def
              v'_def k'_def)
        show ?thesis
          by (simp add: parse_size_def Let_def ne pw pf pm flip: input_def)
      qed
      also note parse_size_tail [OF m(2,1,3) vk small]
      finally show ?thesis by (simp add: size_val)
    qed
  qed
qed



section \<open>Printing\<close>

lemma trim_size_id:
  assumes "xs \<noteq> []" and "\<not> is_space (hd xs)" and "\<not> is_space (last xs)"
  shows "trim_size xs = xs"
  unfolding trim_size_def using assms by (rule trim_ends_id)

lemma digit_not_space: "is_digit_char c \<Longrightarrow> \<not> is_space c"
  by (auto simp: is_digit_char_def is_space_def)

lemma hd_show_nat_not_space: "\<not> is_space (hd (show_nat n @ xs))"
  by (metis digit_not_space hd_append2 hd_in_set show_nat_digits show_nat_nonempty)

text \<open>The unit \<open>format_size\<close> picks: its divisor is a power of two that the value reaches, its name
  is a unit \<open>parse_size\<close> reads back as that divisor.\<close>

lemma pick_unit_cases:
  assumes "\<not> bytes < kib"
  obtains d name e where "pick_unit larger_units bytes = (d, name)" and "d \<le> bytes"
    and "unat d = 2 ^ e" and "e \<le> 50" and "10 \<le> e"
    and "parse_multiplier ('' '' @ name) = Some d" and "name \<noteq> []" and "\<not> is_space (last name)"
proof -
  have pm: "parse_multiplier ('' '' @ ''KiB'') = Some kib" "parse_multiplier ('' '' @ ''MiB'') = Some mib"
    "parse_multiplier ('' '' @ ''GiB'') = Some gib" "parse_multiplier ('' '' @ ''TiB'') = Some tib"
    "parse_multiplier ('' '' @ ''PiB'') = Some pib"
    by code_simp+
  have un: "unat kib = 2 ^ 10" "unat mib = 2 ^ 20" "unat gib = 2 ^ 30" "unat tib = 2 ^ 40"
    "unat pib = 2 ^ 50"
    by (simp_all add: kib_def mib_def gib_def tib_def pib_def)
  have sp: "\<not> is_space (CHR ''B'')" by (simp add: is_space_def)
  consider "pib \<le> bytes" | "\<not> pib \<le> bytes" "tib \<le> bytes"
    | "\<not> pib \<le> bytes" "\<not> tib \<le> bytes" "gib \<le> bytes"
    | "\<not> pib \<le> bytes" "\<not> tib \<le> bytes" "\<not> gib \<le> bytes" "mib \<le> bytes"
    | "\<not> pib \<le> bytes" "\<not> tib \<le> bytes" "\<not> gib \<le> bytes" "\<not> mib \<le> bytes"
    by blast
  then show ?thesis
  proof cases
    case 1
    then show ?thesis using that [of pib "''PiB''" 50] pm un sp by (simp add: larger_units_def)
  next
    case 2
    then show ?thesis using that [of tib "''TiB''" 40] pm un sp by (simp add: larger_units_def)
  next
    case 3
    then show ?thesis using that [of gib "''GiB''" 30] pm un sp by (simp add: larger_units_def)
  next
    case 4
    then show ?thesis using that [of mib "''MiB''" 20] pm un sp by (simp add: larger_units_def)
  next
    case 5
    then show ?thesis
      using that [of kib "''KiB''" 10] pm un sp assms by (simp add: larger_units_def)
  qed
qed

text \<open>What the reference reading makes of a printed size with one decimal.\<close>

lemma size_value_one_decimal:
  assumes "t < 10" and "parse_multiplier ('' '' @ name) = Some d"
    and "name \<noteq> []" and "\<not> is_space (last name)"
  shows "size_value (show_nat w @ ''.'' @ show_nat t @ '' '' @ name)
    = Some (w * unat d + t * unat d div 10)"
proof -
  define r where "r = show_nat t @ '' '' @ name"
  define x where "x = show_nat w @ ''.'' @ r"
  have trim: "trim_size x = x"
  proof (rule trim_size_id)
    show "\<not> is_space (hd x)" unfolding x_def by (rule hd_show_nat_not_space)
    show "\<not> is_space (last x)" using assms(3,4) by (simp add: x_def r_def)
  qed (simp add: x_def)
  have dot: "\<not> is_digit_char (CHR ''.'')" and sp: "\<not> is_digit_char (CHR '' '')"
    by (simp_all add: is_digit_char_def)
  have t1: "show_nat t = [digit_char t]" using assms(1) by (subst show_nat.simps) simp
  have td: "is_digit_char (digit_char t)" using assms(1) by (rule digit_char_is_digit)
  have whole: "takeWhile is_digit_char x = show_nat w" "dropWhile is_digit_char x = CHR ''.'' # r"
    using takeWhile_digits_show_nat [of "CHR ''.'' # r" w] dot by (simp_all add: x_def)
  have frac: "takeWhile is_digit_char r = show_nat t" "dropWhile is_digit_char r = '' '' @ name"
    using takeWhile_digits_show_nat [of "'' '' @ name" t] sp by (simp_all add: r_def)
  have "size_value x = Some (w * unat d + t * unat d div 10)"
    using assms(1,2)
    by (simp add: size_value_def trim whole frac Let_def digits_value_show_nat
        max_fraction_digits_def t1 digit_simps)
  then show ?thesis by (simp add: x_def r_def)
qed

lemma size_value_bytes: "size_value (show_nat n @ '' B'') = Some n"
proof -
  have pm: "parse_multiplier '' B'' = Some 1" by code_simp
  have trim: "trim_size (show_nat n @ '' B'') = show_nat n @ '' B''"
  proof (rule trim_size_id)
    show "\<not> is_space (hd (show_nat n @ '' B''))" by (rule hd_show_nat_not_space)
  qed (simp_all add: is_space_def)
  have "\<not> is_digit_char (CHR '' '')" by (simp add: is_digit_char_def)
  then have "takeWhile is_digit_char (show_nat n @ '' B'') = show_nat n"
    "dropWhile is_digit_char (show_nat n @ '' B'') = '' B''"
    using takeWhile_digits_show_nat [of "'' B''" n] by simp_all
  then show ?thesis
    by (simp add: size_value_def trim pm Let_def digits_value_show_nat)
qed

lemma tenth_bounds:
  fixes r d :: nat
  assumes "r < d"
  shows "r * 10 div d * d div 10 \<le> r" and "10 * (r - r * 10 div d * d div 10) < d + 10"
    and "r * 10 div d < 10"
proof -
  let ?t = "r * 10 div d"
  have t: "?t * d \<le> r * 10" "r * 10 < ?t * d + d"
    using div_mult_mod_eq [of "r * 10" d] mod_less_divisor [of d "r * 10"] assms by linarith+
  then have "?t * d div 10 \<le> r" "?t * d < 10 * (?t * d div 10) + 10" by linarith+
  then show "?t * d div 10 \<le> r" "10 * (r - ?t * d div 10) < d + 10" using t by linarith+
  show "?t < 10" using assms by (simp add: div_less_iff_less_mult)
qed

text \<open>The text a size of at least one kibibyte is printed as, in natural-number arithmetic.\<close>

lemma format_size_large:
  assumes "\<not> bytes < kib" and "pick_unit larger_units bytes = (d, name)"
    and "unat d = 2 ^ e" and "e \<le> 50"
  shows "format_size bytes =
    show_nat (unat bytes div unat d) @ ''.'' @
    show_nat (unat bytes mod unat d * 10 div unat d) @ '' '' @ name"
proof -
  let ?d = "unat d"
  have d: "0 < ?d" "?d \<le> 2 ^ 50" using assms(3,4) power_increasing [of e 50 "2 :: nat"] by simp_all
  have "unat bytes mod ?d \<le> 2 ^ 50"
    using less_imp_le [OF mod_less_divisor [OF d(1), of "unat bytes"]] d(2) by (rule order_trans)
  then have "unat (bytes mod d) * unat (10 :: u64) < 2 ^ LENGTH(64)"
    by (simp add: unat_mod)
  then have "unat (bytes mod d * 10) = unat bytes mod ?d * 10"
    by (subst unat_mult_lem [THEN iffD1]) (simp_all add: unat_mod)
  then show ?thesis
    using assms(1,2) by (simp add: format_size_def show_word_def Let_def unat_div)
qed

text \<open>C27: every size \<open>format_size\<close> prints is a text \<open>parse_size\<close> accepts. What it reads back never
  exceeds the original, is exact below one kibibyte, and above it is short by less than a tenth of
  the printed unit plus one byte. The top of the 64-bit range is included.\<close>

theorem format_parse_roundtrip:
  "\<exists>m. parse_size (format_size n) = Inr m \<and> m \<le> n \<and>
       (if n < kib then m = n
        else 10 * (unat n - unat m) < unat (fst (pick_unit larger_units n)) + 10)"
proof (cases "n < kib")
  case True
  have "size_value (format_size n) = Some (unat n)"
    using True by (simp add: format_size_def show_word_def size_value_bytes)
  then have "parse_size (format_size n) = Inr n"
    using unat_lt_u64 [of n] by (simp add: parse_size_machine)
  then show ?thesis using True by simp
next
  case False
  obtain d name e where u: "pick_unit larger_units n = (d, name)" "d \<le> n" "unat d = 2 ^ e" "e \<le> 50"
    "parse_multiplier ('' '' @ name) = Some d" "name \<noteq> []" "\<not> is_space (last name)"
    using pick_unit_cases [OF False] by metis
  let ?d = "unat d" and ?n = "unat n"
  let ?r = "?n mod ?d"
  have r: "?r < ?d" using u(3) by simp
  define readback where "readback = ?n div ?d * ?d + ?r * 10 div ?d * ?d div 10"
  have val: "size_value (format_size n) = Some readback"
    unfolding format_size_large [OF False u(1,3,4)] readback_def
    by (rule size_value_one_decimal [OF tenth_bounds(3) [OF r] u(5,6,7)])
  have n: "?n = ?n div ?d * ?d + ?r" by simp
  have part: "?r * 10 div ?d * ?d div 10 \<le> ?r" by (rule tenth_bounds(1) [OF r])
  have le: "readback \<le> ?n" unfolding readback_def using part n by linarith
  have "?n - readback = ?r - ?r * 10 div ?d * ?d div 10"
    unfolding readback_def using part n by linarith
  then have diff: "10 * (?n - readback) < ?d + 10"
    using tenth_bounds(2) [OF r] by simp
  have lt: "readback < 2 ^ 64" using le unat_lt_u64 [of n] by linarith
  have "parse_size (format_size n) = Inr (of_nat readback)"
    using val lt by (simp add: parse_size_machine)
  moreover have "unat (of_nat readback :: u64) = readback" using lt by (rule unat_of_nat_u64)
  ultimately show ?thesis
    using False u(1) le diff by (auto simp: word_le_nat_alt)
qed

text \<open>C17: \<open>format_size_delta\<close> prints a sign and the magnitude of the difference for every 64-bit
  value, the most negative one included, whose magnitude \<open>2 ^ 63\<close> has no positive counterpart.\<close>

theorem format_size_delta_magnitude:
  "format_size_delta b =
     (if sint b = 0 then ''0 B''
      else (if sint b < 0 then ''-'' else ''+'') @ format_size (of_int \<bar>sint b\<bar>))"
proof (cases "b = 0")
  case True
  then show ?thesis by (simp add: format_size_delta_def)
next
  case False
  have nz: "sint b \<noteq> 0" using False by (simp add: signed_eq_0_iff)
  have neg: "NOT b + 1 = - b" by (simp add: minus_eq_not_plus_1)
  have "of_int \<bar>sint b\<bar> = (if sint b < 0 then - b else b)" by simp
  then show ?thesis
    using False nz by (simp add: format_size_delta_def word_sless_alt neg Let_def)
qed

text \<open>Two texts on which the code and its comments differ: the suffix table has no \<open>PB\<close>, and the
  tenth fraction digit of a size in tebibytes does change the exact byte count.\<close>

lemma pb_suffix_refused: "parse_multiplier ''PB'' = None" "parse_multiplier ''TB'' = Some tib"
  by code_simp+

lemma tenth_fraction_digit_dropped:
  "parse_size ''1.0000000009TiB'' = Inr 1099511627776"
  "10000000009 * 2 ^ 40 div 10 ^ 10 = (1099511628765 :: nat)"
proof -
  have "parse_multiplier ''TiB'' = Some tib" by code_simp
  then have "size_value ''1.0000000009TiB'' = Some 1099511627776" by (simp add: size_eval)
  then show "parse_size ''1.0000000009TiB'' = Inr 1099511627776"
    by (simp add: parse_size_machine)
qed simp

end
