(* ===== verification/Text_Encoding.thy ===== *)
theory Text_Encoding
  imports Wsl_Prelude
begin

unbundle bit_operations_syntax

text \<open>
  UTF-16 and UTF-8 (\<open>src/src/lib/model/text.cpp\<close>): \<open>to_utf8\<close>, \<open>to_wide\<close> and the decoder they
  share, on 32-bit code points with the code's masks and shifts. A position in the text is the
  remaining suffix. The lemmas show that the two conversions are inverse up to the replacement
  of unpaired surrogates, that no malformed input reaches the output, and that both loops end.
\<close>

section \<open>The code\<close>

definition replacement_character :: u32 where "replacement_character = 0xFFFD"
definition high_surrogate_first :: u32 where "high_surrogate_first = 0xD800"
definition high_surrogate_last :: u32 where "high_surrogate_last = 0xDBFF"
definition low_surrogate_first :: u32 where "low_surrogate_first = 0xDC00"
definition low_surrogate_last :: u32 where "low_surrogate_last = 0xDFFF"
definition supplementary_base :: u32 where "supplementary_base = 0x10000"
definition max_code_point :: u32 where "max_code_point = 0x10FFFF"

lemmas code_point_defs = replacement_character_def high_surrogate_first_def high_surrogate_last_def
  low_surrogate_first_def low_surrogate_last_def supplementary_base_def max_code_point_def

text \<open>\<open>static_cast<char>\<close> keeps the low byte; \<open>static_cast<unsigned char>\<close> reads it back.\<close>

definition byte_of :: "u32 \<Rightarrow> char" where
  "byte_of x = char_of (unat x)"

definition ubyte :: "char \<Rightarrow> u32" where
  "ubyte c = of_char c"

definition append_utf8 :: "u32 \<Rightarrow> string" where
  "append_utf8 cp =
     (if cp < 0x80 then [byte_of cp]
      else if cp < 0x800 then
        [byte_of (0xC0 OR drop_bit 6 cp), byte_of (0x80 OR (cp AND 0x3F))]
      else if cp < supplementary_base then
        [byte_of (0xE0 OR drop_bit 12 cp), byte_of (0x80 OR (drop_bit 6 cp AND 0x3F)),
         byte_of (0x80 OR (cp AND 0x3F))]
      else
        [byte_of (0xF0 OR drop_bit 18 cp), byte_of (0x80 OR (drop_bit 12 cp AND 0x3F)),
         byte_of (0x80 OR (drop_bit 6 cp AND 0x3F)), byte_of (0x80 OR (cp AND 0x3F))])"

definition append_utf16 :: "u32 \<Rightarrow> wstr" where
  "append_utf16 cp =
     (if cp < supplementary_base then [ucast cp]
      else (let off = cp - supplementary_base
            in [ucast (high_surrogate_first + drop_bit 10 off),
                ucast (low_surrogate_first + (off AND 0x3FF))]))"

definition sequence_length :: "u32 \<Rightarrow> nat" where
  "sequence_length lead =
     (if lead < 0x80 then 1
      else if lead AND 0xE0 = 0xC0 then 2
      else if lead AND 0xF0 = 0xE0 then 3
      else if lead AND 0xF8 = 0xF0 then 4
      else 0)"

definition is_continuation :: "char \<Rightarrow> bool" where
  "is_continuation c \<longleftrightarrow> ubyte c AND 0xC0 = 0x80"

definition continuation_run :: "string \<Rightarrow> nat" where
  "continuation_run text = 1 + length (takeWhile is_continuation (tl text))"

definition lead_mask :: "nat \<Rightarrow> u32" where
  "lead_mask n = (if n = 1 then 0x7F else if n = 2 then 0x1F else if n = 3 then 0x0F
                  else if n = 4 then 0x07 else 0)"

text \<open>The loop over the continuation bytes: \<open>n\<close> bytes are still expected.\<close>

fun decode_tail :: "u32 \<Rightarrow> nat \<Rightarrow> nat \<Rightarrow> string \<Rightarrow> u32 \<times> nat" where
  "decode_tail cp consumed 0 cs = (cp, consumed)"
| "decode_tail cp consumed (Suc n) [] = (cp, consumed)"
| "decode_tail cp consumed (Suc n) (c # cs) =
     (if ubyte c AND 0xC0 \<noteq> 0x80 then (cp, consumed)
      else decode_tail (push_bit 6 cp OR (ubyte c AND 0x3F)) (Suc consumed) n cs)"

text \<open>\<open>decode_one\<close> at a position inside the text: the code point and the bytes to advance.\<close>

fun decode_one :: "string \<Rightarrow> u32 \<times> nat" where
  "decode_one [] = (replacement_character, 1)"
| "decode_one (c # cs) =
     (let lead = ubyte c; len = sequence_length lead in
      if len = 0 then (replacement_character, 1)
      else if len > length (c # cs) then (replacement_character, continuation_run (c # cs))
      else if len = 1 then (lead, 1)
      else
        (let (cp, consumed) = decode_tail (lead AND lead_mask len) 1 (len - 1) cs in
         if consumed \<noteq> len then (replacement_character, consumed)
         else
           (let overlong = (len = 2 \<and> cp < 0x80) \<or> (len = 3 \<and> cp < 0x800) \<or>
                           (len = 4 \<and> cp < supplementary_base);
                surrogate = high_surrogate_first \<le> cp \<and> cp \<le> low_surrogate_last
            in if overlong \<or> surrogate \<or> cp > max_code_point then (replacement_character, len)
               else (cp, len))))"

fun to_utf8 :: "wstr \<Rightarrow> string" where
  "to_utf8 [] = []"
| "to_utf8 (u # us) =
     (let unit = (ucast u :: u32) in
      if high_surrogate_first \<le> unit \<and> unit \<le> high_surrogate_last then
        (case us of
           [] \<Rightarrow> append_utf8 replacement_character @ to_utf8 us
         | v # vs \<Rightarrow>
             (let low = (ucast v :: u32) in
              if low_surrogate_first \<le> low \<and> low \<le> low_surrogate_last
              then append_utf8 (supplementary_base + push_bit 10 (unit - high_surrogate_first) +
                                (low - low_surrogate_first)) @ to_utf8 vs
              else append_utf8 replacement_character @ to_utf8 us))
      else if low_surrogate_first \<le> unit \<and> unit \<le> low_surrogate_last
        then append_utf8 replacement_character @ to_utf8 us
      else append_utf8 unit @ to_utf8 us)"

lemma decode_tail_consumed: "consumed \<le> snd (decode_tail cp consumed n cs)"
  by (induction cp consumed n cs rule: decode_tail.induct) auto

lemma sequence_length_le: "sequence_length lead \<le> 4"
  by (simp add: sequence_length_def)

lemma decode_one_advances: "0 < snd (decode_one cs)"
proof (cases cs)
  case (Cons c cs')
  obtain cp k where tail: "decode_tail (ubyte c AND lead_mask (sequence_length (ubyte c))) 1
      (sequence_length (ubyte c) - 1) cs' = (cp, k)" by fastforce
  then have "1 \<le> k" using decode_tail_consumed by (metis snd_conv)
  then show ?thesis
    using Cons by (simp add: Let_def continuation_run_def tail [simplified])
qed simp

text \<open>The loop of \<open>to_wide\<close> advances by at least one byte, so it ends.\<close>

function to_wide :: "string \<Rightarrow> wstr" where
  "to_wide [] = []"
| "to_wide (c # cs) =
     append_utf16 (fst (decode_one (c # cs))) @ to_wide (drop (snd (decode_one (c # cs))) (c # cs))"
  by pat_completeness auto
termination
proof (relation "measure length")
  fix c :: char and cs
  show "(drop (snd (decode_one (c # cs))) (c # cs), c # cs) \<in> measure length"
    using decode_one_advances [of "c # cs"] by (simp del: decode_one.simps)
qed auto

definition path_to_utf8 :: "path \<Rightarrow> string" where
  "path_to_utf8 p = to_utf8 p"

section \<open>Bytes and masks\<close>

lemma ubyte_byte_of: "ubyte (byte_of x) = x AND 0xFF"
proof -
  have "ubyte (byte_of x) = of_nat (of_char (char_of (unat x)))"
    by (simp only: ubyte_def byte_of_def of_nat_of_char)
  also have "\<dots> = of_nat (take_bit 8 (unat x))"
    by (simp add: take_bit_eq_mod)
  also have "\<dots> = take_bit 8 x"
    by (simp only: of_nat_take_bit) simp
  also have "\<dots> = x AND 0xFF"
    by (simp add: take_bit_eq_mask mask_eq_exp_minus_1)
  finally show ?thesis .
qed

text \<open>A fact about all words below a small bound, checked value by value.\<close>

lemma word_enum:
  assumes "(a :: u32) < of_nat n" and "n < 2 ^ 32" and "list_all (\<lambda>k. P (of_nat k)) [0..<n]"
  shows "P a"
proof -
  have "unat a < n" using assms(1,2) by (simp add: word_less_nat_alt unat_of_nat)
  then have "unat a \<in> set [0..<n]" by simp
  then have "P (of_nat (unat a))" using assms(3) unfolding list_all_iff by blast
  then show ?thesis by simp
qed

lemma lead_byte2:
  assumes "a < 32"
  shows "ubyte (byte_of (0xC0 OR a)) = 0xC0 OR a \<and> sequence_length (0xC0 OR a) = 2 \<and>
    (0xC0 OR a) AND 0x1F = a"
  unfolding ubyte_byte_of
  by (rule word_enum [of a 32]) (use assms in simp, simp, code_simp)

lemma lead_byte3:
  assumes "a < 16"
  shows "ubyte (byte_of (0xE0 OR a)) = 0xE0 OR a \<and> sequence_length (0xE0 OR a) = 3 \<and>
    (0xE0 OR a) AND 0x0F = a"
  unfolding ubyte_byte_of
  by (rule word_enum [of a 16]) (use assms in simp, simp, code_simp)

lemma lead_byte4:
  assumes "a < 8"
  shows "ubyte (byte_of (0xF0 OR a)) = 0xF0 OR a \<and> sequence_length (0xF0 OR a) = 4 \<and>
    (0xF0 OR a) AND 0x07 = a"
  unfolding ubyte_byte_of
  by (rule word_enum [of a 8]) (use assms in simp, simp, code_simp)

lemma continuation_byte:
  "ubyte (byte_of (0x80 OR (x AND 0x3F))) AND 0xC0 = 0x80 \<and>
   ubyte (byte_of (0x80 OR (x AND 0x3F))) AND 0x3F = x AND 0x3F"
proof -
  have "x AND 0x3F \<le> 0x3F" by (rule word_and_le1)
  also have "(0x3F :: u32) < of_nat 64" by simp
  finally show ?thesis
    unfolding ubyte_byte_of by (rule word_enum) (simp, code_simp)
qed

lemma decode_tail_continuation:
  assumes "0 < n"
  shows "decode_tail cp k n (byte_of (0x80 OR (x AND 0x3F)) # cs)
    = decode_tail (push_bit 6 cp OR (x AND 0x3F)) (Suc k) (n - 1) cs"
  using continuation_byte [of x] assms by (cases n) simp_all

lemma drop_bit_less:
  assumes "(cp :: u32) < of_nat (2 ^ (n + k))" and "n + k < 32"
  shows "drop_bit n cp < of_nat (2 ^ k)"
proof -
  have "unat cp < 2 ^ (n + k)"
    using assms power_strict_increasing [OF assms(2), of "2 :: nat"]
    by (simp add: word_less_nat_alt unat_of_nat del: of_nat_power)
  then have "unat cp div 2 ^ n < 2 ^ k"
    by (simp add: power_add less_mult_imp_div_less mult.commute)
  moreover have "unat (drop_bit n cp) = unat cp div 2 ^ n"
    by (subst unat_drop_bit_eq) (rule drop_bit_eq_div)
  moreover have "unat (of_nat (2 ^ k) :: u32) = 2 ^ k"
    using assms(2) power_strict_increasing [of k 32 "2 :: nat"]
    by (simp add: unat_of_nat del: of_nat_power)
  ultimately show ?thesis by (simp add: word_less_nat_alt)
qed

text \<open>The shifted pieces of a code point put together again.\<close>

lemma mask6: "(0x3F :: u32) = mask 6"
  by (simp add: mask_eq_exp_minus_1)

lemma recombine2: "push_bit 6 (drop_bit 6 cp) OR (cp AND 0x3F) = (cp :: u32)"
  unfolding mask6
proof (rule bit_word_eqI)
  fix n :: nat
  consider "n < 6" | "6 \<le> n" by linarith
  then show "bit (push_bit 6 (drop_bit 6 cp) OR (cp AND mask 6)) n = bit cp n"
    by cases (auto simp: bit_simps dest: bit_imp_le_length)
qed

lemma recombine_step:
  assumes "k = m + 6"
  shows "push_bit 6 (drop_bit k cp) OR (drop_bit m cp AND 0x3F) = drop_bit m (cp :: u32)"
proof -
  have "drop_bit k cp = drop_bit 6 (drop_bit m cp)" by (simp add: assms add.commute)
  then show ?thesis by (simp only: recombine2)
qed

lemma recombine_6_12: "push_bit 6 (drop_bit 12 cp) OR (drop_bit 6 cp AND 0x3F) = drop_bit 6 (cp :: u32)"
  by (rule recombine_step) simp

lemma recombine_12_18: "push_bit 6 (drop_bit 18 cp) OR (drop_bit 12 cp AND 0x3F) = drop_bit 12 (cp :: u32)"
  by (rule recombine_step) simp

lemmas recombine = recombine2 recombine_6_12 recombine_12_18

section \<open>One code point there and back\<close>

text \<open>A Unicode scalar value: in range and no surrogate.\<close>

definition scalar :: "u32 \<Rightarrow> bool" where
  "scalar cp \<longleftrightarrow> cp \<le> max_code_point \<and> \<not> (high_surrogate_first \<le> cp \<and> cp \<le> low_surrogate_last)"

lemma decode_one_ascii:
  assumes "cp < 0x80"
  shows "decode_one (append_utf8 cp @ cs) = (cp, length (append_utf8 cp))"
proof -
  have "ubyte (byte_of cp) = cp \<and> sequence_length cp = 1"
    unfolding ubyte_byte_of by (rule word_enum [of cp 128]) (use assms in simp, simp, code_simp)
  then show ?thesis using assms by (simp add: append_utf8_def)
qed

lemma decode_one_two:
  assumes "\<not> cp < 0x80" "cp < 0x800"
  shows "decode_one (append_utf8 cp @ cs) = (cp, length (append_utf8 cp))"
proof -
  have "drop_bit 6 cp < 32" using drop_bit_less [of cp 6 5] assms(2) by simp
  note lead = lead_byte2 [OF this]
  have enc: "append_utf8 cp = [byte_of (0xC0 OR drop_bit 6 cp), byte_of (0x80 OR (cp AND 0x3F))]"
    using assms by (simp only: append_utf8_def if_True if_False)
  have tail: "decode_tail (drop_bit 6 cp) 1 (2 - 1) (byte_of (0x80 OR (cp AND 0x3F)) # cs) = (cp, 2)"
    by (subst decode_tail_continuation) (simp_all only: recombine, simp_all)
  have "\<not> (high_surrogate_first \<le> cp \<and> cp \<le> low_surrogate_last)" "\<not> cp > max_code_point"
    using assms(2) by (auto simp: code_point_defs word_le_nat_alt word_less_nat_alt)
  then show ?thesis
    unfolding enc append_Cons append_Nil decode_one.simps
    using lead tail assms
    by (auto simp add: Let_def lead_mask_def simp del: One_nat_def decode_tail.simps)
qed

lemma decode_one_three:
  assumes "\<not> cp < 0x800" "cp < supplementary_base" "scalar cp"
  shows "decode_one (append_utf8 cp @ cs) = (cp, length (append_utf8 cp))"
proof -
  have "drop_bit 12 cp < 16"
    using drop_bit_less [of cp 12 4] assms(2) by (simp add: supplementary_base_def)
  note lead = lead_byte3 [OF this]
  have "\<not> cp < 0x80" using assms(1) by (auto simp: word_less_nat_alt)
  then have enc: "append_utf8 cp = [byte_of (0xE0 OR drop_bit 12 cp),
      byte_of (0x80 OR (drop_bit 6 cp AND 0x3F)), byte_of (0x80 OR (cp AND 0x3F))]"
    using assms(1,2) by (simp only: append_utf8_def if_True if_False)
  have tail: "decode_tail (drop_bit 12 cp) 1 (3 - 1)
      (byte_of (0x80 OR (drop_bit 6 cp AND 0x3F)) # byte_of (0x80 OR (cp AND 0x3F)) # cs) = (cp, 3)"
    by (subst decode_tail_continuation, simp, subst decode_tail_continuation)
      (simp_all only: recombine, simp_all)
  show ?thesis
    unfolding enc append_Cons append_Nil decode_one.simps
    using lead tail assms
    by (auto simp add: Let_def lead_mask_def scalar_def simp del: One_nat_def decode_tail.simps)
qed

lemma decode_one_four:
  assumes "\<not> cp < supplementary_base" "scalar cp"
  shows "decode_one (append_utf8 cp @ cs) = (cp, length (append_utf8 cp))"
proof -
  have "drop_bit 18 cp < 8"
    using drop_bit_less [of cp 18 3] assms(2)
    by (auto simp: scalar_def max_code_point_def word_le_nat_alt word_less_nat_alt)
  note lead = lead_byte4 [OF this]
  have "\<not> cp < 0x80" "\<not> cp < 0x800"
    using assms(1) by (auto simp: word_less_nat_alt supplementary_base_def)
  then have enc: "append_utf8 cp = [byte_of (0xF0 OR drop_bit 18 cp),
      byte_of (0x80 OR (drop_bit 12 cp AND 0x3F)), byte_of (0x80 OR (drop_bit 6 cp AND 0x3F)),
      byte_of (0x80 OR (cp AND 0x3F))]"
    using assms(1) by (simp only: append_utf8_def if_True if_False)
  have tail: "decode_tail (drop_bit 18 cp) 1 (4 - 1)
      (byte_of (0x80 OR (drop_bit 12 cp AND 0x3F)) # byte_of (0x80 OR (drop_bit 6 cp AND 0x3F)) #
       byte_of (0x80 OR (cp AND 0x3F)) # cs) = (cp, 4)"
    by (subst decode_tail_continuation, simp, subst decode_tail_continuation, simp,
        subst decode_tail_continuation) (simp_all only: recombine, simp_all)
  show ?thesis
    unfolding enc append_Cons append_Nil decode_one.simps
    using lead tail assms
    by (auto simp add: Let_def lead_mask_def scalar_def simp del: One_nat_def decode_tail.simps)
qed

lemma decode_one_append_utf8:
  assumes "scalar cp"
  shows "decode_one (append_utf8 cp @ cs) = (cp, length (append_utf8 cp))"
  using assms decode_one_ascii decode_one_two decode_one_three decode_one_four by blast

lemma append_utf8_nonempty [simp]: "append_utf8 cp \<noteq> []"
  by (simp add: append_utf8_def)

lemma to_wide_append_utf8:
  assumes "scalar cp"
  shows "to_wide (append_utf8 cp @ cs) = append_utf16 cp @ to_wide cs"
proof -
  obtain b bs where b: "append_utf8 cp = b # bs" by (cases "append_utf8 cp") auto
  have "to_wide (append_utf8 cp @ cs) = append_utf16 (fst (decode_one (append_utf8 cp @ cs))) @
      to_wide (drop (snd (decode_one (append_utf8 cp @ cs))) (append_utf8 cp @ cs))"
    unfolding b append_Cons by (rule to_wide.simps(2))
  then show ?thesis
    by (simp only: decode_one_append_utf8 [OF assms]) simp
qed

section \<open>Surrogate pairs\<close>

definition is_high :: "u16 \<Rightarrow> bool" where
  "is_high u \<longleftrightarrow> high_surrogate_first \<le> (ucast u :: u32) \<and> (ucast u :: u32) \<le> high_surrogate_last"

definition is_low :: "u16 \<Rightarrow> bool" where
  "is_low u \<longleftrightarrow> low_surrogate_first \<le> (ucast u :: u32) \<and> (ucast u :: u32) \<le> low_surrogate_last"

definition pair_code_point :: "u16 \<Rightarrow> u16 \<Rightarrow> u32" where
  "pair_code_point u v = supplementary_base +
     push_bit 10 ((ucast u :: u32) - high_surrogate_first) + ((ucast v :: u32) - low_surrogate_first)"

lemma unat_ucast_16_32: "unat (ucast (u :: u16) :: u32) = unat u"
proof -
  have "unat u < 2 ^ LENGTH(16)" by (rule unsigned_less)
  then show ?thesis by (simp add: unsigned_ucast_eq take_bit_nat_eq_self)
qed

lemma is_high_nat: "is_high u \<longleftrightarrow> 0xD800 \<le> unat u \<and> unat u \<le> 0xDBFF"
  by (simp add: is_high_def code_point_defs word_le_nat_alt unat_ucast_16_32)

lemma is_low_nat: "is_low u \<longleftrightarrow> 0xDC00 \<le> unat u \<and> unat u \<le> 0xDFFF"
  by (simp add: is_low_def code_point_defs word_le_nat_alt unat_ucast_16_32)

lemma surrogate_classes: "is_low u \<Longrightarrow> \<not> is_high u"
  by (auto simp: is_high_nat is_low_nat)

lemma unat_diff_u32: "(b :: u32) \<le> a \<Longrightarrow> unat (a - b) = unat a - unat b"
  by (rule unat_sub)

lemma unat_add_u32: "unat a + unat b < 2 ^ 32 \<Longrightarrow> unat (a + b :: u32) = unat a + unat b"
  by (simp add: unat_word_ariths)

lemma pair_offset:
  assumes "is_high u" and "is_low v"
  shows "unat (pair_code_point u v - supplementary_base) = (unat u - 0xD800) * 1024 + (unat v - 0xDC00)"
    and "\<not> pair_code_point u v < supplementary_base"
    and "unat (pair_code_point u v) = 0x10000 + ((unat u - 0xD800) * 1024 + (unat v - 0xDC00))"
proof -
  define a b where "a = unat u - 0xD800" and "b = unat v - 0xDC00"
  have ab: "a < 1024" "b < 1024" using assms by (auto simp: is_high_nat is_low_nat a_def b_def)
  have "unat ((ucast u :: u32) - high_surrogate_first) = a"
    using assms(1) by (subst unat_diff_u32)
      (auto simp: is_high_def code_point_defs a_def unat_ucast_16_32)
  then have A: "unat (push_bit 10 ((ucast u :: u32) - high_surrogate_first)) = a * 1024"
    using ab by (simp only: push_bit_eq_mult unat_word_ariths) simp
  have B: "unat ((ucast v :: u32) - low_surrogate_first) = b"
    using assms(2) by (subst unat_diff_u32)
      (auto simp: is_low_def code_point_defs b_def unat_ucast_16_32)
  have base: "unat supplementary_base = 0x10000" by (simp add: supplementary_base_def)
  have first: "unat (supplementary_base + push_bit 10 ((ucast u :: u32) - high_surrogate_first))
      = 0x10000 + a * 1024"
    using ab by (subst unat_add_u32) (simp_all only: A base, simp)
  have cp: "unat (pair_code_point u v) = 0x10000 + (a * 1024 + b)"
    unfolding pair_code_point_def using ab
    by (subst unat_add_u32) (simp_all only: first B, simp_all)
  then show "unat (pair_code_point u v) = 0x10000 + ((unat u - 0xD800) * 1024 + (unat v - 0xDC00))"
    by (simp add: a_def b_def)
  show ge: "\<not> pair_code_point u v < supplementary_base"
    using cp base by (simp add: word_less_nat_alt)
  then have "unat (pair_code_point u v - supplementary_base) = a * 1024 + b"
    using cp base by (subst unat_diff_u32) (simp_all add: not_less)
  then show "unat (pair_code_point u v - supplementary_base)
      = (unat u - 0xD800) * 1024 + (unat v - 0xDC00)"
    by (simp add: a_def b_def)
qed

lemma append_utf16_pair:
  assumes "is_high u" and "is_low v"
  shows "append_utf16 (pair_code_point u v) = [u, v]"
proof -
  define off where "off = pair_code_point u v - supplementary_base"
  define a b where "a = unat u - 0xD800" and "b = unat v - 0xDC00"
  have ab: "a < 1024" "b < 1024" "unat u = 0xD800 + a" "unat v = 0xDC00 + b"
    using assms by (auto simp: is_high_nat is_low_nat a_def b_def)
  have off: "unat off = a * 1024 + b"
    unfolding off_def a_def b_def by (rule pair_offset(1) [OF assms])
  have hi: "unat (drop_bit 10 off) = a"
    using off ab by (subst unat_drop_bit_eq) (simp add: drop_bit_eq_div)
  have "off AND 0x3FF = take_bit 10 off" by (simp add: take_bit_eq_mask mask_eq_exp_minus_1)
  then have lo: "unat (off AND 0x3FF) = b"
    using off ab by (simp only: unsigned_take_bit_eq) (simp add: take_bit_eq_mod)
  have "unat (high_surrogate_first + drop_bit 10 off) = 0xD800 + a"
    using hi ab by (subst unat_add_u32) (simp_all add: high_surrogate_first_def)
  then have u: "ucast (high_surrogate_first + drop_bit 10 off) = u"
    using ab by (simp add: word_unat_eq_iff unsigned_ucast_eq take_bit_eq_mod)
  have "unat (low_surrogate_first + (off AND 0x3FF)) = 0xDC00 + b"
    using lo ab by (subst unat_add_u32) (simp_all add: low_surrogate_first_def)
  then have v: "ucast (low_surrogate_first + (off AND 0x3FF)) = v"
    using ab by (simp add: word_unat_eq_iff unsigned_ucast_eq take_bit_eq_mod)
  show ?thesis
    using pair_offset(2) [OF assms] u v by (simp add: append_utf16_def Let_def off_def)
qed

lemma scalar_pair: "is_high u \<Longrightarrow> is_low v \<Longrightarrow> scalar (pair_code_point u v)"
  using pair_offset(3) [of u v]
  by (auto simp: scalar_def code_point_defs word_le_nat_alt is_high_nat is_low_nat)

lemma scalar_bmp:
  assumes "\<not> is_high u" and "\<not> is_low u"
  shows "scalar (ucast u)" and "append_utf16 (ucast u) = [u]"
proof -
  have "unat u < 2 ^ LENGTH(16)" by (rule unsigned_less)
  then have lt: "unat u < 65536" by simp
  then show "scalar (ucast u)"
    using assms
    by (auto simp: scalar_def code_point_defs word_le_nat_alt unat_ucast_16_32 is_high_nat is_low_nat)
  have "unat (ucast (ucast u :: u32) :: u16) = take_bit LENGTH(16) (unat (ucast u :: u32))"
    by (rule unsigned_ucast_eq)
  also have "\<dots> = unat u"
    unfolding unat_ucast_16_32 using lt by (simp add: take_bit_nat_eq_self)
  finally have "(ucast (ucast u :: u32) :: u16) = u"
    by (simp only: word_unat_eq_iff)
  then show "append_utf16 (ucast u) = [u]"
    using lt by (simp add: append_utf16_def supplementary_base_def word_less_nat_alt unat_ucast_16_32)
qed

lemma scalar_replacement: "scalar replacement_character"
  by (simp add: scalar_def code_point_defs)

section \<open>Whole strings\<close>

text \<open>What a wide string is after its unpaired surrogates became U+FFFD, and the strings that have
  none.\<close>

fun repair :: "wstr \<Rightarrow> wstr" where
  "repair [] = []"
| "repair (u # us) =
     (if is_high u then
        (case us of
           [] \<Rightarrow> 0xFFFD # repair us
         | v # vs \<Rightarrow> if is_low v then u # v # repair vs else 0xFFFD # repair us)
      else if is_low u then 0xFFFD # repair us
      else u # repair us)"

fun well_formed_utf16 :: "wstr \<Rightarrow> bool" where
  "well_formed_utf16 [] \<longleftrightarrow> True"
| "well_formed_utf16 (u # us) \<longleftrightarrow>
     (if is_high u then (case us of [] \<Rightarrow> False | v # vs \<Rightarrow> is_low v \<and> well_formed_utf16 vs)
      else \<not> is_low u \<and> well_formed_utf16 us)"

text \<open>Each shape a wide string can start with, with the equations of the three functions for it.\<close>

lemma utf16_induct [case_names Nil End Pair Lone Low Plain]:
  assumes "P []"
    and "\<And>u. is_high u \<Longrightarrow> P [u]"
    and "\<And>u v vs. is_high u \<Longrightarrow> is_low v \<Longrightarrow> P vs \<Longrightarrow> P (u # v # vs)"
    and "\<And>u v vs. is_high u \<Longrightarrow> \<not> is_low v \<Longrightarrow> P (v # vs) \<Longrightarrow> P (u # v # vs)"
    and "\<And>u us. is_low u \<Longrightarrow> \<not> is_high u \<Longrightarrow> P us \<Longrightarrow> P (u # us)"
    and "\<And>u us. \<not> is_high u \<Longrightarrow> \<not> is_low u \<Longrightarrow> P us \<Longrightarrow> P (u # us)"
  shows "P w"
proof (induction w rule: repair.induct)
  case (2 u us)
  note IH = "2.IH"
  show ?case
  proof (cases "is_high u")
    case high: True
    show ?thesis
    proof (cases us)
      case Nil
      then show ?thesis using high assms(2) by simp
    next
      case (Cons v vs)
      show ?thesis
      proof (cases "is_low v")
        case True
        have "P vs" using IH(2) [OF high Cons True] .
        then show ?thesis unfolding Cons by (rule assms(3) [OF high True])
      next
        case False
        have "P us" using IH(3) [OF high Cons False] .
        then show ?thesis unfolding Cons by (rule assms(4) [OF high False])
      qed
    qed
  next
    case not_high: False
    show ?thesis
    proof (cases "is_low u")
      case True
      then show ?thesis using IH(4) [OF not_high True] not_high by (intro assms(5))
    next
      case False
      then show ?thesis using IH(5) [OF not_high False] not_high by (intro assms(6))
    qed
  qed
qed (rule assms(1))

lemma to_utf8_unfold:
  "to_utf8 (u # us) =
     (if is_high u then
        (case us of
           [] \<Rightarrow> append_utf8 replacement_character @ to_utf8 us
         | v # vs \<Rightarrow> if is_low v then append_utf8 (pair_code_point u v) @ to_utf8 vs
                     else append_utf8 replacement_character @ to_utf8 us)
      else if is_low u then append_utf8 replacement_character @ to_utf8 us
      else append_utf8 (ucast u) @ to_utf8 us)"
  by (subst to_utf8.simps(2))
    (simp only: is_high_def is_low_def pair_code_point_def Let_def)

declare to_utf8.simps(2) [simp del] repair.simps(2) [simp del] well_formed_utf16.simps(2) [simp del]

lemma to_utf8_shapes:
  "is_high u \<Longrightarrow> to_utf8 [u] = append_utf8 replacement_character @ to_utf8 []"
  "is_high u \<Longrightarrow> is_low v \<Longrightarrow> to_utf8 (u # v # vs) = append_utf8 (pair_code_point u v) @ to_utf8 vs"
  "is_high u \<Longrightarrow> \<not> is_low v \<Longrightarrow>
     to_utf8 (u # v # vs) = append_utf8 replacement_character @ to_utf8 (v # vs)"
  "\<not> is_high u \<Longrightarrow> is_low u \<Longrightarrow> to_utf8 (u # us) = append_utf8 replacement_character @ to_utf8 us"
  "\<not> is_high u \<Longrightarrow> \<not> is_low u \<Longrightarrow> to_utf8 (u # us) = append_utf8 (ucast u) @ to_utf8 us"
  by (subst to_utf8_unfold, simp)+

lemma repair_shapes:
  "is_high u \<Longrightarrow> repair [u] = [0xFFFD]"
  "is_high u \<Longrightarrow> is_low v \<Longrightarrow> repair (u # v # vs) = u # v # repair vs"
  "is_high u \<Longrightarrow> \<not> is_low v \<Longrightarrow> repair (u # v # vs) = 0xFFFD # repair (v # vs)"
  "\<not> is_high u \<Longrightarrow> is_low u \<Longrightarrow> repair (u # us) = 0xFFFD # repair us"
  "\<not> is_high u \<Longrightarrow> \<not> is_low u \<Longrightarrow> repair (u # us) = u # repair us"
  by (subst repair.simps, simp)+

lemma well_formed_shapes:
  "is_high u \<Longrightarrow> \<not> well_formed_utf16 [u]"
  "is_high u \<Longrightarrow> is_low v \<Longrightarrow> well_formed_utf16 (u # v # vs) = well_formed_utf16 vs"
  "is_high u \<Longrightarrow> \<not> is_low v \<Longrightarrow> \<not> well_formed_utf16 (u # v # vs)"
  "\<not> is_high u \<Longrightarrow> is_low u \<Longrightarrow> \<not> well_formed_utf16 (u # us)"
  "\<not> is_high u \<Longrightarrow> \<not> is_low u \<Longrightarrow> well_formed_utf16 (u # us) = well_formed_utf16 us"
  by (subst well_formed_utf16.simps, simp)+

lemma append_utf16_replacement: "append_utf16 replacement_character = [0xFFFD]"
  by (simp add: append_utf16_def code_point_defs)

lemma replacement_unit: "\<not> is_high 0xFFFD" "\<not> is_low 0xFFFD"
  "ucast (0xFFFD :: u16) = replacement_character"
  by (simp_all add: is_high_nat is_low_nat replacement_character_def)

lemmas utf16_shapes = to_utf8_shapes repair_shapes well_formed_shapes replacement_unit

lemma well_formed_repair: "well_formed_utf16 (repair w)"
  by (induction w rule: utf16_induct) (simp_all add: utf16_shapes)

lemma repair_well_formed: "well_formed_utf16 w \<Longrightarrow> repair w = w"
  by (induction w rule: utf16_induct) (simp_all add: utf16_shapes)

lemma to_utf8_repair: "to_utf8 (repair w) = to_utf8 w"
  by (induction w rule: utf16_induct) (simp_all add: utf16_shapes replacement_character_def)

lemma to_wide_to_utf8: "to_wide (to_utf8 w) = repair w"
proof (induction w rule: utf16_induct)
  case Nil
  show ?case by simp
qed (simp_all add: utf16_shapes to_wide_append_utf8 scalar_replacement scalar_pair scalar_bmp
    append_utf16_replacement append_utf16_pair
    to_wide_append_utf8 [OF scalar_replacement, of "[]", simplified])

text \<open>C20: converting any UTF-16 string to UTF-8 and back gives the string with each unpaired surrogate
  replaced by U+FFFD and nothing else changed: a well-formed name reaches \<open>wsl.exe\<close> exactly as the
  registry stored it, and a malformed one keeps every well-formed part.\<close>

theorem utf16_roundtrip:
  "to_wide (to_utf8 w) = repair w \<and> (well_formed_utf16 w \<longrightarrow> to_wide (to_utf8 w) = w)"
  by (simp add: to_wide_to_utf8 repair_well_formed)

theorem utf16_roundtrip_witness:
  "to_wide (to_utf8 [0x41, 0xD83D, 0xDE00]) = [0x41, 0xD83D, 0xDE00] \<and>
   to_wide (to_utf8 [0xD83D, 0x41]) = [0xFFFD, 0x41]"
proof -
  have "well_formed_utf16 [0x41, 0xD83D, 0xDE00]" "repair [0xD83D, 0x41] = [0xFFFD, 0x41]"
    by (simp_all add: utf16_shapes is_high_nat is_low_nat)
  then show ?thesis
    using utf16_roundtrip [of "[0x41, 0xD83D, 0xDE00]"] utf16_roundtrip [of "[0xD83D, 0x41]"]
    by (simp add: repair_well_formed)
qed

lemma decode_one_scalar: "scalar (fst (decode_one cs))"
proof (cases cs)
  case Nil
  then show ?thesis by (simp add: scalar_replacement)
next
  case (Cons c cs')
  have one: "scalar (ubyte c)" if "sequence_length (ubyte c) = 1"
  proof -
    have "ubyte c < 0x80" using that by (auto simp: sequence_length_def split: if_splits)
    then show ?thesis
      by (auto simp: scalar_def code_point_defs word_less_nat_alt word_le_nat_alt)
  qed
  obtain cp k where tail: "decode_tail (ubyte c AND lead_mask (sequence_length (ubyte c))) 1
      (sequence_length (ubyte c) - 1) cs' = (cp, k)" by fastforce
  show ?thesis
    unfolding Cons decode_one.simps Let_def tail
    using one by (auto simp: scalar_replacement) (auto simp: scalar_def)
qed

lemma well_formed_append_utf16:
  assumes "scalar cp" and "well_formed_utf16 w"
  shows "well_formed_utf16 (append_utf16 cp @ w)"
proof (cases "cp < supplementary_base")
  case True
  then have lt: "unat cp < 65536" by (simp add: supplementary_base_def word_less_nat_alt)
  have "unat (ucast cp :: u16) = take_bit LENGTH(16) (unat cp)" by (rule unsigned_ucast_eq)
  then have "unat (ucast cp :: u16) = unat cp" using lt by (simp add: take_bit_nat_eq_self)
  then have "\<not> is_high (ucast cp)" "\<not> is_low (ucast cp)"
    using assms(1)
    by (auto simp: is_high_nat is_low_nat scalar_def code_point_defs word_le_nat_alt)
  then show ?thesis using True assms(2) by (simp add: append_utf16_def utf16_shapes)
next
  case False
  define off where "off = cp - supplementary_base"
  have "unat off = unat cp - 0x10000"
    using False unfolding off_def
    by (subst unat_diff_u32) (simp_all add: supplementary_base_def not_less)
  moreover have "unat cp \<le> 0x10FFFF"
    using assms(1) by (simp add: scalar_def max_code_point_def word_le_nat_alt)
  ultimately have off: "unat off < 0x100000" by linarith
  have hi: "unat (drop_bit 10 off) = unat off div 1024"
    by (subst unat_drop_bit_eq) (simp add: drop_bit_eq_div)
  have "off AND 0x3FF = take_bit 10 off" by (simp add: take_bit_eq_mask mask_eq_exp_minus_1)
  then have lo: "unat (off AND 0x3FF) = unat off mod 1024"
    by (simp only: unsigned_take_bit_eq) (simp add: take_bit_eq_mod)
  have narrow: "unat (ucast x :: u16) = unat x" if "unat (x :: u32) < 65536" for x
  proof -
    have "unat (ucast x :: u16) = take_bit LENGTH(16) (unat x)" by (rule unsigned_ucast_eq)
    then show ?thesis using that by (simp add: take_bit_nat_eq_self)
  qed
  have h: "unat (high_surrogate_first + drop_bit 10 off) = 0xD800 + unat off div 1024"
    using hi off by (subst unat_add_u32) (simp_all add: high_surrogate_first_def)
  have l: "unat (low_surrogate_first + (off AND 0x3FF)) = 0xDC00 + unat off mod 1024"
    using lo by (subst unat_add_u32) (simp_all add: low_surrogate_first_def)
  have "is_high (ucast (high_surrogate_first + drop_bit 10 off))"
    using off by (simp add: is_high_nat narrow h)
  moreover have "is_low (ucast (low_surrogate_first + (off AND 0x3FF)))"
    by (simp add: is_low_nat narrow l)
  ultimately show ?thesis
    using False assms(2) by (simp add: append_utf16_def Let_def utf16_shapes flip: off_def)
qed

text \<open>Whatever bytes a guest prints, decoding them gives well-formed UTF-16, and encoding that
  again is stable: no malformed sequence, overlong form or surrogate half passes through to a
  Windows call or to the JSON output.\<close>

theorem to_wide_well_formed:
  "well_formed_utf16 (to_wide s) \<and> to_wide (to_utf8 (to_wide s)) = to_wide s"
proof -
  have "well_formed_utf16 (to_wide s)"
  proof (induction s rule: to_wide.induct)
    case (2 c cs)
    have "scalar (fst (decode_one (c # cs)))" by (rule decode_one_scalar)
    then show ?case
      using 2 by (simp only: to_wide.simps) (rule well_formed_append_utf16)
  qed simp
  then show ?thesis by (simp add: to_wide_to_utf8 repair_well_formed)
qed

end
