(* ===== verification/Wsl_Output.thy ===== *)
theory Wsl_Output
  imports Text_Encoding
begin

unbundle bit_operations_syntax

text \<open>
  Decoding what \<open>wsl.exe\<close> prints (\<open>src/src/lib/model/wsl_output.cpp\<close>): UTF-16LE bytes to UTF-8,
  and the names of \<open>wsl --list --quiet\<close>. Bytes are characters of a \<^typ>\<open>string\<close>.
\<close>

section \<open>The code\<close>

definition unit_at :: "char \<Rightarrow> char \<Rightarrow> u16" where
  "unit_at low high = of_char low OR push_bit 8 (of_char high)"

text \<open>The loop stops when fewer than two bytes are left.\<close>

fun units_of_bytes :: "string \<Rightarrow> wstr" where
  "units_of_bytes (a # b # rest) = unit_at a b # units_of_bytes rest"
| "units_of_bytes [a] = []"
| "units_of_bytes [] = []"

definition decode_utf16le :: "string \<Rightarrow> string" where
  "decode_utf16le bytes =
     (let body = (if 2 \<le> length bytes \<and> take 2 bytes = [CHR 0xFF, CHR 0xFE]
                  then drop 2 bytes else bytes)
      in to_utf8 (units_of_bytes body))"

definition trimmable :: "char \<Rightarrow> bool" where
  "trimmable c \<longleftrightarrow> c \<in> set [CHR 0x0D, CHR 0x0A, CHR 0x09, CHR 0x00, CHR '' '']"

definition trim_line :: "string \<Rightarrow> string" where
  "trim_line line = rev (dropWhile trimmable (rev (dropWhile trimmable line)))"

text \<open>The loop over the lines of the decoded text; a name is kept when it is not blank.\<close>

function distribution_lines :: "string \<Rightarrow> string list" where
  "distribution_lines text =
     (if text = [] then []
      else
        (let line = takeWhile (\<lambda>c. c \<noteq> CHR 0x0A) text;
             rest = dropWhile (\<lambda>c. c \<noteq> CHR 0x0A) text;
             name = trim_line line
         in (if name = [] then [] else [name]) @ distribution_lines (tl rest)))"
  by pat_completeness auto
termination
proof (relation "measure length")
  fix t line rest name :: string
  assume "t \<noteq> []" and "rest = dropWhile (\<lambda>c. c \<noteq> CHR 0x0A) t"
  then show "(tl rest, t) \<in> measure length"
    using length_dropWhile_le [of "\<lambda>c. c \<noteq> CHR 0x0A" "tl t"] by (cases t) auto
qed auto

declare distribution_lines.simps [simp del]

definition parse_distribution_list :: "string \<Rightarrow> string list" where
  "parse_distribution_list bytes = distribution_lines (decode_utf16le bytes)"

section \<open>What WSL writes\<close>

text \<open>A list of names as \<open>wsl --list --quiet\<close> writes it: UTF-16LE, a CRLF after each name.\<close>

definition byte_pair :: "u16 \<Rightarrow> string" where
  "byte_pair u = [char_of (unat (take_bit 8 u)), char_of (unat (drop_bit 8 u))]"

definition utf16le_bytes :: "wstr \<Rightarrow> string" where
  "utf16le_bytes w = concat (map byte_pair w)"

definition quiet_output :: "wstr list \<Rightarrow> wstr" where
  "quiet_output names = concat (map (\<lambda>n. n @ [0x0D, 0x0A]) names)"

text \<open>A name that the trimming leaves alone: no line break inside, no blank at either end.\<close>

definition blank_unit :: "u16 \<Rightarrow> bool" where
  "blank_unit u \<longleftrightarrow> u \<in> set [0x0D, 0x0A, 0x09, 0x00, 0x20]"

definition plain_name :: "wstr \<Rightarrow> bool" where
  "plain_name n \<longleftrightarrow> n \<noteq> [] \<and> \<not> blank_unit (hd n) \<and> \<not> blank_unit (last n) \<and> 0x0A \<notin> set n"

lemma unit_at_byte_pair: "unit_at (char_of (unat (take_bit 8 u))) (char_of (unat (drop_bit 8 u))) = u"
proof -
  have b: "(of_char (char_of (unat x)) :: u16) = take_bit 8 x" for x :: u16
  proof -
    have "(of_char (char_of (unat x)) :: u16) = of_nat (of_char (char_of (unat x)))"
      by (simp only: of_nat_of_char)
    also have "\<dots> = of_nat (take_bit 8 (unat x))" by (simp add: take_bit_eq_mod)
    also have "\<dots> = take_bit 8 x" by (simp only: of_nat_take_bit) simp
    finally show ?thesis .
  qed
  show ?thesis
    unfolding unit_at_def b
  proof (rule bit_word_eqI)
    fix n assume "n < LENGTH(16)"
    then show "bit (take_bit 8 (take_bit 8 u) OR push_bit 8 (take_bit 8 (drop_bit 8 u))) n = bit u n"
      by (cases "n < 8") (auto simp: bit_simps)
  qed
qed

lemma units_of_utf16le [simp]: "units_of_bytes (utf16le_bytes w) = w"
  by (induction w) (simp_all add: utf16le_bytes_def byte_pair_def unit_at_byte_pair)

lemma units_of_utf16le_odd: "units_of_bytes (utf16le_bytes w @ [b]) = w"
  by (induction w) (simp_all add: utf16le_bytes_def byte_pair_def unit_at_byte_pair)

lemma to_utf8_append:
  assumes "ys = [] \<or> \<not> is_low (hd ys)"
  shows "to_utf8 (xs @ ys) = to_utf8 xs @ to_utf8 ys"
proof (induction xs rule: utf16_induct)
  case (End u)
  then show ?case using assms by (cases ys) (simp_all add: utf16_shapes)
qed (simp_all add: utf16_shapes)

section \<open>Bytes of an encoded name\<close>

lemma of_char_byte_of: "(of_char (byte_of x) :: nat) = unat (x AND 0xFF)"
proof -
  have "(of_char (byte_of x) :: nat) = unat x mod 256" by (simp add: byte_of_def)
  also have "\<dots> = take_bit 8 (unat x)" by (simp add: take_bit_eq_mod)
  also have "\<dots> = unat (take_bit 8 x)" by (rule unsigned_take_bit_eq [symmetric])
  also have "take_bit 8 x = x AND 0xFF" by (simp add: take_bit_eq_mask mask_eq_exp_minus_1)
  finally show ?thesis .
qed

lemma high_byte: "128 \<le> (of_char (byte_of (0x80 OR x)) :: nat)"
proof -
  have "x AND 0xFF \<le> 0xFF" by (rule word_and_le1)
  also have "(0xFF :: u32) < of_nat 256" by simp
  finally have "128 \<le> unat ((0x80 OR (x AND 0xFF)) AND 0xFF)"
    by (rule word_enum [where P = "\<lambda>y. 128 \<le> unat ((0x80 OR y) AND 0xFF)"]) (simp, code_simp)
  moreover have "(0x80 OR (x AND 0xFF)) AND 0xFF = (0x80 OR x) AND 0xFF"
    by (rule bit_word_eqI) (auto simp: bit_simps)
  ultimately show ?thesis by (simp only: of_char_byte_of)
qed

lemma append_utf8_ascii:
  assumes "cp < 0x80"
  shows "append_utf8 cp = [char_of (unat cp)]"
  using assms by (simp add: append_utf8_def byte_of_def)

lemma append_utf8_multi:
  assumes "\<not> cp < 0x80" and "c \<in> set (append_utf8 cp)"
  shows "128 \<le> (of_char c :: nat)"
proof -
  have "0xC0 OR x = 0x80 OR (0x40 OR x)" "0xE0 OR x = 0x80 OR (0x60 OR x)"
    "0xF0 OR x = 0x80 OR (0x70 OR x)" for x :: u32
    by (simp_all flip: or.assoc)
  then have lead: "128 \<le> (of_char (byte_of (0xC0 OR x)) :: nat)"
    "128 \<le> (of_char (byte_of (0xE0 OR x)) :: nat)"
    "128 \<le> (of_char (byte_of (0xF0 OR x)) :: nat)" for x
    by (simp_all only: high_byte)
  show ?thesis
    using assms high_byte lead by (auto simp: append_utf8_def split: if_splits)
qed

text \<open>An ASCII character occurs in the encoding exactly where the same unit occurs in the name.\<close>

lemma ascii_in_append_utf8:
  assumes "c \<in> set (append_utf8 cp)" and "(of_char c :: nat) < 128"
  shows "unat cp = of_char c" and "append_utf8 cp = [c]"
proof -
  have small: "cp < 0x80" using append_utf8_multi assms by (metis not_less)
  then have one: "append_utf8 cp = [char_of (unat cp)]" by (rule append_utf8_ascii)
  then have c: "c = char_of (unat cp)" using assms(1) by simp
  then show "append_utf8 cp = [c]" using one by simp
  have "unat cp < 128" using small by (simp add: word_less_nat_alt)
  then show "unat cp = of_char c" by (simp add: c)
qed

lemma ascii_in_to_utf8:
  assumes "c \<in> set (to_utf8 w)" and "(of_char c :: nat) < 128"
  shows "of_char c \<in> set w"
  using assms(1)
proof (induction w rule: utf16_induct)
  case (Pair u v vs)
  have "c \<notin> set (append_utf8 (pair_code_point u v))"
    using ascii_in_append_utf8(1) [OF _ assms(2)] pair_offset(3) [OF Pair.hyps(1,2)] assms(2)
    by fastforce
  then show ?case using Pair by (auto simp: utf16_shapes)
next
  case (Plain u us)
  have "u = of_char c" if "c \<in> set (append_utf8 (ucast u))"
  proof -
    have "unat u = of_char c"
      using ascii_in_append_utf8(1) [OF that assms(2)] by (simp only: unat_ucast_16_32)
    then have "of_nat (unat u) = (of_nat (of_char c) :: u16)" by simp
    then show ?thesis by (simp add: of_nat_of_char)
  qed
  then show ?case using Plain by (auto simp: utf16_shapes)
qed (use ascii_in_append_utf8(1) [OF _ assms(2), of replacement_character] assms(2) in
    \<open>auto simp: utf16_shapes replacement_character_def\<close>)

lemma to_utf8_empty_iff [simp]: "to_utf8 w = [] \<longleftrightarrow> w = []"
  by (induction w rule: utf16_induct) (simp_all add: utf16_shapes)

text \<open>One encoded code point is ASCII only if its unit is: the first and the last character of an
  encoded name come from its first and last unit.\<close>

lemma ascii_code_point:
  assumes "c \<in> set (append_utf8 cp)" and "(of_char c :: nat) < 128"
  shows "cp \<noteq> replacement_character" and "is_high u \<Longrightarrow> is_low v \<Longrightarrow> cp \<noteq> pair_code_point u v"
    and "cp = ucast (u :: u16) \<Longrightarrow> u = of_char c"
proof -
  note cp = ascii_in_append_utf8(1) [OF assms]
  show "cp \<noteq> replacement_character"
    using cp assms(2) by (auto simp: replacement_character_def)
  show "cp \<noteq> pair_code_point u v" if "is_high u" "is_low v"
    using cp assms(2) pair_offset(3) [OF that] by auto
  show "u = of_char c" if "cp = ucast (u :: u16)"
  proof -
    have "unat u = of_char c" using cp by (simp only: that unat_ucast_16_32)
    then have "of_nat (unat u) = (of_nat (of_char c) :: u16)" by simp
    then show ?thesis by (simp add: of_nat_of_char)
  qed
qed

lemma hd_to_utf8_ascii:
  assumes "w \<noteq> []" and "(of_char (hd (to_utf8 w)) :: nat) < 128"
  shows "hd w = of_char (hd (to_utf8 w))"
  using assms
proof (induction w rule: utf16_induct)
  case (End u)
  then show ?case
    using ascii_code_point(1) [of "hd (append_utf8 replacement_character)" replacement_character]
    by (simp add: utf16_shapes)
next
  case (Pair u v vs)
  then show ?case
    using ascii_code_point(2) [of "hd (append_utf8 (pair_code_point u v))" "pair_code_point u v" u v]
    by (simp add: utf16_shapes)
next
  case (Lone u v vs)
  then show ?case
    using ascii_code_point(1) [of "hd (append_utf8 replacement_character)" replacement_character]
    by (simp add: utf16_shapes)
next
  case (Low u us)
  then show ?case
    using ascii_code_point(1) [of "hd (append_utf8 replacement_character)" replacement_character]
    by (simp add: utf16_shapes)
next
  case (Plain u us)
  then show ?case
    using ascii_code_point(3) [of "hd (append_utf8 (ucast u))" "ucast u" u]
    by (simp add: utf16_shapes)
qed simp

lemma last_to_utf8_ascii:
  assumes "w \<noteq> []" and "(of_char (last (to_utf8 w)) :: nat) < 128"
  shows "last w = of_char (last (to_utf8 w))"
  using assms
proof (induction w rule: utf16_induct)
  case (End u)
  then show ?case
    using ascii_code_point(1) [of "last (append_utf8 replacement_character)" replacement_character]
    by (simp add: utf16_shapes)
next
  case (Pair u v vs)
  then show ?case
    using ascii_code_point(2) [of "last (append_utf8 (pair_code_point u v))" "pair_code_point u v" u v]
    by (cases "vs = []") (simp_all add: utf16_shapes)
next
  case (Lone u v vs)
  then show ?case by (simp add: utf16_shapes)
next
  case (Low u us)
  then show ?case
    using ascii_code_point(1) [of "last (append_utf8 replacement_character)" replacement_character]
    by (cases "us = []") (simp_all add: utf16_shapes)
next
  case (Plain u us)
  then show ?case
    using ascii_code_point(3) [of "last (append_utf8 (ucast u))" "ucast u" u]
    by (cases "us = []") (simp_all add: utf16_shapes)
qed simp

lemma trimmable_ascii: "trimmable c \<Longrightarrow> (of_char c :: nat) < 128 \<and> blank_unit (of_char c)"
  by (auto simp: trimmable_def blank_unit_def)

lemma trim_line_name:
  assumes "plain_name n"
  shows "trim_line (to_utf8 n) = to_utf8 n" and "trim_line (to_utf8 n @ [CHR 0x0D]) = to_utf8 n"
    and "CHR 0x0A \<notin> set (to_utf8 n)"
proof -
  let ?t = "to_utf8 n"
  have ne: "?t \<noteq> []" "n \<noteq> []" using assms by (simp_all add: plain_name_def)
  have first: "\<not> trimmable (hd ?t)"
    using assms ne hd_to_utf8_ascii [of n] trimmable_ascii by (metis plain_name_def)
  have final: "\<not> trimmable (last ?t)"
    using assms ne last_to_utf8_ascii [of n] trimmable_ascii by (metis plain_name_def)
  show trimmed: "trim_line ?t = ?t" unfolding trim_line_def using ne(1) first final by (rule trim_ends_id)
  have "dropWhile trimmable (?t @ [CHR 0x0D]) = ?t @ [CHR 0x0D]"
    using ne first by (intro dropWhile_hd) simp
  moreover have "dropWhile trimmable (rev ?t) = rev ?t"
    using ne final by (intro dropWhile_hd) (simp add: hd_rev)
  ultimately show "trim_line (?t @ [CHR 0x0D]) = ?t" by (simp add: trim_line_def trimmable_def)
  show "CHR 0x0A \<notin> set ?t"
    using ascii_in_to_utf8 [of "CHR 0x0A" n] assms by (auto simp: plain_name_def)
qed

lemma distribution_lines_step:
  assumes "plain_name n"
  shows "distribution_lines (to_utf8 n @ [CHR 0x0D, CHR 0x0A] @ rest)
    = to_utf8 n # distribution_lines rest"
proof -
  let ?t = "to_utf8 n @ [CHR 0x0D, CHR 0x0A] @ rest"
  have line: "takeWhile (\<lambda>c. c \<noteq> CHR 0x0A) ?t = to_utf8 n @ [CHR 0x0D]"
    "dropWhile (\<lambda>c. c \<noteq> CHR 0x0A) ?t = CHR 0x0A # rest"
    using trim_line_name(3) [OF assms]
    by (auto simp: takeWhile_append dropWhile_append)
  have "to_utf8 n \<noteq> []" using assms by (simp add: plain_name_def)
  then show ?thesis
    by (subst distribution_lines.simps) (simp only: line trim_line_name(2) [OF assms] Let_def, simp)
qed

lemma distribution_lines_output:
  assumes "\<forall>n \<in> set names. plain_name n"
  shows "distribution_lines (to_utf8 (quiet_output names)) = map to_utf8 names"
  using assms
proof (induction names)
  case Nil
  have "quiet_output [] = []" by (simp add: quiet_output_def)
  then show ?case by (subst distribution_lines.simps) simp
next
  case (Cons n ns)
  have cr: "\<not> is_low 0x0D" "\<not> is_high 0x0D" "\<not> is_low 0x0A" "\<not> is_high 0x0A"
    by (simp_all add: is_low_nat is_high_nat)
  have enc: "append_utf8 (ucast (0x0D :: u16)) = [CHR 0x0D]" "append_utf8 (ucast (0x0A :: u16)) = [CHR 0x0A]"
    by code_simp+
  have "to_utf8 (quiet_output (n # ns))
      = to_utf8 n @ [CHR 0x0D, CHR 0x0A] @ to_utf8 (quiet_output ns)"
    using to_utf8_append [of "[0x0D, 0x0A] @ quiet_output ns" n] cr enc
    by (simp add: quiet_output_def utf16_shapes)
  moreover have "plain_name n" "distribution_lines (to_utf8 (quiet_output ns)) = map to_utf8 ns"
    using Cons by simp_all
  ultimately show ?case by (simp only: distribution_lines_step list.map)
qed

text \<open>The bytes may start with a byte-order mark, and a read may end with half a unit.\<close>

lemma decode_utf16le_bytes:
  assumes "mark = [CHR 0xFF, CHR 0xFE] \<or> mark = [] \<and> (w = [] \<or> hd w \<noteq> 0xFEFF)"
    and "length tail \<le> 1" and "w = [] \<and> mark = [] \<longrightarrow> tail = []"
  shows "decode_utf16le (mark @ utf16le_bytes w @ tail) = to_utf8 w"
proof -
  have units: "units_of_bytes (utf16le_bytes w @ tail) = w"
    using assms(2) by (cases tail) (simp_all add: units_of_utf16le_odd)
  show ?thesis
  proof (cases "mark = []")
    case False
    then show ?thesis using assms(1) units by (simp add: decode_utf16le_def)
  next
    case True
    have "take 2 (utf16le_bytes w @ tail) \<noteq> [CHR 0xFF, CHR 0xFE]"
    proof (cases w)
      case Nil
      then show ?thesis using assms(3) True by (simp add: utf16le_bytes_def)
    next
      case (Cons u us)
      have "u \<noteq> 0xFEFF" using assms(1) True Cons by simp
      moreover have "u = unit_at (CHR 0xFF) (CHR 0xFE)" if "byte_pair u = [CHR 0xFF, CHR 0xFE]"
        using unit_at_byte_pair [of u] that by (simp add: byte_pair_def)
      moreover have "unit_at (CHR 0xFF) (CHR 0xFE) = 0xFEFF" by code_simp
      ultimately have "byte_pair u \<noteq> [CHR 0xFF, CHR 0xFE]" by metis
      then show ?thesis by (simp add: Cons utf16le_bytes_def byte_pair_def numeral_2_eq_2)
    qed
    then show ?thesis using True units by (simp add: decode_utf16le_def)
  qed
qed

text \<open>C28: the names \<open>wsl --list --quiet\<close> prints come back as they are, whether the stream starts with a
  byte-order mark or not and even when the read ends half-way through a unit.\<close>

theorem distribution_list_roundtrip:
  assumes "\<forall>n \<in> set names. plain_name n" and "length tail \<le> 1" and "names \<noteq> []"
    and "mark = [CHR 0xFF, CHR 0xFE] \<or> mark = [] \<and> hd (hd names) \<noteq> 0xFEFF"
  shows "parse_distribution_list (mark @ utf16le_bytes (quiet_output names) @ tail)
    = map to_utf8 names"
proof -
  obtain n ns where n: "names = n # ns" "n \<noteq> []"
    using assms(1,3) by (cases names) (auto simp: plain_name_def)
  have "decode_utf16le (mark @ utf16le_bytes (quiet_output names) @ tail)
      = to_utf8 (quiet_output names)"
    using assms(2,4) n by (intro decode_utf16le_bytes) (auto simp: quiet_output_def)
  then show ?thesis
    by (simp add: parse_distribution_list_def distribution_lines_output [OF assms(1)])
qed

theorem distribution_list_roundtrip_witness:
  "parse_distribution_list
     ([CHR 0xFF, CHR 0xFE] @ utf16le_bytes (quiet_output [wide ''Ubuntu'', [0x65E5, 0x672C]]) @ [CHR ''x''])
   = [''Ubuntu'', to_utf8 [0x65E5, 0x672C]]"
proof -
  have w: "wide ''Ubuntu'' = [0x55, 0x62, 0x75, 0x6E, 0x74, 0x75]" by (simp add: wide_def)
  have "plain_name (wide ''Ubuntu'')" "plain_name [0x65E5, 0x672C]"
    by (simp_all add: plain_name_def blank_unit_def w)
  moreover have "to_utf8 (wide ''Ubuntu'') = ''Ubuntu''" by code_simp
  ultimately show ?thesis
    using distribution_list_roundtrip [of "[wide ''Ubuntu'', [0x65E5, 0x672C]]" "[CHR ''x'']"
        "[CHR 0xFF, CHR 0xFE]"]
    by simp
qed

end
