(* ===== verification/Win_Path.thy ===== *)
theory Win_Path
  imports Wsl_Prelude
begin

text \<open>
  The part of \<open>std::filesystem::path\<close> the program uses, with its Windows rules: a root name is a
  drive (\<open>C:\<close>), a device prefix (\<open>\\?\<close>) or a server (\<open>\\server\<close>); both slashes separate; the
  preferred separator is the backslash. This is the standard library's decomposition, so it has
  no counterpart under \<open>src/\<close>; \<open>append_path\<close> is \<open>operator/\<close>.
\<close>

definition backslash :: u16 where "backslash = 0x5C"
definition slash :: u16 where "slash = 0x2F"
definition colon :: u16 where "colon = 0x3A"
definition dot :: u16 where "dot = 0x2E"

definition is_slash :: "u16 \<Rightarrow> bool" where
  "is_slash c \<longleftrightarrow> c = backslash \<or> c = slash"

definition is_drive_letter :: "u16 \<Rightarrow> bool" where
  "is_drive_letter c \<longleftrightarrow> (0x41 \<le> unat c \<and> unat c \<le> 0x5A) \<or> (0x61 \<le> unat c \<and> unat c \<le> 0x7A)"

definition has_drive_prefix :: "path \<Rightarrow> bool" where
  "has_drive_prefix p \<longleftrightarrow> 2 \<le> length p \<and> is_drive_letter (p ! 0) \<and> p ! 1 = colon"

definition root_name_length :: "path \<Rightarrow> nat" where
  "root_name_length p =
     (if length p < 2 then 0
      else if has_drive_prefix p then 2
      else if \<not> is_slash (p ! 0) then 0
      else if 4 \<le> length p \<and> is_slash (p ! 3) \<and> (length p = 4 \<or> \<not> is_slash (p ! 4)) \<and>
        ((is_slash (p ! 1) \<and> (p ! 2 = 0x3F \<or> p ! 2 = dot)) \<or> (p ! 1 = 0x3F \<and> p ! 2 = 0x3F)) then 3
      else if 3 \<le> length p \<and> is_slash (p ! 1) \<and> \<not> is_slash (p ! 2)
        then 3 + length (takeWhile (\<lambda>c. \<not> is_slash c) (drop 3 p))
      else 0)"

definition root_name :: "path \<Rightarrow> path" where
  "root_name p = take (root_name_length p) p"

text \<open>Where the relative part starts: after the root name and the slashes that follow it.\<close>

definition relative_start :: "path \<Rightarrow> nat" where
  "relative_start p =
     root_name_length p + length (takeWhile is_slash (drop (root_name_length p) p))"

definition root_path :: "path \<Rightarrow> path" where
  "root_path p = take (relative_start p) p"

definition relative_part :: "path \<Rightarrow> path" where
  "relative_part p = drop (relative_start p) p"

definition filename :: "path \<Rightarrow> path" where
  "filename p = rev (takeWhile (\<lambda>c. \<not> is_slash c) (rev (relative_part p)))"

definition parent_path :: "path \<Rightarrow> path" where
  "parent_path p =
     root_path p @
     rev (dropWhile is_slash (dropWhile (\<lambda>c. \<not> is_slash c) (rev (relative_part p))))"

definition is_absolute :: "path \<Rightarrow> bool" where
  "is_absolute p \<longleftrightarrow>
     (if has_drive_prefix p then 3 \<le> length p \<and> is_slash (p ! 2) else root_name_length p \<noteq> 0)"

text \<open>\<open>lhs / rhs\<close>.\<close>

definition append_path :: "path \<Rightarrow> path \<Rightarrow> path" where
  "append_path p q =
     (if is_absolute q then q
      else if root_name q \<noteq> [] \<and> root_name p \<noteq> root_name q then q
      else
        (let q_tail = drop (root_name_length q) q;
             base =
               (if q_tail \<noteq> [] \<and> is_slash (hd q_tail) then root_name p
                else if root_name_length p = length p
                  then (if 3 \<le> length p then p @ [backslash] else p)
                else if is_slash (last p) then p
                else p @ [backslash])
         in base @ q_tail))"

text \<open>The extension of the last component, its dot included; a leading dot starts no extension.\<close>

definition extension :: "path \<Rightarrow> path" where
  "extension p =
     (let name = takeWhile (\<lambda>c. c \<noteq> colon) (filename p);
          after = takeWhile (\<lambda>c. c \<noteq> dot) (rev name)
      in if name = [] \<or> name = [dot] \<or> name = [dot, dot] \<or> length after + 1 \<ge> length name then []
         else dot # rev after)"

text \<open>The components a path iterates over: the root name, the root directory, then the names; a trailing
  separator is a last, empty name.\<close>

definition relative_elements :: "path \<Rightarrow> path list" where
  "relative_elements r =
     filter (\<lambda>t. t \<noteq> []) (split_on backslash (map (\<lambda>c. if c = slash then backslash else c) r)) @
     (if r \<noteq> [] \<and> is_slash (last r) then [[]] else [])"

definition path_elements :: "path \<Rightarrow> path list" where
  "path_elements p =
     (if root_name p = [] then [] else [root_name p]) @
     (if relative_start p = root_name_length p then []
      else [take (relative_start p - root_name_length p) (drop (root_name_length p) p)]) @
     relative_elements (relative_part p)"

lemma filename_no_slash: "\<forall>c \<in> set (filename p). \<not> is_slash c"
  unfolding filename_def by (auto dest: set_takeWhileD)

end
