(* ===== verification/Interfaces.thy ===== *)
theory Interfaces
  imports Errors Win_Path
begin

text \<open>
  The interfaces the operations are written against (\<open>src/src/lib/interfaces.h\<close>): each abstract class
  is a record of its methods over a type \<open>'w\<close> of worlds. A method that is \<open>const\<close> in C++ still
  takes and returns the world, because other processes change it; what an implementation promises
  about that is stated in the contracts of theory \<open>Contracts\<close>, never here.

  A callback that reports progress is a pure verdict here; the method returns the calls it made of
  it, in order, so that a caller can replay them into its own sink.
\<close>

section \<open>Data\<close>

record volume_info =
  filesystem_name :: string
  total_bytes :: u64
  free_bytes :: u64

definition supports_vhdx :: "volume_info \<Rightarrow> bool" where
  "supports_vhdx v \<longleftrightarrow> filesystem_name v = ''NTFS'' \<or> filesystem_name v = ''ReFS''"

record virtual_disk_info =
  vd_virtual_size :: u64
  vd_physical_size :: u64
  vd_block_size :: u32
  vd_sector_size :: u32
  vd_parent_path :: wstr

record disk_progress =
  progress_current :: u64
  progress_total :: u64

type_synonym progress_callback = "disk_progress \<Rightarrow> bool"

record wsl_command_result =
  exit_code :: int
  standard_output :: string
  standard_error :: string

definition succeeded :: "wsl_command_result \<Rightarrow> bool" where
  "succeeded r \<longleftrightarrow> exit_code r = 0"

record directory_entry =
  entry_path :: path
  entry_size :: u64
  entry_is_directory :: bool

record allocated_range =
  range_offset :: u64
  range_length :: u64

section \<open>Interfaces\<close>

record 'w IVirtualDiskHandle =
  information :: "'w \<Rightarrow> (error + virtual_disk_info) \<times> 'w"
  compact_disk :: "progress_callback \<Rightarrow> 'w \<Rightarrow> (status \<times> disk_progress list) \<times> 'w"
  close_disk :: "'w \<Rightarrow> 'w"

record 'w IVirtualDisk =
  open_disk :: "path \<Rightarrow> 'w \<Rightarrow> (error + 'w IVirtualDiskHandle) \<times> 'w"
  create_disk :: "path \<Rightarrow> u64 \<Rightarrow> 'w \<Rightarrow> status \<times> 'w"

record 'w IWslHost =
  running :: "'w \<Rightarrow> (error + string list) \<times> 'w"
  terminate :: "string \<Rightarrow> 'w \<Rightarrow> status \<times> 'w"
  shutdown_wsl :: "'w \<Rightarrow> status \<times> 'w"
  run_as_root :: "string \<Rightarrow> string list \<Rightarrow> int \<Rightarrow> 'w \<Rightarrow> (error + wsl_command_result) \<times> 'w"
  mount_bare :: "path \<Rightarrow> 'w \<Rightarrow> status \<times> 'w"
  unmount :: "path \<Rightarrow> 'w \<Rightarrow> status \<times> 'w"

record 'w IRegistry =
  subkeys :: "wstr \<Rightarrow> 'w \<Rightarrow> (error + wstr list) \<times> 'w"
  read_string :: "wstr \<Rightarrow> wstr \<Rightarrow> 'w \<Rightarrow> (error + wstr option) \<times> 'w"
  read_dword :: "wstr \<Rightarrow> wstr \<Rightarrow> 'w \<Rightarrow> (error + u32 option) \<times> 'w"
  write_string :: "wstr \<Rightarrow> wstr \<Rightarrow> wstr \<Rightarrow> 'w \<Rightarrow> status \<times> 'w"

record 'w IClock =
  now :: "'w \<Rightarrow> int \<times> 'w"
  sleep_for :: "int \<Rightarrow> 'w \<Rightarrow> 'w"

record 'w IFileSystem =
  exists_path :: "path \<Rightarrow> 'w \<Rightarrow> bool \<times> 'w"
  file_size :: "path \<Rightarrow> 'w \<Rightarrow> (error + u64) \<times> 'w"
  file_size_on_disk :: "path \<Rightarrow> 'w \<Rightarrow> (error + u64) \<times> 'w"
  is_sparse :: "path \<Rightarrow> 'w \<Rightarrow> (error + bool) \<times> 'w"
  get_volume_info :: "path \<Rightarrow> 'w \<Rightarrow> (error + volume_info) \<times> 'w"
  list_directory :: "path \<Rightarrow> wstr \<Rightarrow> 'w \<Rightarrow> (error + directory_entry list) \<times> 'w"
  allocated_ranges :: "path \<Rightarrow> 'w \<Rightarrow> (error + allocated_range list) \<times> 'w"
  is_locked :: "path \<Rightarrow> 'w \<Rightarrow> (error + bool) \<times> 'w"
  remove_file :: "path \<Rightarrow> 'w \<Rightarrow> status \<times> 'w"
  copy_file_sparse :: "path \<Rightarrow> path \<Rightarrow> (u64 \<Rightarrow> u64 \<Rightarrow> bool) \<Rightarrow> 'w \<Rightarrow> (status \<times> (u64 \<times> u64) list) \<times> 'w"
  rename_file :: "path \<Rightarrow> path \<Rightarrow> 'w \<Rightarrow> status \<times> 'w"
  same_volume :: "path \<Rightarrow> path \<Rightarrow> 'w \<Rightarrow> (error + bool) \<times> 'w"
  expand_environment :: "path \<Rightarrow> 'w \<Rightarrow> (error + path) \<times> 'w"
  read_text_file :: "path \<Rightarrow> 'w \<Rightarrow> (error + string) \<times> 'w"
  write_text_file :: "path \<Rightarrow> string \<Rightarrow> 'w \<Rightarrow> status \<times> 'w"
  create_directories :: "path \<Rightarrow> 'w \<Rightarrow> status \<times> 'w"

end
