(* ===== verification/Operation.thy ===== *)
theory Operation
  imports Interfaces
begin

text \<open>
  The operation lifecycle (\<open>src/src/lib/ops/operation.h\<close>, \<open>operation.cpp\<close>, \<open>runner.h\<close>,
  \<open>runner.cpp\<close>): plans, the progress sink, the undo stack, the four methods of an operation and the
  runner that drives them. An operation object and the world it acts on are one state.
\<close>

section \<open>Plans and reports\<close>

record step_plan =
  step_description :: string
  step_mutates :: bool
  step_undo_description :: "string option"

definition is_irreversible :: "step_plan \<Rightarrow> bool" where
  "is_irreversible step \<longleftrightarrow> step_mutates step \<and> step_undo_description step = None"

record estimate =
  bytes_freed :: "u64 option"
  duration :: "int option"

record op_warning =
  warning_message :: string
  warning_remedy :: string

record plan =
  plan_steps :: "step_plan list"
  plan_estimate :: estimate
  plan_warnings :: "op_warning list"

definition plan_mutates :: "plan \<Rightarrow> bool" where
  "plan_mutates p \<longleftrightarrow> list_ex step_mutates (plan_steps p)"

record report =
  completed :: "string list"
  actual :: estimate

definition no_estimate :: estimate where
  "no_estimate = \<lparr>bytes_freed = None, duration = None\<rparr>"

definition empty_report :: report where
  "empty_report = \<lparr>completed = [], actual = no_estimate\<rparr>"

definition add_completed :: "string \<Rightarrow> report \<Rightarrow> report" where
  "add_completed d r = r\<lparr>completed := completed r @ [d]\<rparr>"

definition mutating_step :: "string \<Rightarrow> step_plan" where
  "mutating_step d = \<lparr>step_description = d, step_mutates = True, step_undo_description = None\<rparr>"

definition reading_step :: "string \<Rightarrow> step_plan" where
  "reading_step d = \<lparr>step_description = d, step_mutates = False, step_undo_description = None\<rparr>"

definition undoable_step :: "string \<Rightarrow> string \<Rightarrow> step_plan" where
  "undoable_step d u = \<lparr>step_description = d, step_mutates = True, step_undo_description = Some u\<rparr>"

section \<open>The progress sink\<close>

text \<open>\<open>ProgressSink\<close>: one event per call, kept in the order of the calls.\<close>

datatype sink_event =
    Step_started nat step_plan
  | Step_finished nat step_plan
  | Step_progress disk_progress
  | Sink_message string
  | Sink_status string

text \<open>The state an operation runs in: the world its interfaces act on and what the sink was told.\<close>

record 'w run_state =
  world :: 'w
  sink :: "sink_event list"

definition on_world ::
  "('w \<Rightarrow> 'a \<times> 'w) \<Rightarrow> ('w, 'm) run_state_scheme \<Rightarrow> 'a \<times> ('w, 'm) run_state_scheme" where
  "on_world f s = (case f (world s) of (x, w) \<Rightarrow> (x, s\<lparr>world := w\<rparr>))"

definition notify ::
  "sink_event \<Rightarrow> ('w, 'm) run_state_scheme \<Rightarrow> unit \<times> ('w, 'm) run_state_scheme" where
  "notify e s = ((), s\<lparr>sink := sink s @ [e]\<rparr>)"

section \<open>The undo stack\<close>

text \<open>An undo entry returns a status or throws.\<close>

datatype undo_outcome =
    Returned status
  | Threw string
  | Threw_unknown

record 'w undo_entry =
  entry_description :: string
  entry_undo :: "'w \<Rightarrow> undo_outcome \<times> 'w"

record 'w undo_state = "'w run_state" +
  undo_entries :: "'w undo_entry list"

definition returning :: "('w \<Rightarrow> status \<times> 'w) \<Rightarrow> 'w \<Rightarrow> undo_outcome \<times> 'w" where
  "returning f w = (case f w of (r, w') \<Rightarrow> (Returned r, w'))"

definition undo_push ::
  "string \<Rightarrow> ('w \<Rightarrow> undo_outcome \<times> 'w) \<Rightarrow> ('w, 'm) undo_state_scheme \<Rightarrow>
     unit \<times> ('w, 'm) undo_state_scheme" where
  "undo_push d f s =
     ((), s\<lparr>undo_entries := undo_entries s @ [\<lparr>entry_description = d, entry_undo = f\<rparr>]\<rparr>)"

definition undo_report :: "string \<Rightarrow> undo_outcome \<Rightarrow> sink_event list" where
  "undo_report d outcome =
     (case outcome of
        Returned (Inr _) \<Rightarrow> []
      | Returned (Inl e) \<Rightarrow> [Sink_message (''could not undo '' @ d @ '': '' @ error_to_string e)]
      | Threw what \<Rightarrow> [Sink_message (''could not undo '' @ d @ '': '' @ what)]
      | Threw_unknown \<Rightarrow> [Sink_message (''could not undo '' @ d @ '': unknown failure'')])"

text \<open>The loop of \<open>UndoStack::unwind\<close>: pop the last entry, run it, report, go on whatever it did.\<close>

function unwind :: "('w, 'm) undo_state_scheme \<Rightarrow> ('w, 'm) undo_state_scheme" where
  "unwind s =
     (if undo_entries s = [] then s
      else
        (let entry = last (undo_entries s);
             s1 = s\<lparr>undo_entries := butlast (undo_entries s)\<rparr>;
             s2 = s1\<lparr>sink := sink s1 @ [Sink_message (''undoing: '' @ entry_description entry)]\<rparr>
         in (case entry_undo entry (world s2) of
               (outcome, w) \<Rightarrow>
                 unwind (s2\<lparr>world := w,
                            sink := sink s2 @ undo_report (entry_description entry) outcome\<rparr>))))"
  by pat_completeness auto
termination
  by (relation "measure (\<lambda>s. length (undo_entries s))") auto

declare unwind.simps [simp del]

section \<open>The four methods of an operation\<close>

text \<open>\<open>execute\<close> may wait for something that never happens, so it returns an option: \<open>None\<close> is a run
  that does not come back.\<close>

record 's IOperation =
  op_plan :: "'s \<Rightarrow> (error + plan) \<times> 's"
  op_execute :: "'s \<Rightarrow> ((error + report) \<times> 's) option"
  op_verify :: "'s \<Rightarrow> status \<times> 's"
  op_rollback :: "'s \<Rightarrow> 's"

section \<open>The runner\<close>

record run_options =
  dry_run :: bool

record run_outcome =
  outcome_plan :: plan
  outcome_report :: "report option"

fun steps_ordered :: "bool \<Rightarrow> step_plan list \<Rightarrow> bool" where
  "steps_ordered past_no_return [] = True"
| "steps_ordered past_no_return (step # steps) =
     (if is_irreversible step then steps_ordered True steps
      else if past_no_return \<and> step_mutates step then False
      else steps_ordered past_no_return steps)"

definition irreversible_steps_are_last :: "plan \<Rightarrow> bool" where
  "irreversible_steps_are_last p = steps_ordered False (plan_steps p)"

definition run_operation ::
  "'s IOperation \<Rightarrow> run_options \<Rightarrow> 's \<Rightarrow> ((error + run_outcome) \<times> 's) option" where
  "run_operation op options s =
     (case op_plan op s of
        (Inl e, s1) \<Rightarrow> Some (Inl e, s1)
      | (Inr planned, s1) \<Rightarrow>
          if \<not> irreversible_steps_are_last planned then
            Some (fail Generic ''the operation plans an undoable change after a point of no return''
              ''this is a bug in wsldisk; please report it with the command you ran'', s1)
          else if dry_run options then
            Some (Inr \<lparr>outcome_plan = planned, outcome_report = None\<rparr>, s1)
          else
            (case op_execute op s1 of
               None \<Rightarrow> None
             | Some (Inl e, s2) \<Rightarrow> Some (Inl e, op_rollback op s2)
             | Some (Inr r, s2) \<Rightarrow>
                 (case op_verify op s2 of
                    (Inl e, s3) \<Rightarrow> Some (Inl e, s3)
                  | (Inr _, s3) \<Rightarrow>
                      Some (Inr \<lparr>outcome_plan = planned, outcome_report = Some r\<rparr>, s3))))"

section \<open>What the lifecycle promises\<close>

text \<open>Running a list of undo entries in the order given: the specification of a rollback. Every entry
  runs, whatever the ones before it did.\<close>

fun run_entries :: "'w undo_entry list \<Rightarrow> 'w \<Rightarrow> sink_event list \<times> 'w" where
  "run_entries [] w = ([], w)"
| "run_entries (e # es) w =
     (case entry_undo e w of (outcome, w1) \<Rightarrow>
        (case run_entries es w1 of (events, w2) \<Rightarrow>
           (Sink_message (''undoing: '' @ entry_description e) #
              undo_report (entry_description e) outcome @ events, w2)))"

lemma run_entries_append:
  "run_entries (xs @ ys) w =
     (let (events, w1) = run_entries xs w; (more, w2) = run_entries ys w1 in (events @ more, w2))"
  by (induction xs arbitrary: w) (auto simp: Let_def split: prod.splits)

lemma unwind_empty [simp]: "undo_entries s = [] \<Longrightarrow> unwind s = s"
  by (subst unwind.simps) simp

lemma unwind_as_entries:
  "unwind s =
     s\<lparr>world := snd (run_entries (rev (undo_entries s)) (world s)),
       sink := sink s @ fst (run_entries (rev (undo_entries s)) (world s)),
       undo_entries := []\<rparr>"
proof (induction s rule: unwind.induct)
  case (1 s)
  show ?case
  proof (cases "undo_entries s = []")
    case True
    then show ?thesis by simp
  next
    case False
    then obtain es e where es: "undo_entries s = es @ [e]" by (metis rev_exhaust)
    obtain outcome w1 where u: "entry_undo e (world s) = (outcome, w1)" by (meson surj_pair)
    obtain events w2 where r: "run_entries (rev es) w1 = (events, w2)" by (meson surj_pair)
    show ?thesis
      using 1[OF False refl refl refl] es u r
      by (subst unwind.simps) (simp add: Let_def)
  qed
qed

lemma unwind_world: "world (unwind s) = snd (run_entries (rev (undo_entries s)) (world s))"
  by (subst unwind_as_entries) simp

lemma unwind_sink:
  "sink (unwind s) = sink s @ fst (run_entries (rev (undo_entries s)) (world s))"
  by (subst unwind_as_entries) simp

lemma unwind_entries [simp]: "undo_entries (unwind s) = []"
  by (subst unwind_as_entries) simp

text \<open>C14: rolling back runs every undo entry exactly once, the last one pushed first, whatever the
  earlier ones did, and empties the stack; the sink is told about every entry run, and about each
  one that failed or threw.\<close>

theorem unwind_runs_every_entry:
  "unwind s =
     s\<lparr>world := snd (run_entries (rev (undo_entries s)) (world s)),
       sink := sink s @ fst (run_entries (rev (undo_entries s)) (world s)),
       undo_entries := []\<rparr>"
  by (fact unwind_as_entries)

text \<open>What a rollback is for: \<open>undone view es v v0\<close> says that from any world whose view is \<open>v\<close>,
  running the stack \<open>es\<close> leads back to the view \<open>v0\<close>, or the sink has been told that an entry
  failed.\<close>

definition reports_failure :: "sink_event list \<Rightarrow> bool" where
  "reports_failure events \<longleftrightarrow> (\<exists>t. Sink_message (''could not undo '' @ t) \<in> set events)"

definition undone :: "('w \<Rightarrow> 'v) \<Rightarrow> 'w undo_entry list \<Rightarrow> 'v \<Rightarrow> 'v \<Rightarrow> bool" where
  "undone view es v v0 \<longleftrightarrow>
     (\<forall>w. view w = v \<longrightarrow>
        view (snd (run_entries (rev es) w)) = v0 \<or> reports_failure (fst (run_entries (rev es) w)))"

lemma reports_failure_append [simp]:
  "reports_failure (xs @ ys) \<longleftrightarrow> reports_failure xs \<or> reports_failure ys"
  by (auto simp: reports_failure_def)

lemma reports_failure_Nil [simp]: "\<not> reports_failure []"
  by (simp add: reports_failure_def)

lemma reports_failure_Cons [intro]: "reports_failure ys \<Longrightarrow> reports_failure (x # ys)"
  by (auto simp: reports_failure_def)

lemma undo_report_fails:
  "outcome \<noteq> Returned (Inr ()) \<Longrightarrow> reports_failure (undo_report d outcome)"
  by (simp add: undo_report_def reports_failure_def split: undo_outcome.splits sum.splits)
    (metis old.unit.exhaust sumE)

lemma undone_Nil: "undone view [] v v"
  by (simp add: undone_def)

lemma undone_push:
  assumes "undone view es v v0"
    and "\<And>w w'. view w = v1 \<Longrightarrow> entry_undo e w = (Returned (Inr ()), w') \<Longrightarrow> view w' = v"
  shows "undone view (es @ [e]) v1 v0"
  unfolding undone_def
proof (intro allI impI)
  fix w assume w: "view w = v1"
  obtain outcome w1 where o1: "entry_undo e w = (outcome, w1)" by (meson surj_pair)
  show "view (snd (run_entries (rev (es @ [e])) w)) = v0 \<or>
        reports_failure (fst (run_entries (rev (es @ [e])) w))"
  proof (cases "outcome = Returned (Inr ())")
    case True
    with assms(2)[OF w] o1 have "view w1 = v" by simp
    moreover obtain events w2 where "run_entries (rev es) w1 = (events, w2)" by (meson surj_pair)
    ultimately show ?thesis
      using assms(1)[unfolded undone_def, rule_format, of w1] o1 by auto
  next
    case False
    then have "reports_failure (undo_report (entry_description e) outcome)"
      by (rule undo_report_fails)
    then show ?thesis by (auto simp: o1 split: prod.splits)
  qed
qed

text \<open>The two together, on the states of a run: every event after \<open>s\<close> is kept, and the view is that
  of \<open>s\<close> unless a failed undo has been reported.\<close>

definition put_back ::
  "('w \<Rightarrow> 'v) \<Rightarrow> ('w, 'm) run_state_scheme \<Rightarrow> ('w, 'm) run_state_scheme \<Rightarrow> bool" where
  "put_back view s s' \<longleftrightarrow>
     (\<exists>events. sink s' = sink s @ events \<and>
        (view (world s') = view (world s) \<or> reports_failure events))"

lemma put_back_refl [simp]: "put_back view s s"
  by (simp add: put_back_def)

lemma put_back_trans: "put_back view a b \<Longrightarrow> put_back view b c \<Longrightarrow> put_back view a c"
  unfolding put_back_def by (metis append.assoc reports_failure_append)

lemma put_back_keeps:
  "view (world s') = view (world s) \<Longrightarrow> sink s' = sink s \<Longrightarrow> put_back view s s'"
  by (simp add: put_back_def)

lemma put_back_unwind:
  assumes "undone view (undo_entries s) (view (world s)) v0" and "view (world s0) = v0"
    and "sink s = sink s0 @ events"
  shows "put_back view s0 (unwind s)"
  using assms unfolding put_back_def unwind_world unwind_sink undone_def by auto

text \<open>Where a run stands: the view is \<open>v\<close>, the stack leads back to \<open>v0\<close>, and the sink has kept what it
  had been told at \<open>s0\<close>. Each step of an execution moves from one such point to the next.\<close>

definition stands ::
  "('w \<Rightarrow> 'v) \<Rightarrow> 'v \<Rightarrow> sink_event list \<Rightarrow> 'v \<Rightarrow> ('w, 'm) undo_state_scheme \<Rightarrow> bool" where
  "stands view v0 told v s \<longleftrightarrow>
     view (world s) = v \<and> undone view (undo_entries s) v v0 \<and> (\<exists>events. sink s = told @ events)"

lemma stands_start:
  "undo_entries s = [] \<Longrightarrow> stands view (view (world s)) (sink s) (view (world s)) s"
  by (simp add: stands_def undone_Nil)

lemma stands_unwind:
  assumes "stands view (view (world s0)) (sink s0) v s"
  shows "put_back view s0 (unwind s)"
  using assms put_back_unwind unfolding stands_def by metis

lemma stands_notify: "stands view v0 told v s \<Longrightarrow> notify e s = (x, s') \<Longrightarrow> stands view v0 told v s'"
  by (auto simp: stands_def notify_def)

lemma stands_on_world:
  assumes "stands view v0 told v s" and "on_world f s = (x, s')"
    and "\<And>w w'. f w = (x, w') \<Longrightarrow> view w' = view w"
  shows "stands view v0 told v s'"
  using assms by (auto simp: stands_def on_world_def split: prod.splits)

lemma triple_notify:
  assumes "\<And>x. triple (stands view v0 told v) (f x) Q E"
  shows "triple (stands view v0 told v) (call (notify e) f) Q E"
  by (rule triple_call[OF stands_notify assms])

text \<open>A change of the world followed by the entry that undoes it.\<close>

lemma triple_change:
  assumes change: "\<And>w r w'. view w = v \<Longrightarrow> m w = (r, w') \<Longrightarrow>
      view w' = (case r of Inl _ \<Rightarrow> v | Inr _ \<Rightarrow> v1)"
    and undo: "\<And>w w'. view w = v1 \<Longrightarrow> returning u w = (Returned (Inr ()), w') \<Longrightarrow> view w' = v"
  shows "triple (stands view v0 told v)
           (attempt (on_world m) (\<lambda>_. call (undo_push d (returning u)) (\<lambda>_. ret (Inr ()))))
           (\<lambda>_. stands view v0 told v1) (stands view v0 told v)"
proof (rule tripleI)
  fix s x s'
  assume s: "stands view v0 told v s"
    and "attempt (on_world m) (\<lambda>_. call (undo_push d (returning u)) (\<lambda>_. ret (Inr ()))) s = (Inr x, s')"
  then obtain y w where m: "m (world s) = (Inr y, w)"
    and s': "s' = s\<lparr>world := w, undo_entries := undo_entries s @ [\<lparr>entry_description = d, entry_undo = returning u\<rparr>]\<rparr>"
    by (auto simp: attempt_def on_world_def call_def undo_push_def split: prod.splits sum.splits)
  have "view w = v1" using change[OF _ m] s by (simp add: stands_def)
  moreover have "undone view (undo_entries s @ [\<lparr>entry_description = d, entry_undo = returning u\<rparr>]) v1 v0"
    using s undo by (intro undone_push) (simp_all add: stands_def)
  ultimately show "stands view v0 told v1 s'" using s unfolding s' stands_def by simp
next
  fix s e s'
  assume s: "stands view v0 told v s"
    and "attempt (on_world m) (\<lambda>_. call (undo_push d (returning u)) (\<lambda>_. ret (Inr ()))) s = (Inl e, s')"
  then obtain w where m: "m (world s) = (Inl e, w)" and s': "s' = s\<lparr>world := w\<rparr>"
    by (auto simp: attempt_def on_world_def call_def undo_push_def split: prod.splits sum.splits)
  from s change[OF _ m] show "stands view v0 told v s'" unfolding s' by (simp add: stands_def)
qed

lemma triple_reads:
  assumes "\<And>w x w'. m w = (x, w') \<Longrightarrow> view w' = view w"
  shows "triple (stands view v0 told v) (on_world m) (\<lambda>_. stands view v0 told v) (stands view v0 told v)"
  by (rule tripleI) (auto intro: stands_on_world dest: assms)

lemma triple_read_then:
  assumes "\<And>w x w'. m w = (x, w') \<Longrightarrow> view w' = view w"
    and "\<And>x. triple (stands view v0 told v) (f x) Q E"
    and "\<And>s. stands view v0 told v s \<Longrightarrow> E s"
  shows "triple (stands view v0 told v) (attempt (on_world m) f) Q E"
proof (rule triple_attempt)
  show "triple (stands view v0 told v) (on_world m) (\<lambda>_. stands view v0 told v) E"
    by (rule triple_weaken[OF triple_reads]) (use assms in auto)
qed (fact assms(2))

text \<open>The push alone, once the world has changed.\<close>

lemma triple_push:
  assumes "\<And>w w'. view w = v1 \<Longrightarrow> returning u w = (Returned (Inr ()), w') \<Longrightarrow> view w' = v"
  shows "triple (\<lambda>s. view (world s) = v1 \<and> undone view (undo_entries s) v v0 \<and> (\<exists>events. sink s = told @ events))
           (call (undo_push d (returning u)) (\<lambda>_. ret (Inr ())))
           (\<lambda>_. stands view v0 told v1) E"
proof (rule tripleI)
  fix s x s'
  assume s: "view (world s) = v1 \<and> undone view (undo_entries s) v v0 \<and> (\<exists>events. sink s = told @ events)"
    and "call (undo_push d (returning u)) (\<lambda>_. ret (Inr ())) s = (Inr x, s')"
  then have s': "s' = s\<lparr>undo_entries := undo_entries s @ [\<lparr>entry_description = d, entry_undo = returning u\<rparr>]\<rparr>"
    by (simp add: call_def undo_push_def)
  have "undone view (undo_entries s @ [\<lparr>entry_description = d, entry_undo = returning u\<rparr>]) v1 v0"
    using s assms by (intro undone_push) simp_all
  then show "stands view v0 told v1 s'" using s unfolding s' stands_def by simp
qed (simp add: call_def undo_push_def)

section \<open>What no failure may break\<close>

text \<open>A property of the world that every step keeps and every undo entry would keep, whether it
  succeeds or not.\<close>

definition action_keeps :: "('w \<Rightarrow> bool) \<Rightarrow> ('w \<Rightarrow> 'a \<times> 'w) \<Rightarrow> bool" where
  "action_keeps K u \<longleftrightarrow> (\<forall>w. K w \<longrightarrow> K (snd (u w)))"

definition guarded :: "('w \<Rightarrow> bool) \<Rightarrow> ('w, 'm) undo_state_scheme \<Rightarrow> bool" where
  "guarded K s \<longleftrightarrow> K (world s) \<and> (\<forall>e \<in> set (undo_entries s). action_keeps K (entry_undo e))"

lemma action_keepsI: "(\<And>w r w'. K w \<Longrightarrow> u w = (r, w') \<Longrightarrow> K w') \<Longrightarrow> action_keeps K u"
  by (simp add: action_keeps_def) (metis prod.collapse)

lemma action_keeps_returning: "action_keeps K u \<Longrightarrow> action_keeps K (returning u)"
  unfolding action_keeps_def returning_def by (auto split: prod.splits)

lemma run_entries_guarded:
  assumes "K w" and "\<forall>e \<in> set es. action_keeps K (entry_undo e)"
  shows "K (snd (run_entries es w))"
  using assms
proof (induction es arbitrary: w)
  case (Cons e es)
  obtain outcome w1 where e: "entry_undo e w = (outcome, w1)" by (meson surj_pair)
  have "K (snd (entry_undo e w))" using Cons.prems by (simp add: action_keeps_def)
  with Cons.IH Cons.prems(2) e have "K (snd (run_entries es w1))" by simp
  then show ?case by (auto simp: e split: prod.splits)
qed simp

lemma guarded_unwind: "guarded K s \<Longrightarrow> K (world (unwind s))"
  by (simp add: guarded_def unwind_world run_entries_guarded)

lemma guarded_start: "undo_entries s = [] \<Longrightarrow> guarded K s \<longleftrightarrow> K (world s)"
  by (simp add: guarded_def)

lemma triple_guarded_notify:
  assumes "\<And>x. triple (guarded K) (f x) Q E"
  shows "triple (guarded K) (call (notify e) f) Q E"
  by (rule triple_call[OF _ assms]) (auto simp: guarded_def notify_def)

lemma triple_guarded_world:
  assumes "action_keeps K m"
  shows "triple (guarded K) (on_world m) (\<lambda>_. guarded K) (guarded K)"
proof -
  have "guarded K s'" if "guarded K s" "on_world m s = (r, s')" for s r s'
    using that assms by (auto simp: guarded_def on_world_def action_keeps_def split: prod.splits)
  then show ?thesis by (blast intro: tripleI)
qed

lemma triple_guarded_push:
  assumes "action_keeps K u"
  shows "triple (guarded K) (call (undo_push d (returning u)) (\<lambda>_. ret (Inr ()))) (\<lambda>_. guarded K) (guarded K)"
  using action_keeps_returning[OF assms]
  by (intro tripleI) (auto simp: guarded_def call_def undo_push_def)

lemma triple_guarded_change:
  assumes "action_keeps K m" and "action_keeps K u"
  shows "triple (guarded K)
           (attempt (on_world m) (\<lambda>_. call (undo_push d (returning u)) (\<lambda>_. ret (Inr ()))))
           (\<lambda>_. guarded K) (guarded K)"
  by (rule triple_attempt[OF triple_guarded_world triple_guarded_push]) (fact assms)+

lemma steps_ordered_True:
  "steps_ordered True steps \<longleftrightarrow> (\<forall>s \<in> set steps. step_mutates s \<longrightarrow> is_irreversible s)"
  by (induction steps) (auto simp: is_irreversible_def)

lemma steps_ordered_sorted:
  "steps_ordered False steps \<longleftrightarrow>
     sorted_wrt (\<lambda>a b. is_irreversible a \<longrightarrow> step_mutates b \<longrightarrow> is_irreversible b) steps"
proof (induction steps)
  case (Cons a steps)
  have "sorted_wrt (\<lambda>a b. is_irreversible a \<longrightarrow> step_mutates b \<longrightarrow> is_irreversible b) steps"
    if "\<forall>s \<in> set steps. step_mutates s \<longrightarrow> is_irreversible s"
    using that by (induction steps) auto
  with Cons show ?case by (auto simp: steps_ordered_True is_irreversible_def)
qed simp

text \<open>C22: the runner's one-pass check accepts a plan exactly when no undoable change comes after a
  point of no return: every mutating step after an irreversible one is irreversible itself.\<close>

theorem irreversible_steps_are_last_iff:
  "irreversible_steps_are_last p \<longleftrightarrow>
     (\<forall>i j. i < j \<and> j < length (plan_steps p) \<and> is_irreversible (plan_steps p ! i) \<and>
        step_mutates (plan_steps p ! j) \<longrightarrow> is_irreversible (plan_steps p ! j))"
  unfolding irreversible_steps_are_last_def steps_ordered_sorted
  by (auto simp: sorted_wrt_iff_nth_less)

text \<open>The shape of a run: planning, then nothing more on a dry run or a refused plan; otherwise
  execution, with a rollback exactly when execution failed.\<close>

lemma run_operation_dry:
  assumes "dry_run options" and "op_plan op s = op_plan op' s"
  shows "run_operation op options s = run_operation op' options s"
  using assms by (simp add: run_operation_def split: prod.splits sum.splits)

text \<open>A dry run only plans: its result and its final state are the same whatever the other three
  methods of the operation do, so they cannot have been called.\<close>

theorem dry_run_only_plans:
  "run_operation op \<lparr>dry_run = True\<rparr> s =
   run_operation (op\<lparr>op_execute := e, op_verify := v, op_rollback := r\<rparr>) \<lparr>dry_run = True\<rparr> s"
  by (rule run_operation_dry) simp_all

lemma run_operation_returns:
  assumes "\<And>s. op_execute op s \<noteq> None"
  shows "run_operation op options s \<noteq> None"
  using assms by (simp add: run_operation_def split: prod.splits sum.splits option.splits)
    (metis option.distinct(1) surj_pair)

inductive operation_trace ::
  "'s IOperation \<Rightarrow> run_options \<Rightarrow> 's \<Rightarrow> (error + run_outcome) \<times> 's \<Rightarrow> bool"
  for op options s
where
  plan_refused: "op_plan op s = (Inl e, s1) \<Longrightarrow> operation_trace op options s (Inl e, s1)"
| plan_misordered:
    "op_plan op s = (Inr p, s1) \<Longrightarrow> \<not> irreversible_steps_are_last p \<Longrightarrow> err_code e = Generic \<Longrightarrow>
     operation_trace op options s (Inl e, s1)"
| planned_only:
    "op_plan op s = (Inr p, s1) \<Longrightarrow> irreversible_steps_are_last p \<Longrightarrow> dry_run options \<Longrightarrow>
     operation_trace op options s (Inr \<lparr>outcome_plan = p, outcome_report = None\<rparr>, s1)"
| rolled_back:
    "op_plan op s = (Inr p, s1) \<Longrightarrow> irreversible_steps_are_last p \<Longrightarrow> \<not> dry_run options \<Longrightarrow>
     op_execute op s1 = Some (Inl e, s2) \<Longrightarrow>
     operation_trace op options s (Inl e, op_rollback op s2)"
| not_verified:
    "op_plan op s = (Inr p, s1) \<Longrightarrow> irreversible_steps_are_last p \<Longrightarrow> \<not> dry_run options \<Longrightarrow>
     op_execute op s1 = Some (Inr r, s2) \<Longrightarrow> op_verify op s2 = (Inl e, s3) \<Longrightarrow>
     operation_trace op options s (Inl e, s3)"
| verified:
    "op_plan op s = (Inr p, s1) \<Longrightarrow> irreversible_steps_are_last p \<Longrightarrow> \<not> dry_run options \<Longrightarrow>
     op_execute op s1 = Some (Inr r, s2) \<Longrightarrow> op_verify op s2 = (Inr (), s3) \<Longrightarrow>
     operation_trace op options s (Inr \<lparr>outcome_plan = p, outcome_report = Some r\<rparr>, s3)"

lemma run_operation_trace:
  "run_operation op options s = Some r \<Longrightarrow> operation_trace op options s r"
  by (auto simp: run_operation_def fail_def split: prod.splits sum.splits option.splits if_splits
      intro: operation_trace.intros)

inductive_cases operation_traceE: "operation_trace op options s r"

section \<open>The contract of an operation\<close>

text \<open>What an operation promises its runner: planning changes nothing and gives an ordered plan; an
  execution that fails is put back by the rollback; one that succeeds has achieved what it set out
  to do, whatever \<open>verify\<close> then reports.\<close>

locale operation_contract =
  fixes op :: "'s IOperation"
    and ready :: "'s \<Rightarrow> bool"
    and planned :: "'s \<Rightarrow> plan \<Rightarrow> 's \<Rightarrow> bool"
    and restored :: "'s \<Rightarrow> 's \<Rightarrow> bool"
    and achieved :: "'s \<Rightarrow> 's \<Rightarrow> bool"
  assumes restored_trans: "restored a b \<Longrightarrow> restored b c \<Longrightarrow> restored a c"
    and plan_reads: "ready s \<Longrightarrow> op_plan op s = (planning, s1) \<Longrightarrow> restored s s1"
    and plan_ordered: "ready s \<Longrightarrow> op_plan op s = (Inr p, s1) \<Longrightarrow> irreversible_steps_are_last p"
    and plan_ready: "ready s \<Longrightarrow> op_plan op s = (Inr p, s1) \<Longrightarrow> planned s p s1"
    and execute_restores:
      "planned s p s1 \<Longrightarrow> op_execute op s1 = Some (Inl e, s2) \<Longrightarrow> restored s1 (op_rollback op s2)"
    and execute_verify_achieves:
      "planned s p s1 \<Longrightarrow> op_execute op s1 = Some (Inr r, s2) \<Longrightarrow> op_verify op s2 = (v, s3) \<Longrightarrow>
       achieved s s3"
begin

lemma never_misordered:
  assumes "ready s" and "op_plan op s = (Inr p, s1)"
  shows "irreversible_steps_are_last p"
  using assms by (rule plan_ordered)

lemma run_restores_or_achieves:
  assumes "ready s" and "run_operation op options s = Some (r, s')"
  shows "restored s s' \<or> achieved s s'"
  using run_operation_trace[OF assms(2)] assms(1)
  by (cases rule: operation_trace.cases)
     (blast intro: plan_reads restored_trans plan_ready execute_restores execute_verify_achieves)+

lemma run_success_achieves:
  assumes "ready s" and "\<not> dry_run options" and "run_operation op options s = Some (Inr out, s')"
  shows "achieved s s' \<and> outcome_report out \<noteq> None"
  using run_operation_trace[OF assms(3)] assms(1,2)
  by (cases rule: operation_trace.cases) (auto intro: plan_ready execute_verify_achieves)

lemma run_cases:
  assumes "ready s" and "run_operation op options s = Some (r, s')"
  obtains (stopped) planning where "op_plan op s = (planning, s')"
  | (failed) p s1 e s2 where "op_plan op s = (Inr p, s1)" "op_execute op s1 = Some (Inl e, s2)"
      "s' = op_rollback op s2"
  | (finished) "achieved s s'"
  using run_operation_trace[OF assms(2)] assms(1)
  by (cases rule: operation_trace.cases) (blast intro: plan_ready execute_verify_achieves)+

lemma dry_run_restores:
  assumes "ready s" and "run_operation op \<lparr>dry_run = True\<rparr> s = Some (r, s')"
  shows "restored s s'"
  using run_operation_trace[OF assms(2)] assms(1)
  by (cases rule: operation_trace.cases) (auto intro: plan_reads)

end

theorem irreversible_steps_are_last_iff_witness:
  "irreversible_steps_are_last
     \<lparr>plan_steps = [undoable_step ''copy'' ''remove'', reading_step ''check'', mutating_step ''delete''],
      plan_estimate = no_estimate, plan_warnings = []\<rparr> \<and>
   \<not> irreversible_steps_are_last
     \<lparr>plan_steps = [mutating_step ''delete'', undoable_step ''copy'' ''remove''],
      plan_estimate = no_estimate, plan_warnings = []\<rparr>"
  (is "irreversible_steps_are_last ?good \<and> \<not> irreversible_steps_are_last ?bad")
proof
  have "\<forall>i j. i < j \<and> j < length (plan_steps ?good) \<and> is_irreversible (plan_steps ?good ! i) \<and>
      step_mutates (plan_steps ?good ! j) \<longrightarrow> is_irreversible (plan_steps ?good ! j)"
    by (auto simp: undoable_step_def reading_step_def mutating_step_def is_irreversible_def
        less_Suc_eq numeral_3_eq_3)
  then show "irreversible_steps_are_last ?good"
    using irreversible_steps_are_last_iff[of ?good] by blast
  show "\<not> irreversible_steps_are_last ?bad"
    by (simp add: irreversible_steps_are_last_def undoable_step_def mutating_step_def
        is_irreversible_def)
qed

end
