(* ===== verification/Contracts.thy ===== *)
theory Contracts
  imports Operation
begin

text \<open>
  What the operations rely on their interfaces for (\<open>src/src/lib/interfaces.h\<close> and its comments),
  one locale per interface, each over a view of the world: \<open>hive\<close> is the registry, \<open>files\<close> tells
  which disk a path names. A law holds for a world no other process changes between two calls.
  Guests may write to the disk they run from; \<open>files\<close> says which disk a file is, not its bytes.
\<close>

section \<open>The registry\<close>

text \<open>A hive as a store of string values: a lens for every key and value name.\<close>

locale hive_store =
  fixes get :: "'h \<Rightarrow> wstr \<Rightarrow> wstr \<Rightarrow> wstr option"
    and put :: "'h \<Rightarrow> wstr \<Rightarrow> wstr \<Rightarrow> wstr \<Rightarrow> 'h"
  assumes get_put: "get (put h k v d) k v = Some d"
    and put_put: "put (put h k v d) k v d' = put h k v d'"
    and put_get: "get h k v = Some d \<Longrightarrow> put h k v d = h"
    and get_put_other: "length v \<noteq> length v' \<Longrightarrow> get (put h k v d) k v' = get h k v'"
begin

text \<open>Writing over a value and then writing its old data back restores the hive.\<close>

lemma put_back: "get h k v = Some d \<Longrightarrow> put (put h k v d') k v d = h"
  by (simp add: put_put put_get)

end

text \<open>The methods that only ask leave the hive alone.\<close>

locale registry_reader =
  fixes reg :: "'w IRegistry"
    and hive :: "'w \<Rightarrow> 'h"
  assumes subkeys_reads: "subkeys reg k w = (names, w') \<Longrightarrow> hive w' = hive w"
    and read_string_reads: "read_string reg k v w = (found, w') \<Longrightarrow> hive w' = hive w"
    and read_dword_reads: "read_dword reg k v w = (num, w') \<Longrightarrow> hive w' = hive w"

locale registry_contract = hive_store get put + registry_reader reg hive
  for get :: "'h \<Rightarrow> wstr \<Rightarrow> wstr \<Rightarrow> wstr option" and put :: "'h \<Rightarrow> wstr \<Rightarrow> wstr \<Rightarrow> wstr \<Rightarrow> 'h"
    and reg :: "'w IRegistry" and hive :: "'w \<Rightarrow> 'h" +
  assumes read_string_value: "read_string reg k v w = (Inr x, w') \<Longrightarrow> x = get (hive w) k v"
    and write_string_ok: "write_string reg k v d w = (Inr u, w') \<Longrightarrow> hive w' = put (hive w) k v d"
    and write_string_fails: "write_string reg k v d w = (Inl e, w') \<Longrightarrow> hive w' = hive w"
begin

lemma write_string_cases:
  assumes "write_string reg k v d w = (r, w')"
  obtains (ok) "r = Inr ()" "hive w' = put (hive w) k v d"
  | (failed) e where "r = Inl e" "hive w' = hive w"
  using assms write_string_ok write_string_fails by (cases r) auto

text \<open>An undo entry that writes the previous data back undoes the write it was pushed for.\<close>

lemma write_string_undo:
  assumes "get h k v = Some old" and "hive w = put h k v d"
    and "returning (write_string reg k v old) w = (Returned (Inr ()), w')"
  shows "hive w' = h"
proof -
  from assms(3) have "write_string reg k v old w = (Inr (), w')"
    by (auto simp: returning_def split: prod.splits)
  then have "hive w' = put (hive w) k v old" by (rule write_string_ok)
  with assms(1,2) show ?thesis by (simp add: put_back)
qed

end

section \<open>The filesystem\<close>

text \<open>\<open>key\<close> maps a path to what it names, so that two spellings of one file have one key. A query
  keeps the files; a file that is present exists. A rename and a copy refuse a target that is
  present. A copy that fails may leave its target behind, in any state.\<close>

locale file_contract =
  fixes fs :: "'w IFileSystem"
    and files :: "'w \<Rightarrow> 'k \<Rightarrow> 'd option"
    and key :: "path \<Rightarrow> 'k"
  assumes exists_reads: "exists_path fs p w = (b, w') \<Longrightarrow> files w' = files w"
    and exists_present: "exists_path fs p w = (False, w') \<Longrightarrow> files w (key p) = None"
    and file_size_on_disk_reads: "file_size_on_disk fs p w = (n, w') \<Longrightarrow> files w' = files w"
    and volume_info_reads: "get_volume_info fs p w = (v, w') \<Longrightarrow> files w' = files w"
    and same_volume_reads: "same_volume fs p q w = (b', w') \<Longrightarrow> files w' = files w"
    and is_locked_reads: "is_locked fs p w = (l, w') \<Longrightarrow> files w' = files w"
    and create_directories_keeps: "create_directories fs p w = (r, w') \<Longrightarrow> files w' = files w"
    and rename_ok:
      "rename_file fs p q w = (Inr u, w') \<Longrightarrow>
       \<exists>d. files w (key p) = Some d \<and> (key p = key q \<or> files w (key q) = None) \<and>
           files w' = (files w)(key p := None, key q := Some d)"
    and rename_fails: "rename_file fs p q w = (Inl e, w') \<Longrightarrow> files w' = files w"
    and copy_ok:
      "copy_file_sparse fs p q f w = ((Inr u, c), w') \<Longrightarrow>
       \<exists>d. files w (key p) = Some d \<and> files w (key q) = None \<and>
           files w' = (files w)(key q := Some d)"
    and copy_fails:
      "copy_file_sparse fs p q f w = ((Inl e, c), w') \<Longrightarrow>
       files w' = (files w)(key q := files w' (key q))"
    and remove_ok: "remove_file fs p w = (Inr u, w') \<Longrightarrow> files w' = (files w)(key p := None)"
    and remove_fails: "remove_file fs p w = (Inl e, w') \<Longrightarrow> files w' = files w"
begin

lemmas file_reads =
  exists_reads file_size_on_disk_reads volume_info_reads same_volume_reads is_locked_reads
  create_directories_keeps

text \<open>Renaming back, and removing a copy, undo the rename and the copy they were pushed for.\<close>

lemma rename_undo:
  assumes "f (key p) = Some d" and "f (key q) = None"
    and "files w = f(key p := None, key q := Some d)"
    and "returning (rename_file fs q p) w = (Returned (Inr ()), w')"
  shows "files w' = f"
proof -
  from assms(4) have "rename_file fs q p w = (Inr (), w')"
    by (auto simp: returning_def split: prod.splits)
  from rename_ok[OF this] obtain d' where
    "files w (key q) = Some d'" "files w' = (files w)(key q := None, key p := Some d')" by auto
  with assms(1-3) show ?thesis by (auto simp: fun_eq_iff)
qed

lemma copy_undo:
  assumes "f (key q) = None" and "files w = f(key q := x)"
    and "returning (remove_file fs q) w = (Returned (Inr ()), w')"
  shows "files w' = f"
proof -
  from assms(3) have "remove_file fs q w = (Inr (), w')"
    by (auto simp: returning_def split: prod.splits)
  from remove_ok[OF this] assms(1,2) show ?thesis by (auto simp: fun_eq_iff)
qed

end

section \<open>The WSL host\<close>

text \<open>Running, stopping and asking about guests leaves a view of the machine alone: the host neither
  moves disks nor rewrites the registry.\<close>

locale host_contract =
  fixes host :: "'w IWslHost"
    and view :: "'w \<Rightarrow> 'v"
  assumes running_keeps: "running host w = (l, w') \<Longrightarrow> view w' = view w"
    and terminate_keeps: "terminate host n w = (s, w') \<Longrightarrow> view w' = view w"
    and shutdown_keeps: "shutdown_wsl host w = (s, w') \<Longrightarrow> view w' = view w"
    and run_as_root_keeps: "run_as_root host n argv t w = (c, w') \<Longrightarrow> view w' = view w"
begin

lemmas host_keeps = running_keeps terminate_keeps shutdown_keeps run_as_root_keeps

end

section \<open>The machine\<close>

text \<open>What a run must not lose: which disk each path names, and the registry.\<close>

definition disk_view :: "('w \<Rightarrow> 'f) \<Rightarrow> ('w \<Rightarrow> 'h) \<Rightarrow> 'w \<Rightarrow> 'f \<times> 'h" where
  "disk_view files hive w = (files w, hive w)"

text \<open>The three interfaces on one world: the filesystem leaves the registry alone, and the other way
  round.\<close>

locale machine =
  registry_contract get put reg hive + file_contract fs files key +
  host_contract host "disk_view files hive"
  for get :: "'h \<Rightarrow> wstr \<Rightarrow> wstr \<Rightarrow> wstr option"
    and put :: "'h \<Rightarrow> wstr \<Rightarrow> wstr \<Rightarrow> wstr \<Rightarrow> 'h"
    and reg :: "'w IRegistry"
    and hive :: "'w \<Rightarrow> 'h"
    and fs :: "'w IFileSystem"
    and files :: "'w \<Rightarrow> 'k \<Rightarrow> 'd option"
    and key :: "path \<Rightarrow> 'k"
    and host :: "'w IWslHost" +
  assumes registry_keeps_files:
      "read_string reg k v w = (found, w') \<Longrightarrow> files w' = files w"
      "write_string reg k v d w = (r, w') \<Longrightarrow> files w' = files w"
    and filesystem_keeps_hive:
      "exists_path fs p w = (b, w') \<Longrightarrow> hive w' = hive w"
      "file_size_on_disk fs p w = (n, w') \<Longrightarrow> hive w' = hive w"
      "get_volume_info fs p w = (v', w') \<Longrightarrow> hive w' = hive w"
      "same_volume fs p q w = (b', w') \<Longrightarrow> hive w' = hive w"
      "is_locked fs p w = (l, w') \<Longrightarrow> hive w' = hive w"
      "create_directories fs p w = (r, w') \<Longrightarrow> hive w' = hive w"
      "rename_file fs p q w = (r, w') \<Longrightarrow> hive w' = hive w"
      "copy_file_sparse fs p q f w = (c, w') \<Longrightarrow> hive w' = hive w"
      "remove_file fs p w = (r, w') \<Longrightarrow> hive w' = hive w"

section \<open>The clock\<close>

text \<open>A clock that never goes back and that a sleep of \<open>d\<close> milliseconds advances by at least \<open>d\<close>.\<close>

locale clock_contract =
  fixes clock :: "'w IClock"
    and time :: "'w \<Rightarrow> int"
  assumes now_reads: "now clock w = (t, w') \<Longrightarrow> t = time w \<and> time w \<le> time w'"
    and sleep_advances: "time w + d \<le> time (sleep_for clock d w)"

text \<open>Waiting for a file: asking whether it is locked does not turn the clock back either.\<close>

locale wait_contract = clock_contract clock time
  for clock :: "'w IClock" and time :: "'w \<Rightarrow> int" +
  fixes fs :: "'w IFileSystem"
  assumes is_locked_takes_time: "is_locked fs p w = (r, w') \<Longrightarrow> time w \<le> time w'"

text \<open>An observer: the calls that ask, wait and stop guests leave a view of the world alone.\<close>

locale observer_contract = host_contract host view
  for host :: "'w IWslHost" and view :: "'w \<Rightarrow> 'v" +
  fixes fs :: "'w IFileSystem" and clock :: "'w IClock"
  assumes is_locked_keeps: "is_locked fs p w = (l, w') \<Longrightarrow> view w' = view w"
    and now_keeps: "now clock w = (t, w') \<Longrightarrow> view w' = view w"
    and sleep_keeps: "view (sleep_for clock d w) = view w"

end
