(* ===== verification/Fakes.thy ===== *)
theory Fakes
  imports Contracts
begin

text \<open>
  A machine in memory, after the test doubles of \<open>src/tests/fakes/\<close> (\<open>FakeRegistry\<close>,
  \<open>FakeFileSystem\<close>, \<open>FakeWslHost\<close>, \<open>FakeClock\<close>): one record holds the registry, the files, the
  guests and the clock, and every call can be told to fail. It provides the interfaces of theory
  \<open>Interfaces\<close>, its interpretations discharge the contracts of theory \<open>Contracts\<close>, and the
  witnesses run the operations on it. A file is refused where a directory stands and the other way
  round, as Windows does and the C++ doubles do not.
\<close>

section \<open>The machine\<close>

datatype reg_value = Reg_text wstr | Reg_number u32

type_synonym fake_hive = "wstr \<Rightarrow> wstr \<Rightarrow> reg_value option"

record fake_file =
  ff_size :: u64
  ff_size_on_disk :: u64
  ff_sparse :: bool
  ff_text :: string

record fake_failures =
  registry_failure :: "error option"
  value_failure :: "wstr \<Rightarrow> error option"
  write_failure :: "wstr \<Rightarrow> error option"
  query_failure :: "error option"
  directory_failure :: "path \<Rightarrow> error option"
  remove_failure :: "error option"
  copy_failure :: "error option"
  rename_failure :: "error option"
  create_failure :: "error option"
  running_failure :: "error option"
  terminate_failure :: "error option"
  command_failure :: "string list \<Rightarrow> error option"

definition no_failures :: fake_failures where
  "no_failures =
     \<lparr>registry_failure = None, value_failure = (\<lambda>_. None), write_failure = (\<lambda>_. None),
      query_failure = None, directory_failure = (\<lambda>_. None), remove_failure = None,
      copy_failure = None, rename_failure = None, create_failure = None, running_failure = None,
      terminate_failure = None, command_failure = (\<lambda>_. None)\<rparr>"

record fake_machine =
  fake_keys :: "wstr list"
  fake_values :: fake_hive
  fake_files :: "path \<Rightarrow> fake_file option"
  fake_directories :: "path list"
  fake_listing :: "path \<Rightarrow> directory_entry list"
  fake_volumes :: "path \<Rightarrow> volume_info option"
  fake_variables :: "path \<Rightarrow> path"
  fake_locked :: "path list"
  fake_running :: "string list"
  fake_answers :: "string list \<Rightarrow> wsl_command_result"
  fake_now :: int
  fake_failures :: fake_failures

definition or_fails :: "error option \<Rightarrow> error + 'a \<Rightarrow> error + 'a" where
  "or_fails e r = (case e of Some x \<Rightarrow> Inl x | None \<Rightarrow> r)"

lemma or_fails_simps [simp]:
  "or_fails None r = r" "or_fails (Some x) r = Inl x"
  "or_fails e r = Inr y \<longleftrightarrow> e = None \<and> r = Inr y"
  by (auto simp: or_fails_def split: option.splits)

text \<open>A command that changes the machine only when it succeeds.\<close>

definition commit :: "error + 'a \<Rightarrow> (fake_machine \<Rightarrow> fake_machine) \<Rightarrow> fake_machine \<Rightarrow> (error + 'a) \<times> fake_machine" where
  "commit r f m = (r, case r of Inl _ \<Rightarrow> m | Inr _ \<Rightarrow> f m)"

section \<open>The registry\<close>

definition hive_get :: "fake_hive \<Rightarrow> wstr \<Rightarrow> wstr \<Rightarrow> wstr option" where
  "hive_get h k v = (case h k v of Some (Reg_text t) \<Rightarrow> Some t | _ \<Rightarrow> None)"

definition hive_put :: "fake_hive \<Rightarrow> wstr \<Rightarrow> wstr \<Rightarrow> wstr \<Rightarrow> fake_hive" where
  "hive_put h k v d = h(k := (h k)(v := Some (Reg_text d)))"

definition missing_key :: "error + 'a" where
  "missing_key = fail Preflight ''the registry key does not exist'' ''check that WSL is installed''"

definition wrong_type :: "error + 'a" where
  "wrong_type = fail Generic ''value has the wrong type'' ''the WSL registry layout has changed''"

definition fake_subkeys :: "wstr \<Rightarrow> fake_machine \<Rightarrow> (error + wstr list) \<times> fake_machine" where
  "fake_subkeys key m =
     (or_fails (registry_failure (fake_failures m))
        (if key \<notin> set (fake_keys m) then missing_key
         else Inr (filter (\<lambda>t. backslash \<notin> set t)
                     (map (drop (length key + 1))
                        (filter (\<lambda>p. starts_with p (key @ [backslash])) (fake_keys m))))), m)"

definition fake_read ::
  "(reg_value \<Rightarrow> 'a option) \<Rightarrow> wstr \<Rightarrow> wstr \<Rightarrow> fake_machine \<Rightarrow> (error + 'a option) \<times> fake_machine" where
  "fake_read as key v m =
     (or_fails (registry_failure (fake_failures m))
        (or_fails (value_failure (fake_failures m) v)
           (if key \<notin> set (fake_keys m) then missing_key
            else
              (case fake_values m key v of
                 None \<Rightarrow> Inr None
               | Some x \<Rightarrow> (case as x of None \<Rightarrow> wrong_type | Some y \<Rightarrow> Inr (Some y))))), m)"

definition fake_write_string :: "wstr \<Rightarrow> wstr \<Rightarrow> wstr \<Rightarrow> fake_machine \<Rightarrow> status \<times> fake_machine" where
  "fake_write_string key v d m =
     commit (or_fails (registry_failure (fake_failures m))
               (or_fails (write_failure (fake_failures m) v)
                  (if key \<notin> set (fake_keys m) then missing_key else Inr ())))
       (\<lambda>m. m\<lparr>fake_values := hive_put (fake_values m) key v d\<rparr>) m"

definition as_text :: "reg_value \<Rightarrow> wstr option" where
  "as_text x = (case x of Reg_text t \<Rightarrow> Some t | Reg_number _ \<Rightarrow> None)"

definition as_number :: "reg_value \<Rightarrow> u32 option" where
  "as_number x = (case x of Reg_number n \<Rightarrow> Some n | Reg_text _ \<Rightarrow> None)"

definition fake_registry :: "fake_machine IRegistry" where
  "fake_registry =
     \<lparr>subkeys = fake_subkeys, read_string = fake_read as_text, read_dword = fake_read as_number,
      write_string = fake_write_string\<rparr>"

interpretation fake_hive: hive_store hive_get hive_put
  by unfold_locales (auto simp: hive_get_def hive_put_def fun_eq_iff split: option.splits reg_value.splits)

interpretation fake_registry: registry_contract hive_get hive_put fake_registry fake_values
  by unfold_locales
    (auto simp: fake_registry_def fake_subkeys_def fake_read_def fake_write_string_def commit_def
      hive_get_def as_text_def missing_key_def wrong_type_def
      split: option.splits reg_value.splits if_splits sum.splits)

section \<open>The filesystem\<close>

definition no_such_file :: "error + 'a" where
  "no_such_file = fail Preflight ''no such file'' ''check the path''"

definition already_there :: "error + 'a" where
  "already_there = fail Preflight ''the destination already exists'' ''move it aside first''"

definition fake_present :: "path \<Rightarrow> fake_machine \<Rightarrow> bool" where
  "fake_present p m \<longleftrightarrow> fake_files m p \<noteq> None \<or> p \<in> set (fake_directories m)"

definition fake_query :: "path \<Rightarrow> (fake_file \<Rightarrow> 'a) \<Rightarrow> fake_machine \<Rightarrow> (error + 'a) \<times> fake_machine" where
  "fake_query p f m =
     (or_fails (query_failure (fake_failures m))
        (case fake_files m p of None \<Rightarrow> no_such_file | Some x \<Rightarrow> Inr (f x)), m)"

definition fake_volume_info :: "path \<Rightarrow> fake_machine \<Rightarrow> (error + volume_info) \<times> fake_machine" where
  "fake_volume_info p m =
     (or_fails (query_failure (fake_failures m))
        (case fake_volumes m (root_path p) of
           None \<Rightarrow> fail Preflight ''no such volume'' ''check the drive letter''
         | Some v \<Rightarrow> Inr v), m)"

definition fake_list_directory ::
  "path \<Rightarrow> wstr \<Rightarrow> fake_machine \<Rightarrow> (error + directory_entry list) \<times> fake_machine" where
  "fake_list_directory d pat m =
     (or_fails (query_failure (fake_failures m))
        (or_fails (directory_failure (fake_failures m) d) (Inr (fake_listing m d))), m)"

definition fake_remove :: "path \<Rightarrow> fake_machine \<Rightarrow> status \<times> fake_machine" where
  "fake_remove p m =
     commit (or_fails (remove_failure (fake_failures m))
               (if fake_files m p = None then no_such_file else Inr ()))
       (\<lambda>m. m\<lparr>fake_files := (fake_files m)(p := None)\<rparr>) m"

definition fake_copy ::
  "path \<Rightarrow> path \<Rightarrow> (u64 \<Rightarrow> u64 \<Rightarrow> bool) \<Rightarrow> fake_machine \<Rightarrow> (status \<times> (u64 \<times> u64) list) \<times> fake_machine" where
  "fake_copy p q progress m =
     (case or_fails (copy_failure (fake_failures m))
             (if fake_files m p = None then no_such_file
              else if fake_present q m then already_there else Inr ()) of
        Inl e \<Rightarrow> ((Inl e, []), m)
      | Inr _ \<Rightarrow>
          (let n = ff_size_on_disk (the (fake_files m p));
               m' = m\<lparr>fake_files := (fake_files m)(q := fake_files m p)\<rparr>
           in if progress n n then ((Inr (), [(n, n)]), m')
              else ((fail Partial ''the copy was cancelled'' ''delete the partial file'', [(n, n)]), m')))"

definition fake_rename :: "path \<Rightarrow> path \<Rightarrow> fake_machine \<Rightarrow> status \<times> fake_machine" where
  "fake_rename p q m =
     commit (or_fails (rename_failure (fake_failures m))
               (if fake_files m p = None then no_such_file
                else if fake_present q m then already_there else Inr ()))
       (\<lambda>m. m\<lparr>fake_files := (fake_files m)(p := None, q := fake_files m p)\<rparr>) m"

definition fake_create_directories :: "path \<Rightarrow> fake_machine \<Rightarrow> status \<times> fake_machine" where
  "fake_create_directories p m =
     commit (or_fails (create_failure (fake_failures m))
               (if fake_files m p \<noteq> None then already_there else Inr ()))
       (\<lambda>m. m\<lparr>fake_directories := p # fake_directories m\<rparr>) m"

definition fake_read_text :: "path \<Rightarrow> fake_machine \<Rightarrow> (error + string) \<times> fake_machine" where
  "fake_read_text p = fake_query p ff_text"

definition fake_write_text :: "path \<Rightarrow> string \<Rightarrow> fake_machine \<Rightarrow> status \<times> fake_machine" where
  "fake_write_text p t m =
     commit (or_fails (create_failure (fake_failures m)) (Inr ()))
       (\<lambda>m. m\<lparr>fake_files := (fake_files m)(p \<mapsto>
          \<lparr>ff_size = of_nat (length t), ff_size_on_disk = of_nat (length t), ff_sparse = False,
           ff_text = t\<rparr>)\<rparr>) m"

definition fake_filesystem :: "fake_machine IFileSystem" where
  "fake_filesystem =
     \<lparr>exists_path = (\<lambda>p m. (fake_present p m, m)),
      file_size = (\<lambda>p. fake_query p ff_size),
      file_size_on_disk = (\<lambda>p. fake_query p ff_size_on_disk),
      is_sparse = (\<lambda>p. fake_query p ff_sparse),
      get_volume_info = fake_volume_info,
      list_directory = fake_list_directory,
      allocated_ranges =
        (\<lambda>p. fake_query p (\<lambda>f. [\<lparr>range_offset = 0, range_length = ff_size_on_disk f\<rparr>])),
      is_locked = (\<lambda>p m. (fst (fake_query p (\<lambda>_. p \<in> set (fake_locked m)) m), m)),
      remove_file = fake_remove,
      copy_file_sparse = fake_copy,
      rename_file = fake_rename,
      same_volume =
        (\<lambda>p q m. (or_fails (query_failure (fake_failures m)) (Inr (root_path p = root_path q)), m)),
      expand_environment =
        (\<lambda>p m. (or_fails (query_failure (fake_failures m)) (Inr (fake_variables m p)), m)),
      read_text_file = fake_read_text,
      write_text_file = fake_write_text,
      create_directories = fake_create_directories\<rparr>"

lemmas fake_filesystem_defs =
  fake_filesystem_def fake_query_def fake_volume_info_def fake_list_directory_def fake_remove_def
  fake_copy_def fake_rename_def fake_create_directories_def fake_present_def commit_def
  no_such_file_def already_there_def Let_def

interpretation fake_filesystem: file_contract fake_filesystem fake_files id
  by unfold_locales
    (auto simp: fake_filesystem_defs fun_eq_iff split: option.splits if_splits sum.splits)

section \<open>The virtual disks\<close>

text \<open>A disk that compacts to one byte, on the machine in memory, after \<open>FakeVirtualDisk\<close>.\<close>

definition fake_handle :: "path \<Rightarrow> fake_machine IVirtualDiskHandle" where
  "fake_handle p =
     \<lparr>information = (\<lambda>m. (no_such_file, m)),
      compact_disk = (\<lambda>progress m.
        ((Inr (), [\<lparr>progress_current = 1, progress_total = 1\<rparr>]),
         m\<lparr>fake_files := (\<lambda>q. if q = p then map_option (\<lambda>f. f\<lparr>ff_size_on_disk := 1\<rparr>) (fake_files m q)
                                else fake_files m q)\<rparr>)),
      close_disk = id\<rparr>"

definition fake_disks :: "fake_machine IVirtualDisk" where
  "fake_disks =
     \<lparr>open_disk = (\<lambda>p m. (if fake_files m p = None then no_such_file else Inr (fake_handle p), m)),
      create_disk = (\<lambda>p n m. (already_there, m))\<rparr>"

section \<open>The host and the clock\<close>

definition fake_run_as_root ::
  "string \<Rightarrow> string list \<Rightarrow> int \<Rightarrow> fake_machine \<Rightarrow> (error + wsl_command_result) \<times> fake_machine" where
  "fake_run_as_root n argv t m =
     (if argv = [] then
        (fail Usage ''no command was given to run in the distribution''
           ''pass the absolute path of the guest program to run'', m)
      else if \<not> starts_with (hd argv) ''/'' then
        (fail Usage (''`'' @ hd argv @ ''` is not an absolute path in the distribution'')
           ''wsl --exec does not search PATH; pass a full path such as /usr/sbin/fstrim'', m)
      else
        commit (or_fails (command_failure (fake_failures m) argv) (Inr (fake_answers m argv)))
          (\<lambda>m. m\<lparr>fake_running := List.insert n (fake_running m)\<rparr>) m)"

definition fake_host :: "fake_machine IWslHost" where
  "fake_host =
     \<lparr>running = (\<lambda>m. (or_fails (running_failure (fake_failures m)) (Inr (fake_running m)), m)),
      terminate =
        (\<lambda>n m. commit (or_fails (terminate_failure (fake_failures m)) (Inr ()))
                 (\<lambda>m. m\<lparr>fake_running := removeAll n (fake_running m)\<rparr>) m),
      shutdown_wsl =
        (\<lambda>m. commit (or_fails (terminate_failure (fake_failures m)) (Inr ()))
               (\<lambda>m. m\<lparr>fake_running := []\<rparr>) m),
      run_as_root = fake_run_as_root,
      mount_bare = (\<lambda>p m. (Inr (), m)),
      unmount = (\<lambda>p m. (Inr (), m))\<rparr>"

interpretation fake_host: host_contract fake_host "disk_view fake_files fake_values"
  by unfold_locales
    (auto simp: disk_view_def fake_host_def fake_run_as_root_def commit_def split: if_splits sum.splits)

interpretation fake_machine:
  machine hive_get hive_put fake_registry fake_values fake_filesystem fake_files id fake_host
  by unfold_locales
    (auto simp: fake_registry_def fake_read_def fake_write_string_def fake_filesystem_defs
      missing_key_def wrong_type_def split: option.splits if_splits sum.splits)

definition fake_clock :: "fake_machine IClock" where
  "fake_clock = \<lparr>now = (\<lambda>m. (fake_now m, m)), sleep_for = (\<lambda>d m. m\<lparr>fake_now := fake_now m + d\<rparr>)\<rparr>"

interpretation fake_clock: clock_contract fake_clock fake_now
  by unfold_locales (auto simp: fake_clock_def)

interpretation fake_wait: wait_contract fake_clock fake_now fake_filesystem
  by unfold_locales (auto simp: fake_filesystem_defs)

interpretation fake_observer:
  observer_contract fake_host "disk_view fake_files fake_values" fake_filesystem fake_clock
  by unfold_locales (auto simp: disk_view_def fake_clock_def fake_filesystem_defs)

end
