(* ===== verification/Distro.thy ===== *)
theory Distro
  imports Fakes Text_Encoding
begin

text \<open>
  The registered distributions (\<open>src/src/lib/model/distro.h\<close>, \<open>distro.cpp\<close>): reading them out of the
  \<open>Lxss\<close> key, the two spellings of a \<open>BasePath\<close>, and where a distribution's disk is. The registry
  is the interface \<open>IRegistry\<close> of theory \<open>Interfaces\<close>.
\<close>

section \<open>Names and prefixes\<close>

definition lxss_key_path :: wstr where
  "lxss_key_path =
     wide ''Software'' @ [backslash] @ wide ''Microsoft'' @ [backslash] @ wide ''Windows'' @
     [backslash] @ wide ''CurrentVersion'' @ [backslash] @ wide ''Lxss''"

lemma lxss_key_path_code [code]:
  "lxss_key_path =
     [0x53, 0x6f, 0x66, 0x74, 0x77, 0x61, 0x72, 0x65, 0x5c, 0x4d, 0x69, 0x63, 0x72, 0x6f, 0x73,
      0x6f, 0x66, 0x74, 0x5c, 0x57, 0x69, 0x6e, 0x64, 0x6f, 0x77, 0x73, 0x5c, 0x43, 0x75, 0x72,
      0x72, 0x65, 0x6e, 0x74, 0x56, 0x65, 0x72, 0x73, 0x69, 0x6f, 0x6e, 0x5c, 0x4c, 0x78, 0x73,
      0x73]"
  by (simp add: lxss_key_path_def wide_def backslash_def)

definition lxss_key :: wstr where
  "lxss_key = lxss_key_path"

text \<open>\<open>\\?\<close> and \<open>\\?\UNC\<close>, each with its closing backslash.\<close>

definition extended_prefix :: wstr where
  "extended_prefix = [backslash, backslash, 0x3F, backslash]"

definition extended_unc_prefix :: wstr where
  "extended_unc_prefix = extended_prefix @ wide ''UNC'' @ [backslash]"

definition default_vhd_name :: wstr where
  "default_vhd_name = wide ''ext4.vhdx''"

definition tolower :: "char \<Rightarrow> char" where
  "tolower c = (if 65 \<le> (of_char c :: nat) \<and> (of_char c :: nat) \<le> 90 then char_of ((of_char c :: nat) + 32) else c)"

definition equals_ignoring_case :: "string \<Rightarrow> string \<Rightarrow> bool" where
  "equals_ignoring_case left right \<longleftrightarrow> list_all2 (\<lambda>a b. tolower a = tolower b) left right"

section \<open>One distribution\<close>

record distro =
  distro_name :: string
  guid :: string
  version :: u32
  base_path :: wstr
  vhd_file_name :: wstr
  vhdx_path :: path
  default_uid :: u32
  distro_flags :: u32
  distro_state :: u32
  is_default :: bool
  modern :: bool
  flavor :: string
  os_version :: string

definition is_wsl2 :: "distro \<Rightarrow> bool" where
  "is_wsl2 d \<longleftrightarrow> version d = 2"

definition find_matches :: "distro \<Rightarrow> string \<Rightarrow> bool" where
  "find_matches d wanted = equals_ignoring_case (distro_name d) wanted"

record distro_list =
  distros :: "distro list"
  distro_warnings :: "string list"

definition default_distro :: "distro_list \<Rightarrow> distro option" where
  "default_distro l = List.find is_default (distros l)"

definition find_distro :: "distro_list \<Rightarrow> string \<Rightarrow> distro option" where
  "find_distro l n = List.find (\<lambda>d. find_matches d n) (distros l)"

definition registry_key_for :: "distro \<Rightarrow> wstr" where
  "registry_key_for d = lxss_key_path @ [backslash] @ to_wide (guid d)"

definition strip_extended_prefix :: "wstr \<Rightarrow> wstr" where
  "strip_extended_prefix p =
     (if starts_with p extended_unc_prefix then
        [backslash, backslash] @ drop (length extended_unc_prefix) p
      else if starts_with p extended_prefix then drop (length extended_prefix) p
      else p)"

definition vhdx_path_for :: "wstr \<Rightarrow> wstr \<Rightarrow> path" where
  "vhdx_path_for base file =
     append_path (strip_extended_prefix base) (if file = [] then default_vhd_name else file)"

section \<open>Reading one key\<close>

text \<open>\<open>KeyReader\<close>: the first failure is kept and turns every later read into a no-op. The reader's
  state is that failure and the world.\<close>

record 'w key_reader =
  failure :: "error option"
  reader_world :: 'w

definition key_text :: "'w IRegistry \<Rightarrow> wstr \<Rightarrow> wstr \<Rightarrow> 'w key_reader \<Rightarrow> wstr option \<times> 'w key_reader" where
  "key_text registry key v s =
     (if failure s \<noteq> None then (None, s)
      else
        (case read_string registry key v (reader_world s) of
           (Inl e, w) \<Rightarrow> (None, s\<lparr>failure := Some e, reader_world := w\<rparr>)
         | (Inr x, w) \<Rightarrow> (x, s\<lparr>reader_world := w\<rparr>)))"

definition key_number ::
  "'w IRegistry \<Rightarrow> wstr \<Rightarrow> wstr \<Rightarrow> u32 \<Rightarrow> 'w key_reader \<Rightarrow> u32 \<times> 'w key_reader" where
  "key_number registry key v fallback s =
     (if failure s \<noteq> None then (fallback, s)
      else
        (case read_dword registry key v (reader_world s) of
           (Inl e, w) \<Rightarrow> (fallback, s\<lparr>failure := Some e, reader_world := w\<rparr>)
         | (Inr x, w) \<Rightarrow> (case_option fallback id x, s\<lparr>reader_world := w\<rparr>)))"

text \<open>The ten values of one key, in the order they are read.\<close>

record key_values =
  kv_name :: "wstr option"
  kv_base_path :: "wstr option"
  kv_vhd_file_name :: "wstr option"
  kv_flavor :: "wstr option"
  kv_os_version :: "wstr option"
  kv_version :: u32
  kv_default_uid :: u32
  kv_flags :: u32
  kv_state :: u32
  kv_modern :: u32

definition read_key :: "'w IRegistry \<Rightarrow> wstr \<Rightarrow> 'w \<Rightarrow> (error + key_values) \<times> 'w" where
  "read_key registry key w =
     (let s = \<lparr>failure = None, reader_world = w\<rparr>;
          (name_read, s) = key_text registry key (wide ''DistributionName'') s;
          (base_read, s) = key_text registry key (wide ''BasePath'') s;
          (vhd_read, s) = key_text registry key (wide ''VhdFileName'') s;
          (flavor_read, s) = key_text registry key (wide ''Flavor'') s;
          (os_read, s) = key_text registry key (wide ''OsVersion'') s;
          (version_read, s) = key_number registry key (wide ''Version'') 2 s;
          (uid_read, s) = key_number registry key (wide ''DefaultUid'') 0 s;
          (flags_read, s) = key_number registry key (wide ''Flags'') 0 s;
          (state_read, s) = key_number registry key (wide ''State'') 0 s;
          (modern_read, s) = key_number registry key (wide ''Modern'') 0 s
      in (case failure s of
            Some e \<Rightarrow> (Inl e, reader_world s)
          | None \<Rightarrow>
              (Inr \<lparr>kv_name = name_read, kv_base_path = base_read, kv_vhd_file_name = vhd_read,
                    kv_flavor = flavor_read, kv_os_version = os_read, kv_version = version_read,
                    kv_default_uid = uid_read, kv_flags = flags_read, kv_state = state_read,
                    kv_modern = modern_read\<rparr>, reader_world s)))"

section \<open>Enumeration\<close>

definition or_empty :: "wstr option \<Rightarrow> wstr" where
  "or_empty x = (case x of None \<Rightarrow> [] | Some t \<Rightarrow> t)"

definition distro_of :: "wstr option \<Rightarrow> wstr \<Rightarrow> key_values \<Rightarrow> distro" where
  "distro_of default_guid g kv =
     \<lparr>distro_name = to_utf8 (or_empty (kv_name kv)),
      guid = to_utf8 g,
      version = kv_version kv,
      base_path = or_empty (kv_base_path kv),
      vhd_file_name = or_empty (kv_vhd_file_name kv),
      vhdx_path = vhdx_path_for (or_empty (kv_base_path kv)) (or_empty (kv_vhd_file_name kv)),
      default_uid = kv_default_uid kv,
      distro_flags = kv_flags kv,
      distro_state = kv_state kv,
      is_default = (default_guid = Some g),
      modern = (kv_modern kv \<noteq> 0),
      flavor = to_utf8 (or_empty (kv_flavor kv)),
      os_version = to_utf8 (or_empty (kv_os_version kv))\<rparr>"

definition add_key :: "wstr option \<Rightarrow> wstr \<Rightarrow> key_values \<Rightarrow> distro_list \<Rightarrow> distro_list" where
  "add_key default_guid g kv result =
     (if or_empty (kv_name kv) = [] then
        result\<lparr>distro_warnings := distro_warnings result @
          [''registry key '' @ to_utf8 g @ '' has no DistributionName and was skipped'']\<rparr>
      else if or_empty (kv_base_path kv) = [] then
        result\<lparr>distro_warnings := distro_warnings result @
          [''distribution '' @ to_utf8 (or_empty (kv_name kv)) @ '' has no BasePath and was skipped'']\<rparr>
      else result\<lparr>distros := distros result @ [distro_of default_guid g kv]\<rparr>)"

fun enumerate_keys ::
  "'w IRegistry \<Rightarrow> wstr option \<Rightarrow> wstr list \<Rightarrow> distro_list \<Rightarrow> 'w \<Rightarrow> (error + distro_list) \<times> 'w" where
  "enumerate_keys registry default_guid [] result w = (Inr result, w)"
| "enumerate_keys registry default_guid (g # guids) result w =
     (case read_key registry (lxss_key_path @ [backslash] @ g) w of
        (Inl e, w1) \<Rightarrow> (Inl e, w1)
      | (Inr kv, w1) \<Rightarrow>
          enumerate_keys registry default_guid guids (add_key default_guid g kv result) w1)"

definition enumerate_distros :: "'w IRegistry \<Rightarrow> 'w \<Rightarrow> (error + distro_list) \<times> 'w" where
  "enumerate_distros registry =
     attempt (subkeys registry lxss_key_path) (\<lambda>guids.
     attempt (read_string registry lxss_key_path (wide ''DefaultDistribution'')) (\<lambda>default_guid.
     enumerate_keys registry default_guid guids \<lparr>distros = [], distro_warnings = []\<rparr>))"

section \<open>What enumeration promises\<close>

lemma equals_ignoring_case_iff:
  "equals_ignoring_case a b \<longleftrightarrow> map tolower a = map tolower b"
  by (simp add: equals_ignoring_case_def list_all2_conv_all_nth list_eq_iff_nth_eq)
     (metis length_map nth_map)

definition registered :: "wstr list \<Rightarrow> wstr option \<Rightarrow> distro \<Rightarrow> bool" where
  "registered guids default_guid d \<longleftrightarrow>
     (\<exists>g \<in> set guids. guid d = to_utf8 g \<and> is_default d = (default_guid = Some g) \<and>
        (well_formed_utf16 g \<longrightarrow> registry_key_for d = lxss_key @ [backslash] @ g)) \<and>
     base_path d \<noteq> [] \<and> vhdx_path d = vhdx_path_for (base_path d) (vhd_file_name d)"

definition defaults :: "distro_list \<Rightarrow> nat" where
  "defaults l = length (filter is_default (distros l))"

lemma add_key_counts:
  "length (distros (add_key dg g kv l)) + length (distro_warnings (add_key dg g kv l)) =
   Suc (length (distros l) + length (distro_warnings l))"
  by (simp add: add_key_def)

lemma add_key_registered:
  assumes "\<forall>d \<in> set (distros l). registered guids dg d" and "g \<in> set guids"
  shows "\<forall>d \<in> set (distros (add_key dg g kv l)). registered guids dg d"
  using assms by (auto simp: add_key_def registered_def distro_of_def registry_key_for_def lxss_key_def
      to_wide_to_utf8 repair_well_formed)

lemma add_key_defaults:
  "defaults (add_key dg g kv l) \<le> defaults l + (if dg = Some g then 1 else 0)"
  by (simp add: add_key_def defaults_def distro_of_def)

lemma enumerate_keys_accounts:
  assumes "enumerate_keys registry dg guids l w = (Inr l', w')" and "set guids \<subseteq> set all_guids"
    and "\<forall>d \<in> set (distros l). registered all_guids dg d"
  shows "length (distros l') + length (distro_warnings l') =
           length guids + length (distros l) + length (distro_warnings l) \<and>
         (\<forall>d \<in> set (distros l'). registered all_guids dg d) \<and>
         (distinct guids \<longrightarrow> defaults l' \<le> defaults l + (if dg \<in> Some ` set guids then 1 else 0))"
  using assms
proof (induction guids arbitrary: l w)
  case (Cons g guids)
  from Cons.prems(1) obtain kv w1 where
    kv: "read_key registry (lxss_key_path @ [backslash] @ g) w = (Inr kv, w1)"
    and rest: "enumerate_keys registry dg guids (add_key dg g kv l) w1 = (Inr l', w')"
    by (auto split: prod.splits sum.splits)
  have "\<forall>d \<in> set (distros (add_key dg g kv l)). registered all_guids dg d"
    using Cons.prems(2,3) by (intro add_key_registered) auto
  from Cons.IH[OF rest _ this] Cons.prems(2) add_key_counts[of dg g kv l]
    add_key_defaults[of dg g kv l]
  show ?case by (auto split: if_splits)
qed simp


definition sample_machine :: fake_machine where
  "sample_machine =
     \<lparr>fake_keys = [lxss_key, lxss_key @ [backslash] @ wide ''{a}'', lxss_key @ [backslash] @ wide ''{b}''],
      fake_values = (\<lambda>k v.
        if k = lxss_key \<and> v = wide ''DefaultDistribution'' then Some (Reg_text (wide ''{a}''))
        else if k = lxss_key @ [backslash] @ wide ''{a}'' \<and> v = wide ''DistributionName''
          then Some (Reg_text (wide ''U''))
        else if k = lxss_key @ [backslash] @ wide ''{a}'' \<and> v = wide ''BasePath''
          then Some (Reg_text (wide ''C:'' @ [backslash] @ wide ''u''))
        else None),
      fake_files = (\<lambda>p. None), fake_directories = [], fake_listing = (\<lambda>p. []),
      fake_volumes = (\<lambda>p. None), fake_variables = id, fake_locked = [], fake_running = [],
      fake_answers = (\<lambda>argv. \<lparr>exit_code = 0, standard_output = [], standard_error = []\<rparr>),
      fake_now = 0, fake_failures = no_failures\<rparr>"

definition sample_listing :: distro_list where
  "sample_listing =
     \<lparr>distros =
        [\<lparr>distro_name = ''U'', guid = ''{a}'', version = 2,
          base_path = wide ''C:'' @ [backslash] @ wide ''u'', vhd_file_name = [],
          vhdx_path = wide ''C:'' @ [backslash] @ wide ''u'' @ [backslash] @ wide ''ext4.vhdx'',
          default_uid = 0, distro_flags = 0, distro_state = 0, is_default = True, modern = False,
          flavor = [], os_version = []\<rparr>],
      distro_warnings = [''registry key {b} has no DistributionName and was skipped'']\<rparr>"

lemma sample_listing_read:
  "fst (enumerate_distros fake_registry sample_machine) = Inr sample_listing"
  by code_simp


context registry_reader
begin

lemma key_text_reads: "key_text reg k v s = (x, s') \<Longrightarrow> hive (reader_world s') = hive (reader_world s)"
  by (auto simp: key_text_def split: if_splits prod.splits sum.splits dest: read_string_reads)

lemma key_number_reads:
  "key_number reg k v f s = (n, s') \<Longrightarrow> hive (reader_world s') = hive (reader_world s)"
  by (auto simp: key_number_def split: if_splits prod.splits sum.splits dest: read_dword_reads)

lemma read_key_reads: "read_key reg k w = (r, w') \<Longrightarrow> hive w' = hive w"
  by (auto simp: read_key_def Let_def split: prod.splits option.splits
      dest!: key_text_reads key_number_reads)

lemma enumerate_keys_reads:
  "enumerate_keys reg dg guids l w = (r, w') \<Longrightarrow> hive w' = hive w"
proof (induction guids arbitrary: l w)
  case (Cons g guids)
  then show ?case
    by (auto split: prod.splits sum.splits dest!: read_key_reads Cons.IH)
qed simp

lemma enumerate_reads: "enumerate_distros reg w = (r, w') \<Longrightarrow> hive w' = hive w"
  by (auto simp: enumerate_distros_def attempt_def split: prod.splits sum.splits
      dest!: subkeys_reads read_string_reads enumerate_keys_reads)

end

end
