(* ===== verification/Orphans.thy ===== *)
theory Orphans
  imports Distro
begin

text \<open>
  Comparing paths and scanning for disks no distribution claims (\<open>src/src/lib/model/orphans.h\<close>,
  \<open>orphans.cpp\<close>). The scan threads the world through the filesystem's queries and carries the
  lists \<open>seen\<close>, \<open>orphans\<close> and \<open>warnings\<close> the code appends to.
\<close>

section \<open>Comparing paths\<close>

definition wildcard :: wstr where
  "wildcard = wide ''*''"

definition vhdx_pattern :: wstr where
  "vhdx_pattern = wide ''*.vhdx''"

definition lower_unit :: "u16 \<Rightarrow> u16" where
  "lower_unit c = (if 0x41 \<le> c \<and> c \<le> 0x5A then c - 0x41 + 0x61 else c)"

text \<open>The loop that drops trailing separators, down to one character.\<close>

fun drop_trailing_separators :: "wstr \<Rightarrow> wstr" where
  "drop_trailing_separators [] = []"
| "drop_trailing_separators [c] = [c]"
| "drop_trailing_separators (c # d # cs) =
     (if is_slash (last (d # cs)) then drop_trailing_separators (butlast (c # d # cs)) else c # d # cs)"

declare drop_trailing_separators.simps(3) [simp del]

definition canonical_path :: "wstr \<Rightarrow> wstr" where
  "canonical_path p =
     map (\<lambda>c. lower_unit (if c = slash then backslash else c))
       (drop_trailing_separators (strip_extended_prefix p))"

definition same_path :: "path \<Rightarrow> path \<Rightarrow> bool" where
  "same_path left right \<longleftrightarrow> canonical_path left = canonical_path right"

section \<open>Scan patterns\<close>

text \<open>The loop that splits a pattern at its first wildcard component: what comes before and after, and
  whether one was seen.\<close>

fun split_pattern :: "bool \<Rightarrow> path \<Rightarrow> path \<Rightarrow> path list \<Rightarrow> bool \<times> path \<times> path" where
  "split_pattern seen before after [] = (seen, before, after)"
| "split_pattern seen before after (part # parts) =
     (if \<not> seen \<and> part = wildcard then split_pattern True before after parts
      else if seen then split_pattern seen before (append_path after part) parts
      else split_pattern seen (append_path before part) after parts)"

definition expand_scan_pattern :: "'w IFileSystem \<Rightarrow> path \<Rightarrow> 'w \<Rightarrow> path list \<times> 'w" where
  "expand_scan_pattern filesystem pattern w =
     (case split_pattern False [] [] (path_elements pattern) of
        (seen_wildcard, before, after) \<Rightarrow>
          if \<not> seen_wildcard then ([pattern], w)
          else
            (case list_directory filesystem before (wide ''*'') w of
               (Inl _, w1) \<Rightarrow> ([], w1)
             | (Inr entries, w1) \<Rightarrow>
                 (map (\<lambda>e. if after = [] then entry_path e else append_path (entry_path e) after)
                    (filter entry_is_directory entries), w1)))"

definition default_scan_patterns :: "'w IFileSystem \<Rightarrow> 'w \<Rightarrow> (error + path list) \<times> 'w" where
  "default_scan_patterns filesystem =
     attempt (expand_environment filesystem (wide ''%LOCALAPPDATA%'')) (\<lambda>local.
     ret (Inr
       [append_path local (wide ''wsl'' @ [backslash] @ wide ''*''),
        append_path local (wide ''Packages'' @ [backslash] @ wide ''*'' @ [backslash] @ wide ''LocalState''),
        append_path local (wide ''Docker'' @ [backslash] @ wide ''wsl'' @ [backslash] @ wide ''*'')]))"

section \<open>The scan\<close>

record orphan =
  orphan_path :: path
  size_on_disk :: "u64 option"

definition is_unclaimed_disk ::
  "directory_entry \<Rightarrow> wstr list \<Rightarrow> wstr list \<Rightarrow> bool \<times> wstr list" where
  "is_unclaimed_disk entry claimed seen =
     (if entry_is_directory entry then (False, seen)
      else if canonical_path (extension (entry_path entry)) \<noteq> wide ''.vhdx'' then (False, seen)
      else
        (let canonical = canonical_path (entry_path entry) in
         if canonical \<in> set claimed then (False, seen)
         else if canonical \<in> set seen then (False, seen)
         else (True, seen @ [canonical])))"

fun collect_unclaimed ::
  "'w IFileSystem \<Rightarrow> directory_entry list \<Rightarrow> wstr list \<Rightarrow> wstr list \<Rightarrow> orphan list \<Rightarrow> 'w \<Rightarrow>
     (wstr list \<times> orphan list) \<times> 'w" where
  "collect_unclaimed filesystem [] claimed seen orphans w = ((seen, orphans), w)"
| "collect_unclaimed filesystem (entry # entries) claimed seen orphans w =
     (case is_unclaimed_disk entry claimed seen of
        (False, seen1) \<Rightarrow> collect_unclaimed filesystem entries claimed seen1 orphans w
      | (True, seen1) \<Rightarrow>
          (case file_size_on_disk filesystem (entry_path entry) w of (size_read, w1) \<Rightarrow>
             collect_unclaimed filesystem entries claimed seen1
               (orphans @ [\<lparr>orphan_path = entry_path entry,
                            size_on_disk = (case size_read of Inl _ \<Rightarrow> None | Inr n \<Rightarrow> Some n)\<rparr>]) w1))"

text \<open>The state of the scan.\<close>

record scan_state =
  scan_seen :: "wstr list"
  scan_orphans :: "orphan list"
  scan_warnings :: "string list"

fun scan_directories ::
  "'w IFileSystem \<Rightarrow> wstr list \<Rightarrow> path list \<Rightarrow> scan_state \<Rightarrow> 'w \<Rightarrow> scan_state \<times> 'w" where
  "scan_directories filesystem claimed [] s w = (s, w)"
| "scan_directories filesystem claimed (directory # directories) s w =
     (case list_directory filesystem directory vhdx_pattern w of
        (Inl e, w1) \<Rightarrow>
          scan_directories filesystem claimed directories
            (s\<lparr>scan_warnings := scan_warnings s @ [error_to_string e]\<rparr>) w1
      | (Inr entries, w1) \<Rightarrow>
          (case collect_unclaimed filesystem entries claimed (scan_seen s) (scan_orphans s) w1 of
             ((seen, orphans), w2) \<Rightarrow>
               scan_directories filesystem claimed directories
                 (s\<lparr>scan_seen := seen, scan_orphans := orphans\<rparr>) w2))"

fun scan_patterns ::
  "'w IFileSystem \<Rightarrow> wstr list \<Rightarrow> path list \<Rightarrow> scan_state \<Rightarrow> 'w \<Rightarrow> scan_state \<times> 'w" where
  "scan_patterns filesystem claimed [] s w = (s, w)"
| "scan_patterns filesystem claimed (pattern # patterns) s w =
     (case expand_scan_pattern filesystem pattern w of (directories, w1) \<Rightarrow>
        (case scan_directories filesystem claimed directories s w1 of (s1, w2) \<Rightarrow>
           scan_patterns filesystem claimed patterns s1 w2))"

definition find_orphans ::
  "'w IFileSystem \<Rightarrow> distro_list \<Rightarrow> path list \<Rightarrow> string list \<Rightarrow> 'w \<Rightarrow>
     (orphan list \<times> string list) \<times> 'w" where
  "find_orphans filesystem l patterns warnings w =
     (let claimed = map (\<lambda>d. canonical_path (vhdx_path d)) (distros l) in
      case scan_patterns filesystem claimed patterns
             \<lparr>scan_seen = [], scan_orphans = [], scan_warnings = warnings\<rparr> w of
        (s, w1) \<Rightarrow> ((scan_orphans s, scan_warnings s), w1))"

section \<open>What the scan promises\<close>

definition canonical_orphans :: "orphan list \<Rightarrow> wstr list" where
  "canonical_orphans os = map (\<lambda>x. canonical_path (orphan_path x)) os"

text \<open>The invariant of the scan: \<open>seen\<close> lists the orphans found so far, each once, none of them
  claimed, all of them disks.\<close>

definition scan_ok :: "wstr list \<Rightarrow> wstr list \<Rightarrow> orphan list \<Rightarrow> bool" where
  "scan_ok claimed seen os \<longleftrightarrow>
     seen = canonical_orphans os \<and> distinct seen \<and> set seen \<inter> set claimed = {} \<and>
     (\<forall>x \<in> set os. canonical_path (extension (orphan_path x)) = wide ''.vhdx'')"

text \<open>The disks of a listing that no distribution claims.\<close>

definition unclaimed :: "wstr list \<Rightarrow> directory_entry list \<Rightarrow> wstr set" where
  "unclaimed claimed entries =
     {c. \<exists>e \<in> set entries. \<not> entry_is_directory e \<and>
           canonical_path (extension (entry_path e)) = wide ''.vhdx'' \<and>
           c = canonical_path (entry_path e) \<and> c \<notin> set claimed}"

lemma unclaimed_simps [simp]:
  "unclaimed claimed [] = {}"
  "unclaimed claimed (e # es) =
     (if entry_is_directory e \<or> canonical_path (extension (entry_path e)) \<noteq> wide ''.vhdx'' \<or>
         canonical_path (entry_path e) \<in> set claimed then {} else {canonical_path (entry_path e)}) \<union>
     unclaimed claimed es"
  by (auto simp: unclaimed_def)

lemma collect_unclaimed_ok:
  assumes "collect_unclaimed fs entries claimed seen os w = ((seen', os'), w')"
    and "scan_ok claimed seen os"
  shows "scan_ok claimed seen' os' \<and> set seen' = set seen \<union> unclaimed claimed entries"
  using assms
proof (induction entries arbitrary: seen os w)
  case (Cons e es)
  show ?case
  proof (cases "is_unclaimed_disk e claimed seen")
    case (Pair new seen1)
    show ?thesis
    proof (cases new)
      case True
      from Cons.prems(1) Pair True obtain n w1 where rest:
        "collect_unclaimed fs es claimed seen1 (os @ [\<lparr>orphan_path = entry_path e, size_on_disk = n\<rparr>]) w1
           = ((seen', os'), w')"
        by (auto split: prod.splits)
      from Pair True have e: "\<not> entry_is_directory e"
        "canonical_path (extension (entry_path e)) = wide ''.vhdx''"
        "canonical_path (entry_path e) \<notin> set claimed" "canonical_path (entry_path e) \<notin> set seen"
        "seen1 = seen @ [canonical_path (entry_path e)]"
        by (auto simp: is_unclaimed_disk_def Let_def split: if_splits)
      then have "scan_ok claimed seen1 (os @ [\<lparr>orphan_path = entry_path e, size_on_disk = n\<rparr>])"
        using Cons.prems(2) by (auto simp: scan_ok_def canonical_orphans_def disjoint_iff)
      from Cons.IH[OF rest this] e show ?thesis by auto
    next
      case False
      with Pair have e: "seen1 = seen"
        "entry_is_directory e \<or> canonical_path (extension (entry_path e)) \<noteq> wide ''.vhdx'' \<or>
         canonical_path (entry_path e) \<in> set claimed \<or> canonical_path (entry_path e) \<in> set seen"
        by (auto simp: is_unclaimed_disk_def Let_def split: if_splits)
      from Cons.prems(1) Pair False have
        "collect_unclaimed fs es claimed seen1 os w = ((seen', os'), w')" by simp
      from Cons.IH[OF this] Cons.prems(2) e show ?thesis by auto
    qed
  qed
qed simp

lemma scan_directories_ok:
  assumes "scan_directories fs claimed ds s w = (s', w')"
    and "scan_ok claimed (scan_seen s) (scan_orphans s)"
  shows "scan_ok claimed (scan_seen s') (scan_orphans s')"
  using assms
proof (induction ds arbitrary: s w)
  case (Cons d ds)
  then show ?case
    by (auto split: prod.splits sum.splits dest!: collect_unclaimed_ok)
qed simp

lemma scan_patterns_ok:
  assumes "scan_patterns fs claimed ps s w = (s', w')"
    and "scan_ok claimed (scan_seen s) (scan_orphans s)"
  shows "scan_ok claimed (scan_seen s') (scan_orphans s')"
  using assms
proof (induction ps arbitrary: s w)
  case (Cons p ps)
  then show ?case
    by (auto split: prod.splits dest!: scan_directories_ok)
qed simp

lemma find_orphans_ok:
  assumes "find_orphans fs l patterns warnings w = ((os, ws), w')"
  shows "scan_ok (map (\<lambda>d. canonical_path (vhdx_path d)) (distros l)) (canonical_orphans os) os"
proof -
  let ?claimed = "map (\<lambda>d. canonical_path (vhdx_path d)) (distros l)"
  let ?s = "\<lparr>scan_seen = [], scan_orphans = [], scan_warnings = warnings\<rparr>"
  obtain s w1 where r: "scan_patterns fs ?claimed patterns ?s w = (s, w1)" by (meson surj_pair)
  have "scan_ok ?claimed (scan_seen s) (scan_orphans s)"
    by (rule scan_patterns_ok[OF r]) (simp add: scan_ok_def canonical_orphans_def)
  with assms show ?thesis by (auto simp: find_orphans_def Let_def r scan_ok_def)
qed

text \<open>C15: whatever the filesystem answers, the scan never reports a disk a distribution claims, never
  reports one disk twice, and reports only files with the extension \<open>.vhdx\<close>; two spellings of a path
  that differ in prefix, case or trailing separators count as one.\<close>

theorem find_orphans_sound:
  "distinct (canonical_orphans (fst (fst (find_orphans fs l patterns warnings w)))) \<and>
   set (canonical_orphans (fst (fst (find_orphans fs l patterns warnings w)))) \<inter>
     (\<lambda>d. canonical_path (vhdx_path d)) ` set (distros l) = {} \<and>
   (\<lambda>x. canonical_path (extension (orphan_path x))) `
     set (fst (fst (find_orphans fs l patterns warnings w))) \<subseteq> {wide ''.vhdx''}"
proof -
  obtain os ws w1 where "find_orphans fs l patterns warnings w = ((os, ws), w1)" by (metis surj_pair)
  with find_orphans_ok[OF this] show ?thesis by (auto simp: scan_ok_def)
qed

section \<open>A filesystem that only answers\<close>

text \<open>The contract of the queries a scan makes: they change no listing.\<close>

locale listing_contract =
  fixes fs :: "'w IFileSystem"
    and listing :: "'w \<Rightarrow> path \<Rightarrow> wstr \<Rightarrow> error + directory_entry list"
  assumes list_directory_reads:
      "list_directory fs d pat w = (r, w') \<Longrightarrow> r = listing w d pat \<and> listing w' = listing w"
    and measure_reads: "file_size_on_disk fs p w = (n, w') \<Longrightarrow> listing w' = listing w"
begin

lemma collect_unclaimed_reads:
  "collect_unclaimed fs es claimed seen os w = (r, w') \<Longrightarrow> listing w' = listing w"
  by (induction es arbitrary: seen os w)
     (auto split: prod.splits bool.splits dest!: measure_reads)

definition found_in :: "'w \<Rightarrow> wstr list \<Rightarrow> path \<Rightarrow> wstr set" where
  "found_in w claimed d =
     (case listing w d vhdx_pattern of Inl _ \<Rightarrow> {} | Inr es \<Rightarrow> unclaimed claimed es)"

definition expands :: "'w \<Rightarrow> path \<Rightarrow> path set" where
  "expands w p = set (fst (expand_scan_pattern fs p w))"

lemma scan_directories_finds:
  assumes "scan_directories fs claimed ds s w = (s', w')"
    and "scan_ok claimed (scan_seen s) (scan_orphans s)"
  shows "listing w' = listing w \<and>
         set (scan_seen s') = set (scan_seen s) \<union> \<Union> (found_in w claimed ` set ds)"
  using assms
proof (induction ds arbitrary: s w)
  case (Cons d ds)
  obtain r w1 where l: "list_directory fs d vhdx_pattern w = (r, w1)" by (meson surj_pair)
  from list_directory_reads[OF l] have r: "r = listing w d vhdx_pattern" "listing w1 = listing w"
    by auto
  show ?case
  proof (cases r)
    case (Inl e)
    with l Cons.prems have
      "scan_directories fs claimed ds (s\<lparr>scan_warnings := scan_warnings s @ [error_to_string e]\<rparr>) w1
         = (s', w')" by simp
    moreover have "listing w d vhdx_pattern = Inl e" using r Inl by simp
    ultimately show ?thesis using Cons.IH Cons.prems(2) r by (auto simp: found_in_def)
  next
    case (Inr es)
    obtain seen os w2 where c:
      "collect_unclaimed fs es claimed (scan_seen s) (scan_orphans s) w1 = ((seen, os), w2)"
      by (metis surj_pair)
    with l Inr Cons.prems have rest:
      "scan_directories fs claimed ds (s\<lparr>scan_seen := seen, scan_orphans := os\<rparr>) w2 = (s', w')"
      by simp
    from collect_unclaimed_ok[OF c Cons.prems(2)]
    have ok: "scan_ok claimed seen os" and u: "set seen = set (scan_seen s) \<union> unclaimed claimed es"
      by auto
    from collect_unclaimed_reads[OF c] r have "listing w2 = listing w" by simp
    moreover have "listing w d vhdx_pattern = Inr es" using r Inr by simp
    ultimately show ?thesis using Cons.IH[OF rest] ok u by (auto simp: found_in_def)
  qed
qed simp

lemma expand_reads:
  assumes "expand_scan_pattern fs p w = (ds, w')"
  shows "listing w' = listing w"
  using assms
  by (auto simp: expand_scan_pattern_def split: prod.splits sum.splits if_splits
      dest: list_directory_reads)

lemma expand_answers:
  "fst (expand_scan_pattern fs p w) =
     (case split_pattern False [] [] (path_elements p) of
        (seen_wildcard, before, after) \<Rightarrow>
          if \<not> seen_wildcard then [p]
          else
            (case listing w before (wide ''*'') of
               Inl _ \<Rightarrow> []
             | Inr entries \<Rightarrow>
                 map (\<lambda>e. if after = [] then entry_path e else append_path (entry_path e) after)
                   (filter entry_is_directory entries)))"
proof -
  obtain seen before after where s:
    "split_pattern False [] [] (path_elements p) = (seen, before, after)" by (metis surj_pair)
  obtain r w1 where l: "list_directory fs before (wide ''*'') w = (r, w1)" by (meson surj_pair)
  from list_directory_reads[OF l] show ?thesis
    by (auto simp: expand_scan_pattern_def s l split: sum.splits)
qed

lemma expands_cong: "listing w' = listing w \<Longrightarrow> expands w' p = expands w p"
  by (simp add: expands_def expand_answers)

lemma found_in_cong: "listing w' = listing w \<Longrightarrow> found_in w' = found_in w"
  by (simp add: found_in_def fun_eq_iff)

lemma scan_patterns_finds:
  assumes "scan_patterns fs claimed ps s w = (s', w')"
    and "scan_ok claimed (scan_seen s) (scan_orphans s)"
  shows "set (scan_seen s') =
           set (scan_seen s) \<union> (\<Union>p \<in> set ps. \<Union> (found_in w claimed ` expands w p))"
  using assms
proof (induction ps arbitrary: s w)
  case (Cons p ps)
  obtain ds w1 where e: "expand_scan_pattern fs p w = (ds, w1)" by (meson surj_pair)
  obtain s2 w2 where d: "scan_directories fs claimed ds s w1 = (s2, w2)" by (meson surj_pair)
  from Cons.prems e d have rest: "scan_patterns fs claimed ps s2 w2 = (s', w')" by simp
  from expand_reads[OF e] scan_directories_finds[OF d Cons.prems(2)]
  have l: "listing w1 = listing w" "listing w2 = listing w"
    and seen: "set (scan_seen s2) = set (scan_seen s) \<union> \<Union> (found_in w1 claimed ` set ds)"
    by auto
  have "expands w p = set ds" by (simp add: expands_def e)
  with Cons.IH[OF rest scan_directories_ok[OF d Cons.prems(2)]] seen
    expands_cong[OF l(2)] found_in_cong[OF l(2)] found_in_cong[OF l(1)]
  show ?case by auto
qed simp

lemma find_orphans_finds:
  "set (canonical_orphans (fst (fst (find_orphans fs l patterns warnings w)))) =
   (\<Union>p \<in> set patterns. \<Union> (found_in w (map (\<lambda>d. canonical_path (vhdx_path d)) (distros l)) ` expands w p))"
proof -
  let ?claimed = "map (\<lambda>d. canonical_path (vhdx_path d)) (distros l)"
  let ?s = "\<lparr>scan_seen = [], scan_orphans = [], scan_warnings = warnings\<rparr>"
  obtain s w1 where r: "scan_patterns fs ?claimed patterns ?s w = (s, w1)" by (meson surj_pair)
  have ok: "scan_ok ?claimed (scan_seen ?s) (scan_orphans ?s)"
    by (simp add: scan_ok_def canonical_orphans_def)
  from scan_patterns_finds[OF r ok] scan_patterns_ok[OF r ok] show ?thesis
    by (auto simp: find_orphans_def Let_def r scan_ok_def)
qed

end

interpretation fake_listing: listing_contract fake_filesystem
  "\<lambda>m d pat. fst (fake_list_directory d pat m)"
  by unfold_locales (auto simp: fake_filesystem_defs fun_eq_iff)

section \<open>A machine the scan leaves alone\<close>

text \<open>The contract of everything a scan asks, the registry included: no answer changes a file.\<close>

locale scan_contract = registry_reader reg files + file_contract fs files key
  for reg :: "'w IRegistry" and fs :: "'w IFileSystem"
    and files :: "'w \<Rightarrow> 'k \<Rightarrow> 'd option" and key :: "path \<Rightarrow> 'k" +
  assumes list_directory_keeps: "list_directory fs d pat w = (r, w') \<Longrightarrow> files w' = files w"
    and expand_environment_keeps: "expand_environment fs p w = (t, w') \<Longrightarrow> files w' = files w"
begin

lemma collect_unclaimed_keeps:
  "collect_unclaimed fs es claimed seen os w = (r, w') \<Longrightarrow> files w' = files w"
  by (induction es arbitrary: seen os w)
     (auto split: prod.splits bool.splits dest!: file_size_on_disk_reads)

lemma scan_directories_keeps:
  "scan_directories fs claimed ds s w = (s', w') \<Longrightarrow> files w' = files w"
proof (induction ds arbitrary: s w)
  case (Cons d ds)
  then show ?case
    by (auto split: prod.splits sum.splits dest!: list_directory_keeps collect_unclaimed_keeps Cons.IH)
qed simp

lemma expand_scan_pattern_keeps: "expand_scan_pattern fs p w = (ds, w') \<Longrightarrow> files w' = files w"
  by (auto simp: expand_scan_pattern_def split: prod.splits sum.splits if_splits dest!: list_directory_keeps)

lemma scan_patterns_keeps: "scan_patterns fs claimed ps s w = (s', w') \<Longrightarrow> files w' = files w"
proof (induction ps arbitrary: s w)
  case (Cons p ps)
  then show ?case
    by (auto split: prod.splits dest!: expand_scan_pattern_keeps scan_directories_keeps Cons.IH)
qed simp

lemma find_orphans_keeps: "find_orphans fs l patterns warnings w = (r, w') \<Longrightarrow> files w' = files w"
  by (auto simp: find_orphans_def Let_def split: prod.splits dest!: scan_patterns_keeps)

lemma default_scan_patterns_keeps: "default_scan_patterns fs w = (r, w') \<Longrightarrow> files w' = files w"
  by (auto simp: default_scan_patterns_def attempt_def ret_def split: prod.splits sum.splits
      dest!: expand_environment_keeps)

end

interpretation fake_scan: scan_contract fake_registry fake_filesystem fake_files id
  by unfold_locales (auto simp: fake_registry_def fake_subkeys_def fake_read_def fake_filesystem_defs)

text \<open>C18: on a filesystem whose answers do not change while it is asked, the scan finds every disk:
  the orphans are, up to spelling, exactly the \<open>.vhdx\<close> files no distribution claims in the readable
  directories the patterns expand to.\<close>

theorem find_orphans_complete:
  assumes "\<And>d pat w. list_directory fs d pat w = (answers d pat, w)"
    and "\<And>p w. snd (file_size_on_disk fs p w) = w"
  shows "set (canonical_orphans (fst (fst (find_orphans fs l patterns warnings w)))) =
    {c. \<exists>p \<in> set patterns. \<exists>d \<in> set (fst (expand_scan_pattern fs p w)). \<exists>es.
          answers d vhdx_pattern = Inr es \<and>
          c \<in> unclaimed (map (\<lambda>d. canonical_path (vhdx_path d)) (distros l)) es}"
proof -
  have c: "listing_contract fs (\<lambda>w. answers)"
    using assms by unfold_locales auto
  have f: "listing_contract.found_in (\<lambda>w. answers) w cl d =
      {c. \<exists>es. answers d vhdx_pattern = Inr es \<and> c \<in> unclaimed cl es}" for cl d
    by (cases "answers d vhdx_pattern") (auto simp: listing_contract.found_in_def[OF c])
  show ?thesis
    unfolding listing_contract.find_orphans_finds[OF c] listing_contract.expands_def[OF c] f by blast
qed

text \<open>A directory with the disk of a distribution, one nobody claims, and a file that only looks like
  one.\<close>

definition sample_directory :: path where
  "sample_directory = wide ''C:'' @ [backslash] @ wide ''wsl''"

definition sample_entries :: "directory_entry list" where
  "sample_entries =
     map (\<lambda>n. \<lparr>entry_path = sample_directory @ [backslash] @ wide n, entry_size = 1,
               entry_is_directory = False\<rparr>) [''ext4.vhdx'', ''Old.VHDX'', ''old.vhdx.bak'']"

definition sample_distro :: distro where
  "sample_distro =
     distro_of None (wide ''{a}'')
       \<lparr>kv_name = Some (wide ''Ubuntu''), kv_base_path = Some (extended_prefix @ sample_directory),
        kv_vhd_file_name = None, kv_flavor = None, kv_os_version = None, kv_version = 2,
        kv_default_uid = 0, kv_flags = 0, kv_state = 0, kv_modern = 0\<rparr>"

definition quiet_filesystem :: "fake_machine IFileSystem" where
  "quiet_filesystem =
     fake_filesystem\<lparr>list_directory := (\<lambda>d pat w. (Inr sample_entries, w))\<rparr>"

theorem find_orphans_complete_witness:
  "canonical_path (sample_directory @ [backslash] @ wide ''old.vhdx'') \<in>
     set (canonical_orphans (fst (fst (find_orphans quiet_filesystem
       \<lparr>distros = [sample_distro], distro_warnings = []\<rparr> [sample_directory] [] sample_machine))))"
proof -
  have l: "\<And>d pat w. list_directory quiet_filesystem d pat w = (Inr sample_entries, w)"
    by (simp add: quiet_filesystem_def)
  have m: "\<And>p w. snd (file_size_on_disk quiet_filesystem p w) = w"
    by (simp add: quiet_filesystem_def fake_filesystem_def fake_query_def)
  have e: "fst (expand_scan_pattern quiet_filesystem sample_directory sample_machine) = [sample_directory]"
    by code_simp
  have "sample_entries ! 1 \<in> set sample_entries" by (simp add: sample_entries_def)
  moreover have "\<not> entry_is_directory (sample_entries ! 1) \<and>
      canonical_path (extension (entry_path (sample_entries ! 1))) = wide ''.vhdx'' \<and>
      canonical_path (sample_directory @ [backslash] @ wide ''old.vhdx'') =
        canonical_path (entry_path (sample_entries ! 1)) \<and>
      canonical_path (sample_directory @ [backslash] @ wide ''old.vhdx'') \<noteq>
        canonical_path (vhdx_path sample_distro)"
    by code_simp
  ultimately have "canonical_path (sample_directory @ [backslash] @ wide ''old.vhdx'') \<in>
      unclaimed [canonical_path (vhdx_path sample_distro)] sample_entries"
    unfolding unclaimed_def by fastforce
  then show ?thesis
    unfolding find_orphans_complete[of quiet_filesystem "\<lambda>d pat. Inr sample_entries", OF l m]
    using e by auto
qed

end
