(* ===== verification/Repoint.thy ===== *)
theory Repoint
  imports Orphans
begin

text \<open>
  What \<open>relink\<close> and \<open>move\<close> share (\<open>src/src/lib/ops/relink.cpp\<close>, \<open>move.cpp\<close>): refusing a running
  distribution, rewriting its registry entry with an undo entry per value, and the smoke test; and
  the lemmas, on the contracts of theory \<open>Contracts\<close>, that carry the proofs of both.
\<close>

section \<open>Shared with the other operations\<close>

definition base_path_value :: wstr where
  "base_path_value = wide ''BasePath''"

definition vhd_file_name_value :: wstr where
  "vhd_file_name_value = wide ''VhdFileName''"

text \<open>The command of the smoke test.\<close>

definition smoke_argv :: "string list" where
  "smoke_argv = [''/bin/sh'', ''-c'', '':'']"

definition wsl1_refusal :: "distro \<Rightarrow> error + 'a" where
  "wsl1_refusal d =
     fail Preflight (distro_name d @ '' is a WSL1 distribution and has no virtual disk'')
       (''convert it with `wsl --set-version '' @ distro_name d @ '' 2`, then try again'')"

text \<open>The running check of \<open>relink\<close> and \<open>move\<close>: a distribution that runs is refused, and so is one
  nobody can tell about.\<close>

definition require_stopped :: "'w IWslHost \<Rightarrow> distro \<Rightarrow> 'w \<Rightarrow> status \<times> 'w" where
  "require_stopped host d w =
     (case running host w of
        (Inl e, w1) \<Rightarrow>
          (fail Preflight
             (''cannot tell whether '' @ distro_name d @ '' is running: '' @ error_to_string e)
             (''run `wsl --terminate '' @ distro_name d @ ''` and try again''), w1)
      | (Inr names, w1) \<Rightarrow>
          if distro_name d \<in> set names then
            (fail DistroBusy (distro_name d @ '' is running'')
               (''run `wsl --terminate '' @ distro_name d @ ''` first''), w1)
          else (Inr (), w1))"

text \<open>Writing one registry value and pushing the entry that writes the previous data back.\<close>

definition write_with_undo ::
  "'w IRegistry \<Rightarrow> wstr \<Rightarrow> wstr \<Rightarrow> wstr \<Rightarrow> wstr \<Rightarrow> string \<Rightarrow> ('w, 'm) undo_state_scheme \<Rightarrow>
     status \<times> ('w, 'm) undo_state_scheme" where
  "write_with_undo registry key v data previous d =
     attempt (on_world (write_string registry key v data)) (\<lambda>_.
     call (undo_push d (returning (write_string registry key v previous))) (\<lambda>_.
     ret (Inr ())))"

section \<open>Reading steps\<close>

lemma require_stopped_running:
  "require_stopped host d w = (r, w') \<Longrightarrow> \<exists>l. running host w = (l, w')"
  by (auto simp: require_stopped_def split: prod.splits sum.splits if_splits)

lemma require_stopped_ok:
  "require_stopped host d w = (Inr u, w') \<Longrightarrow>
     \<exists>names. running host w = (Inr names, w') \<and> distro_name d \<notin> set names"
  by (auto simp: require_stopped_def split: prod.splits sum.splits if_splits)

lemma lengths_differ: "length base_path_value \<noteq> length vhd_file_name_value"
  by (simp add: base_path_value_def vhd_file_name_value_def wide_def)

text \<open>The distribution record agrees with its registry entry: what an operation captured to restore is
  what is there.\<close>

definition recorded :: "('h \<Rightarrow> wstr \<Rightarrow> wstr \<Rightarrow> wstr option) \<Rightarrow> 'h \<Rightarrow> distro \<Rightarrow> bool" where
  "recorded get h d \<longleftrightarrow>
     get h (registry_key_for d) base_path_value = Some (base_path d) \<and>
     (vhd_file_name d \<noteq> [] \<longrightarrow>
        get h (registry_key_for d) vhd_file_name_value = Some (vhd_file_name d))"

text \<open>The registry entry of a distribution after it has been pointed at another base path and file.\<close>

definition repointed ::
  "('h \<Rightarrow> wstr \<Rightarrow> wstr \<Rightarrow> wstr \<Rightarrow> 'h) \<Rightarrow> 'h \<Rightarrow> distro \<Rightarrow> wstr \<Rightarrow> wstr \<Rightarrow> 'h" where
  "repointed put h d base file =
     (let h1 = put h (registry_key_for d) base_path_value base in
      if vhd_file_name d = [] then h1
      else put h1 (registry_key_for d) vhd_file_name_value file)"

context machine
begin

abbreviation view :: "'w \<Rightarrow> ('k \<Rightarrow> 'd option) \<times> 'h" where
  "view \<equiv> disk_view files hive"

lemma view_reads:
  "read_string reg k v w = (found, w') \<Longrightarrow> view w' = view w"
  "exists_path fs p w = (b, w') \<Longrightarrow> view w' = view w"
  "file_size_on_disk fs p w = (n, w') \<Longrightarrow> view w' = view w"
  "get_volume_info fs p w = (vol, w') \<Longrightarrow> view w' = view w"
  "same_volume fs p q w = (b', w') \<Longrightarrow> view w' = view w"
  "create_directories fs p w = (r, w') \<Longrightarrow> view w' = view w"
  "require_stopped host d w = (r, w') \<Longrightarrow> view w' = view w"
  "run_as_root host guest argv t w = (c, w') \<Longrightarrow> view w' = view w"
  by (auto simp: disk_view_def read_string_reads registry_keeps_files(1) file_reads filesystem_keeps_hive
      dest!: require_stopped_running host_keeps)

lemma triple_write_with_undo:
  assumes "get h k v = Some previous"
  shows "triple (stands view v0 told (f, h)) (write_with_undo reg k v data previous d)
           (\<lambda>_. stands view v0 told (f, put h k v data)) (stands view v0 told (f, h))"
  unfolding write_with_undo_def
proof (rule triple_change)
  fix w r w'
  assume w: "view w = (f, h)" and m: "write_string reg k v data w = (r, w')"
  from registry_keeps_files(2)[OF m] w have "files w' = f" by (simp add: disk_view_def)
  with m w show "view w' = (case r of Inl _ \<Rightarrow> (f, h) | Inr _ \<Rightarrow> (f, put h k v data))"
    by (cases rule: write_string_cases[OF m]) (auto simp: disk_view_def)
next
  fix w w'
  assume w: "view w = (f, put h k v data)"
    and u: "returning (write_string reg k v previous) w = (Returned (Inr ()), w')"
  from u obtain r where "write_string reg k v previous w = (r, w')"
    by (auto simp: returning_def split: prod.splits)
  from registry_keeps_files(2)[OF this] w have "files w' = f" by (simp add: disk_view_def)
  with write_string_undo[OF assms _ u] w show "view w' = (f, h)" by (simp add: disk_view_def)
qed

lemma triple_repoint:
  assumes "recorded get h d"
  shows "triple (stands view v0 told (f, h))
    (attempt (write_with_undo reg (registry_key_for d) base_path_value base (base_path d) what) (\<lambda>_.
       if vhd_file_name d = [] then ret (Inr ())
       else write_with_undo reg (registry_key_for d) vhd_file_name_value file (vhd_file_name d) what'))
    (\<lambda>_. stands view v0 told (f, repointed put h d base file))
    (\<lambda>s. \<exists>h'. stands view v0 told (f, h') s)"
proof (rule triple_attempt)
  let ?h1 = "put h (registry_key_for d) base_path_value base"
  show "triple (stands view v0 told (f, h))
      (write_with_undo reg (registry_key_for d) base_path_value base (base_path d) what)
      (\<lambda>_. stands view v0 told (f, ?h1)) (\<lambda>s. \<exists>h'. stands view v0 told (f, h') s)"
    using assms by (intro triple_weaken[OF triple_write_with_undo]) (auto simp: recorded_def)
  show "triple (stands view v0 told (f, ?h1))
      (if vhd_file_name d = [] then ret (Inr ())
       else write_with_undo reg (registry_key_for d) vhd_file_name_value file (vhd_file_name d) what')
      (\<lambda>_. stands view v0 told (f, repointed put h d base file))
      (\<lambda>s. \<exists>h'. stands view v0 told (f, h') s)" for x
  proof (rule triple_if)
    assume e: "vhd_file_name d = []"
    show "triple (stands view v0 told (f, ?h1)) (ret (Inr ()))
        (\<lambda>_. stands view v0 told (f, repointed put h d base file))
        (\<lambda>s. \<exists>h'. stands view v0 told (f, h') s)"
      by (rule triple_ret_Inr) (simp add: repointed_def e)
  next
    assume e: "vhd_file_name d \<noteq> []"
    have "get ?h1 (registry_key_for d) vhd_file_name_value = Some (vhd_file_name d)"
      using assms e get_put_other[OF lengths_differ] by (simp add: recorded_def)
    from triple_write_with_undo[OF this] show "triple (stands view v0 told (f, ?h1))
        (write_with_undo reg (registry_key_for d) vhd_file_name_value file (vhd_file_name d) what')
        (\<lambda>_. stands view v0 told (f, repointed put h d base file))
        (\<lambda>s. \<exists>h'. stands view v0 told (f, h') s)"
      by (rule triple_weaken) (auto simp: repointed_def e)
  qed
qed

lemma get_repointed:
  "get (repointed put h d base file) (registry_key_for d) base_path_value = Some base"
  "vhd_file_name d \<noteq> [] \<Longrightarrow>
     get (repointed put h d base file) (registry_key_for d) vhd_file_name_value = Some file"
  by (simp_all add: repointed_def Let_def get_put get_put_other[OF lengths_differ[symmetric]])

end

text \<open>The guest has been seen to boot while the registry read \<open>h\<close>.\<close>

definition boots_with :: "'w IWslHost \<Rightarrow> ('w \<Rightarrow> 'h) \<Rightarrow> string \<Rightarrow> int \<Rightarrow> 'h \<Rightarrow> bool" where
  "boots_with host hive guest limit h \<longleftrightarrow>
     (\<exists>w result w'. hive w = h \<and> run_as_root host guest smoke_argv limit w = (Inr result, w') \<and>
        succeeded result)"

section \<open>Paths that split and join back\<close>

text \<open>An absolute path on a drive, spelled with backslashes, with no separator doubled before its last
  component: what the shell and the directory scan hand the tool.\<close>

definition plain_path :: "path \<Rightarrow> path \<Rightarrow> bool" where
  "plain_path dir leaf \<longleftrightarrow>
     has_drive_prefix dir \<and> leaf \<noteq> [] \<and> (\<forall>c \<in> set leaf. \<not> is_slash c) \<and> \<not> has_drive_prefix leaf \<and>
     (length dir = 2 \<or>
        (4 \<le> length dir \<and> dir ! 2 = backslash \<and> \<not> is_slash (dir ! 3) \<and> \<not> is_slash (last dir)))"

lemma is_slash_backslash [simp]: "is_slash backslash"
  by (simp add: is_slash_def)

lemma drive_prefix_facts:
  assumes "has_drive_prefix dir"
  obtains c rest where "dir = c # colon # rest" "is_drive_letter c" "\<not> is_slash c"
proof -
  from assms obtain c rest where "dir = c # colon # rest" "is_drive_letter c"
    unfolding has_drive_prefix_def
    by (cases dir rule: list.exhaust[case_product list.exhaust[of "tl dir"]])
       (auto simp: neq_Nil_conv Suc_le_eq)
  moreover from this(2) have "\<not> is_slash c"
    by (auto simp: is_drive_letter_def is_slash_def backslash_def slash_def)
  ultimately show ?thesis using that by blast
qed

lemma root_name_length_drive: "has_drive_prefix p \<Longrightarrow> root_name_length p = 2"
  by (simp add: root_name_length_def has_drive_prefix_def)

lemma root_name_length_name:
  assumes "\<forall>c \<in> set leaf. \<not> is_slash c" and "\<not> has_drive_prefix leaf"
  shows "root_name_length leaf = 0"
  using assms by (auto simp: root_name_length_def)

lemma takeWhile_rev_name:
  assumes "\<forall>c \<in> set leaf. \<not> is_slash c"
  shows "takeWhile (\<lambda>c. \<not> is_slash c) (rev (xs @ backslash # leaf)) = rev leaf"
    and "dropWhile (\<lambda>c. \<not> is_slash c) (rev (xs @ backslash # leaf)) = backslash # rev xs"
proof -
  have n: "\<And>c. c \<in> set (rev leaf) \<Longrightarrow> \<not> is_slash c" using assms by simp
  have r: "rev (xs @ backslash # leaf) = rev leaf @ backslash # rev xs" by simp
  show "takeWhile (\<lambda>c. \<not> is_slash c) (rev (xs @ backslash # leaf)) = rev leaf"
    unfolding r by (subst takeWhile_append2[OF n]) simp_all
  show "dropWhile (\<lambda>c. \<not> is_slash c) (rev (xs @ backslash # leaf)) = backslash # rev xs"
    unfolding r by (subst dropWhile_append2[OF n]) simp_all
qed

lemma plain_path_parts:
  assumes "plain_path dir leaf"
  shows "filename (dir @ backslash # leaf) = leaf"
    and "parent_path (dir @ backslash # leaf) = (if length dir = 2 then dir @ [backslash] else dir)"
proof -
  let ?p = "dir @ backslash # leaf"
  from assms have d: "has_drive_prefix dir" and f: "leaf \<noteq> []" "\<forall>c \<in> set leaf. \<not> is_slash c"
    by (auto simp: plain_path_def)
  from drive_prefix_facts[OF d] obtain c rest where
    dir: "dir = c # colon # rest" and c: "is_drive_letter c" by metis
  have root: "root_name_length ?p = 2"
    by (rule root_name_length_drive) (simp add: has_drive_prefix_def dir c)
  have start: "relative_start ?p = 3"
  proof (cases rest)
    case Nil
    with f show ?thesis
      unfolding relative_start_def root by (cases leaf) (auto simp: dir)
  next
    case (Cons a rest')
    with assms obtain b rest'' where "rest = backslash # b # rest''" "\<not> is_slash b"
      by (cases rest') (auto simp: plain_path_def dir)
    then show ?thesis unfolding relative_start_def root by (simp add: dir)
  qed
  have "filename ?p = leaf \<and> parent_path ?p = (if length dir = 2 then dir @ [backslash] else dir)"
  proof (cases rest)
    case Nil
    have r: "relative_part ?p = leaf" unfolding relative_part_def start by (simp add: dir Nil)
    have n: "\<And>c. c \<in> set (rev leaf) \<Longrightarrow> \<not> is_slash c" using f(2) by simp
    have tw: "takeWhile (\<lambda>c. \<not> is_slash c) (rev leaf) = rev leaf"
      "dropWhile (\<lambda>c. \<not> is_slash c) (rev leaf) = []"
      using n by (auto simp only: takeWhile_eq_all_conv dropWhile_eq_Nil_conv)
    show ?thesis
      unfolding filename_def parent_path_def r root_path_def start tw by (simp add: dir Nil)
  next
    case (Cons a rest')
    with assms obtain b rest'' where rest: "rest = backslash # b # rest''"
      by (cases rest') (auto simp: plain_path_def dir)
    let ?body = "b # rest''"
    have last: "\<not> is_slash (last ?body)"
      using assms by (auto simp: plain_path_def dir rest)
    have r: "relative_part ?p = ?body @ backslash # leaf"
      unfolding relative_part_def start by (simp add: dir rest)
    have "dropWhile is_slash (backslash # rev ?body) = rev ?body"
      using last by (simp add: dropWhile_hd hd_rev del: rev.simps)
    then show ?thesis
      unfolding filename_def parent_path_def r takeWhile_rev_name[OF f(2)] root_path_def start
      by (simp add: dir rest)
  qed
  then show "filename ?p = leaf"
    "parent_path ?p = (if length dir = 2 then dir @ [backslash] else dir)" by simp_all
qed

lemma append_plain_path:
  assumes "plain_path dir leaf"
  shows "append_path (if length dir = 2 then dir @ [backslash] else dir) leaf = dir @ backslash # leaf"
proof -
  from assms have d: "has_drive_prefix dir" and f: "root_name_length leaf = 0" "leaf \<noteq> []"
    "\<forall>c \<in> set leaf. \<not> is_slash c" "\<not> has_drive_prefix leaf"
    by (auto simp: plain_path_def root_name_length_name)
  from f(2,3) have hd: "\<not> is_slash (hd leaf)" by (cases leaf) auto
  have root: "root_name_length dir = 2" "root_name_length (dir @ [backslash]) = 2"
    using d by (auto intro!: root_name_length_drive simp: has_drive_prefix_def nth_append)
  show ?thesis
    using assms f(1,2,4) hd root
    by (auto simp: append_path_def is_absolute_def root_name_def Let_def plain_path_def)
qed

lemma strip_drive_path:
  assumes "has_drive_prefix p"
  shows "strip_extended_prefix p = p" "strip_extended_prefix (extended_prefix @ p) = p"
proof -
  from drive_prefix_facts[OF assms] obtain c rest where p: "p = c # colon # rest" "\<not> is_slash c" by metis
  then have "c \<noteq> backslash" by (auto simp: is_slash_def)
  then show "strip_extended_prefix p = p"
    by (simp add: strip_extended_prefix_def starts_with_def extended_prefix_def
        extended_unc_prefix_def p)
  show "strip_extended_prefix (extended_prefix @ p) = p"
    by (simp add: strip_extended_prefix_def starts_with_def extended_prefix_def
        extended_unc_prefix_def p wide_def colon_def)
qed

end
