(* ===== verification/Relink.thy ===== *)
theory Relink
  imports Repoint
begin

text \<open>
  Repointing a distribution at a disk that has moved (\<open>src/src/lib/ops/relink.h\<close>, \<open>relink.cpp\<close>).
  The members of \<open>RelinkOperation\<close> that never change are the record \<open>relink_operation\<close>; the undo
  stack, the world and the progress sink are the state. \<open>path::string()\<close> depends on the machine's
  code page and is the parameter \<open>narrow\<close>; it only reaches messages.
\<close>

section \<open>The operation\<close>

record 'w relink_operation =
  rl_registry :: "'w IRegistry"
  rl_filesystem :: "'w IFileSystem"
  rl_host :: "'w IWslHost"
  rl_distro :: distro
  rl_target :: path
  rl_narrow :: "path \<Rightarrow> string"

definition relink_base_path :: "distro \<Rightarrow> path \<Rightarrow> wstr" where
  "relink_base_path d target =
     (let directory = parent_path target in
      if starts_with (base_path d) extended_prefix then extended_prefix @ directory else directory)"

definition relink_write_step :: "'w relink_operation \<Rightarrow> string" where
  "relink_write_step r =
     ''point '' @ distro_name (rl_distro r) @ '' at '' @ rl_narrow r (rl_target r)"

definition relink_smoke_step :: "'w relink_operation \<Rightarrow> string" where
  "relink_smoke_step r = ''start '' @ distro_name (rl_distro r) @ '' to check the new path works''"

definition relink_plan ::
  "'w relink_operation \<Rightarrow> ('w, 'm) run_state_scheme \<Rightarrow> (error + plan) \<times> ('w, 'm) run_state_scheme" where
  "relink_plan r =
     (let d = rl_distro r in
      if \<not> is_wsl2 d then ret (wsl1_refusal d)
      else call (on_world (exists_path (rl_filesystem r) (rl_target r))) (\<lambda>present.
        if \<not> present then
          ret (fail Preflight (rl_narrow r (rl_target r) @ '' does not exist'')
            ''check the path, or run `wsldisk orphans` to see what was found'')
        else if same_path (vhdx_path d) (rl_target r) then
          ret (fail Preflight (distro_name d @ '' already points at '' @ rl_narrow r (rl_target r))
            ''nothing to do; `wsldisk info` shows where it points'')
        else
          attempt (on_world (require_stopped (rl_host r) d)) (\<lambda>_.
          ret (Inr
            \<lparr>plan_steps =
               [undoable_step (relink_write_step r)
                  (''restore '' @ distro_name d @ CHR 0x27 # ''s registry entry''),
                reading_step (relink_smoke_step r)],
             plan_estimate = no_estimate,
             plan_warnings =
               [\<lparr>warning_message = ''this rewrites the WSL registry entry for the distribution'',
                 warning_remedy = ''it is put back automatically if the distribution fails to start''\<rparr>]\<rparr>))))"

definition relink_rewrite ::
  "'w relink_operation \<Rightarrow> ('w, 'm) undo_state_scheme \<Rightarrow> status \<times> ('w, 'm) undo_state_scheme" where
  "relink_rewrite r =
     (let d = rl_distro r; key = registry_key_for d in
      attempt (write_with_undo (rl_registry r) key base_path_value
                 (relink_base_path d (rl_target r)) (base_path d)
                 (''restore '' @ distro_name d @ CHR 0x27 # ''s BasePath'')) (\<lambda>_.
      if vhd_file_name d = [] then ret (Inr ())
      else
        write_with_undo (rl_registry r) key vhd_file_name_value
          (filename (rl_target r)) (vhd_file_name d)
          (''restore '' @ distro_name d @ CHR 0x27 # ''s VhdFileName'')))"

definition relink_smoke_test ::
  "'w relink_operation \<Rightarrow> ('w, 'm) run_state_scheme \<Rightarrow> status \<times> ('w, 'm) run_state_scheme" where
  "relink_smoke_test r =
     attempt (on_world (run_as_root (rl_host r) (distro_name (rl_distro r)) smoke_argv 60000)) (\<lambda>started.
     if \<not> succeeded started then
       ret (fail Preflight
         (distro_name (rl_distro r) @ '' did not start from '' @ rl_narrow r (rl_target r))
         ''the registry entry has been put back; check the path names the right disk'')
     else ret (Inr ()))"

definition relink_execute ::
  "'w relink_operation \<Rightarrow> ('w, 'm) undo_state_scheme \<Rightarrow> (error + report) \<times> ('w, 'm) undo_state_scheme" where
  "relink_execute r =
     (let write = mutating_step (relink_write_step r); smoke = reading_step (relink_smoke_step r) in
      call (notify (Step_started 0 write)) (\<lambda>_.
      attempt (relink_rewrite r) (\<lambda>_.
      call (notify (Step_finished 0 write)) (\<lambda>_.
      call (notify (Step_started 1 smoke)) (\<lambda>_.
      attempt (relink_smoke_test r) (\<lambda>_.
      call (notify (Step_finished 1 smoke)) (\<lambda>_.
      ret (Inr (add_completed (relink_smoke_step r)
        (add_completed (relink_write_step r) empty_report))))))))))"

definition relink_verify ::
  "'w relink_operation \<Rightarrow> ('w, 'm) run_state_scheme \<Rightarrow> status \<times> ('w, 'm) run_state_scheme" where
  "relink_verify r =
     attempt (on_world (read_string (rl_registry r) (registry_key_for (rl_distro r)) base_path_value)) (\<lambda>written.
     if or_empty written \<noteq> relink_base_path (rl_distro r) (rl_target r) then
       ret (fail Partial
         (distro_name (rl_distro r) @ CHR 0x27 # ''s BasePath is not what was written'')
         ''run `wsldisk info` to see where it points now'')
     else ret (Inr ()))"

definition relink_ioperation :: "'w relink_operation \<Rightarrow> 'w undo_state IOperation" where
  "relink_ioperation r =
     \<lparr>op_plan = relink_plan r, op_execute = (\<lambda>s. Some (relink_execute r s)),
      op_verify = relink_verify r, op_rollback = unwind\<rparr>"

section \<open>Planning, executing, verifying\<close>

definition uses_machine :: "'w relink_operation \<Rightarrow> 'w IRegistry \<Rightarrow> 'w IFileSystem \<Rightarrow> 'w IWslHost \<Rightarrow> bool" where
  "uses_machine r reg fs host \<longleftrightarrow> rl_registry r = reg \<and> rl_filesystem r = fs \<and> rl_host r = host"

context machine
begin

lemma relink_plan_reads:
  assumes "uses_machine r reg fs host" and "relink_plan r s = (planning, s')"
  shows "view (world s') = view (world s) \<and> sink s' = sink s"
proof -
  from assms(1) have r: "rl_registry r = reg" "rl_filesystem r = fs" "rl_host r = host"
    by (auto simp: uses_machine_def)
  show ?thesis
    using assms(2) unfolding relink_plan_def Let_def call_def attempt_def on_world_def r
    by (auto split: if_splits prod.splits sum.splits dest!: view_reads)
qed

lemma relink_plan_ordered:
  assumes "relink_plan r s = (Inr p, s')"
  shows "irreversible_steps_are_last p"
  using assms
  by (auto simp: relink_plan_def Let_def call_def attempt_def on_world_def wsl1_refusal_def
      irreversible_steps_are_last_def undoable_step_def reading_step_def is_irreversible_def
      split: if_splits prod.splits sum.splits)

lemma triple_relink_execute:
  assumes "uses_machine r reg fs host" and "recorded get h (rl_distro r)"
  shows "triple (stands view v0 told (f, h)) (relink_execute r)
    (\<lambda>_. stands view v0 told (f, repointed put h (rl_distro r)
        (relink_base_path (rl_distro r) (rl_target r)) (filename (rl_target r))))
    (\<lambda>s. \<exists>h'. stands view v0 told (f, h') s)"
proof -
  let ?h = "repointed put h (rl_distro r)
        (relink_base_path (rl_distro r) (rl_target r)) (filename (rl_target r))"
  from assms(1) have r: "rl_registry r = reg" "rl_filesystem r = fs" "rl_host r = host"
    by (auto simp: uses_machine_def)
  have smoke: "triple (stands view v0 told (f, ?h)) (relink_smoke_test r)
      (\<lambda>_. stands view v0 told (f, ?h)) (\<lambda>s. \<exists>h'. stands view v0 told (f, h') s)"
    unfolding relink_smoke_test_def r fail_def
    by (intro triple_read_then triple_if triple_rules) (auto dest: view_reads)
  have rewrite: "triple (stands view v0 told (f, h)) (relink_rewrite r)
      (\<lambda>_. stands view v0 told (f, ?h)) (\<lambda>s. \<exists>h'. stands view v0 told (f, h') s)"
    unfolding relink_rewrite_def Let_def r by (rule triple_repoint[OF assms(2)])
  show ?thesis
    unfolding relink_execute_def Let_def
    by (rule triple_notify triple_attempt[OF rewrite] triple_attempt[OF smoke] triple_ret_Inr | assumption)+
qed

lemma relink_execute_booted:
  assumes "uses_machine r reg fs host" and "recorded get (hive (world s)) (rl_distro r)"
    and "undo_entries s = []" and "relink_execute r s = (Inr rep, s')"
  shows "boots_with host hive (distro_name (rl_distro r)) 60000
    (repointed put (hive (world s)) (rl_distro r)
        (relink_base_path (rl_distro r) (rl_target r)) (filename (rl_target r)))"
proof -
  from assms(1) have r: "rl_registry r = reg" "rl_filesystem r = fs" "rl_host r = host"
    by (auto simp: uses_machine_def)
  let ?st = "stands view (view (world s)) (sink s)"
  let ?h = "repointed put (hive (world s)) (rl_distro r)
        (relink_base_path (rl_distro r) (rl_target r)) (filename (rl_target r))"
  from assms(4) obtain u1 s1 u2 s2 u3 s3 u4 s4 u5 s5 where
    steps: "notify (Step_started 0 (mutating_step (relink_write_step r))) s = (u1, s1)"
      "relink_rewrite r s1 = (Inr u2, s2)"
      "notify (Step_finished 0 (mutating_step (relink_write_step r))) s2 = (u3, s3)"
      "notify (Step_started 1 (reading_step (relink_smoke_step r))) s3 = (u4, s4)"
      "relink_smoke_test r s4 = (Inr u5, s5)"
    by (auto simp: relink_execute_def Let_def call_iff attempt_Inr_iff)
  have "?st (files (world s), hive (world s)) s1"
    by (rule stands_notify[OF _ steps(1)]) (use stands_start[OF assms(3), of view] in \<open>simp add: disk_view_def\<close>)
  from triple_InrD[OF triple_repoint[OF assms(2)] this steps(2)[unfolded relink_rewrite_def Let_def r]]
  have "?st (files (world s), ?h) s2" .
  from stands_notify[OF stands_notify[OF this steps(3)] steps(4)]
  have "hive (world s4) = ?h" by (simp add: stands_def disk_view_def)
  with steps(5) show ?thesis
    unfolding relink_smoke_test_def boots_with_def
    by (auto simp: attempt_Inr_iff on_world_def r split: prod.splits if_splits)
qed

text \<open>A ready run: the operation has not started, and knows its distribution's registry entry.\<close>

definition relink_ready :: "'w relink_operation \<Rightarrow> ('w, 'm) undo_state_scheme \<Rightarrow> bool" where
  "relink_ready r s \<longleftrightarrow> undo_entries s = [] \<and> recorded get (hive (world s)) (rl_distro r)"

definition relink_achieved ::
  "'w relink_operation \<Rightarrow> ('w, 'm) undo_state_scheme \<Rightarrow> ('w, 'm) undo_state_scheme \<Rightarrow> bool" where
  "relink_achieved r s s' \<longleftrightarrow>
     (let h = repointed put (hive (world s)) (rl_distro r)
                (relink_base_path (rl_distro r) (rl_target r)) (filename (rl_target r))
      in files (world s') = files (world s) \<and> hive (world s') = h \<and>
         boots_with host hive (distro_name (rl_distro r)) 60000 h)"

lemma relink_plan_keeps_undo:
  "relink_plan r s = (planning, s') \<Longrightarrow> undo_entries s' = undo_entries s"
  by (auto simp: relink_plan_def Let_def call_def attempt_def on_world_def
      split: if_splits prod.splits sum.splits)

lemma relink_verify_reads:
  assumes "uses_machine r reg fs host" and "relink_verify r s = (v, s')"
  shows "view (world s') = view (world s)"
proof -
  from assms(1) have r: "rl_registry r = reg" by (auto simp: uses_machine_def)
  show ?thesis
    using assms(2) unfolding relink_verify_def attempt_def on_world_def r
    by (auto split: if_splits prod.splits sum.splits dest!: view_reads)
qed

lemma relink_contract:
  assumes m: "uses_machine r reg fs host"
  shows "operation_contract (relink_ioperation r) (relink_ready r)
    (\<lambda>s p s1. relink_ready r s1 \<and> files (world s1) = files (world s) \<and> hive (world s1) = hive (world s))
    (put_back view) (relink_achieved r)"
proof (unfold_locales, goal_cases)
  case (1 a b c) then show ?case by (rule put_back_trans)
next
  case (2 s planning s1)
  then show ?case
    using relink_plan_reads[OF m] by (auto simp: relink_ioperation_def intro: put_back_keeps)
next
  case (3 s p s1) then show ?case by (auto simp: relink_ioperation_def dest: relink_plan_ordered)
next
  case (4 s p s1)
  then have "relink_plan r s = (Inr p, s1)" by (simp add: relink_ioperation_def)
  with relink_plan_reads[OF m this] relink_plan_keeps_undo[OF this] 4 show ?case
    by (simp add: relink_ready_def disk_view_def)
next
  case (5 s p s1 e s2)
  then have e: "relink_execute r s1 = (Inl e, s2)" by (simp add: relink_ioperation_def)
  from 5 have "stands view (view (world s1)) (sink s1) (files (world s1), hive (world s1)) s1"
    using stands_start[of s1 view] by (simp add: relink_ready_def disk_view_def)
  with triple_InlD[OF triple_relink_execute[OF m] this e] 5 show ?case
    by (auto simp: relink_ready_def relink_ioperation_def dest: stands_unwind)
next
  case (6 s p s1 r' s2 v s3)
  then have e: "relink_execute r s1 = (Inr r', s2)" and v: "relink_verify r s2 = (v, s3)"
    and ready: "undo_entries s1 = []" "recorded get (hive (world s1)) (rl_distro r)"
    by (auto simp: relink_ioperation_def relink_ready_def)
  from ready have "stands view (view (world s1)) (sink s1) (files (world s1), hive (world s1)) s1"
    using stands_start[of s1 view] by (simp add: disk_view_def)
  from triple_InrD[OF triple_relink_execute[OF m ready(2)] this e]
    relink_execute_booted[OF m ready(2,1) e] relink_verify_reads[OF m v] 6
  show ?case by (auto simp: relink_achieved_def Let_def stands_def disk_view_def)
qed

end

section \<open>The operation as a whole\<close>

text \<open>C8: a run of \<open>relink\<close> always returns. Either the machine is as it was (disks and registry), or
  the sink has been told which undo failed, or the distribution has been repointed and was seen to
  boot with the new entry in place; a run that succeeds has done the last.\<close>

theorem relink_run_outcomes:
  assumes "machine get put reg hive fs files key host" and "uses_machine r reg fs host"
    and "undo_entries s = []" and "recorded get (hive (world s)) (rl_distro r)"
  shows "\<exists>result s'. run_operation (relink_ioperation r) options s = Some (result, s') \<and>
    (let h = repointed put (hive (world s)) (rl_distro r)
               (relink_base_path (rl_distro r) (rl_target r)) (filename (rl_target r));
         pointed = (files (world s') = files (world s) \<and> hive (world s') = h \<and>
           boots_with host hive (distro_name (rl_distro r)) 60000 h)
     in (put_back (disk_view files hive) s s' \<or> pointed) \<and>
        (\<forall>out. result = Inr out \<and> \<not> dry_run options \<longrightarrow> pointed))"
proof -
  have c: "operation_contract (relink_ioperation r) (machine.relink_ready get hive r)
      (\<lambda>s p s1. machine.relink_ready get hive r s1 \<and> files (world s1) = files (world s) \<and>
         hive (world s1) = hive (world s))
      (put_back (disk_view files hive)) (machine.relink_achieved put hive files host r)"
    by (rule machine.relink_contract[OF assms(1,2)])
  have ready: "machine.relink_ready get hive r s"
    using assms(3,4) by (simp add: machine.relink_ready_def[OF assms(1)])
  have "run_operation (relink_ioperation r) options s \<noteq> None"
    by (rule run_operation_returns) (simp add: relink_ioperation_def)
  then obtain result s' where run: "run_operation (relink_ioperation r) options s = Some (result, s')"
    by auto
  have "put_back (disk_view files hive) s s' \<or> machine.relink_achieved put hive files host r s s'"
    by (rule operation_contract.run_restores_or_achieves[OF c ready run])
  moreover have "machine.relink_achieved put hive files host r s s'"
    if "result = Inr out" "\<not> dry_run options" for out
    using operation_contract.run_success_achieves[OF c ready that(2)] run that(1) by blast
  ultimately show ?thesis
    using run by (auto simp: machine.relink_achieved_def[OF assms(1)] Let_def)
qed


section \<open>On a machine in memory\<close>

text \<open>The distribution of \<open>sample_machine\<close>, its disk moved to another directory.\<close>

definition moved_machine :: fake_machine where
  "moved_machine = sample_machine\<lparr>fake_files := (\<lambda>p.
     if p = wide ''C:'' @ [backslash] @ wide ''v'' @ [backslash] @ wide ''ext4.vhdx''
     then Some \<lparr>ff_size = 4096, ff_size_on_disk = 4096, ff_sparse = False, ff_text = []\<rparr> else None)\<rparr>"

definition sample_registered :: distro where
  "sample_registered = hd (distros sample_listing)"

definition sample_relink :: "fake_machine relink_operation" where
  "sample_relink =
     \<lparr>rl_registry = fake_registry, rl_filesystem = fake_filesystem, rl_host = fake_host,
      rl_distro = sample_registered,
      rl_target = wide ''C:'' @ [backslash] @ wide ''v'' @ [backslash] @ wide ''ext4.vhdx'',
      rl_narrow = to_utf8\<rparr>"

definition sample_state :: "fake_machine \<Rightarrow> fake_machine undo_state" where
  "sample_state m = \<lparr>world = m, sink = [], undo_entries = []\<rparr>"

lemma sample_relink_machine: "uses_machine sample_relink fake_registry fake_filesystem fake_host"
  by (simp add: uses_machine_def sample_relink_def)

interpretation relink_on_fakes: operation_contract "relink_ioperation sample_relink"
  "machine.relink_ready hive_get fake_values sample_relink"
  "\<lambda>s p s1. machine.relink_ready hive_get fake_values sample_relink s1 \<and>
     fake_files (world s1) = fake_files (world s) \<and> fake_values (world s1) = fake_values (world s)"
  "put_back (disk_view fake_files fake_values)"
  "machine.relink_achieved hive_put fake_values fake_files fake_host sample_relink"
  by (rule fake_machine.relink_contract[OF sample_relink_machine])

theorem relink_run_outcomes_witness:
  "\<exists>result s'. run_operation (relink_ioperation sample_relink) \<lparr>dry_run = False\<rparr>
       (sample_state moved_machine) = Some (result, s') \<and>
     hive_get (fake_values (world s')) (registry_key_for sample_registered) base_path_value =
       Some (wide ''C:'' @ [backslash] @ wide ''v'')"
proof -
  have rec: "recorded hive_get (fake_values (world (sample_state moved_machine))) (rl_distro sample_relink)"
    unfolding recorded_def by code_simp
  have ok: "\<not> isl (fst (the (run_operation (relink_ioperation sample_relink) \<lparr>dry_run = False\<rparr>
       (sample_state moved_machine))))"
    by code_simp
  have empty: "undo_entries (sample_state moved_machine) = []" by (simp add: sample_state_def)
  from relink_run_outcomes[where options = "\<lparr>dry_run = False\<rparr>", OF fake_machine.machine_axioms sample_relink_machine empty rec]
  obtain result s' where run: "run_operation (relink_ioperation sample_relink) \<lparr>dry_run = False\<rparr>
       (sample_state moved_machine) = Some (result, s')"
    and h: "\<forall>out. result = Inr out \<longrightarrow> fake_values (world s') =
       repointed hive_put (fake_values (world (sample_state moved_machine))) (rl_distro sample_relink)
         (relink_base_path (rl_distro sample_relink) (rl_target sample_relink))
         (filename (rl_target sample_relink))"
    by (auto simp: Let_def)
  from ok run obtain out where "result = Inr out" by (cases result) auto
  with h have "hive_get (fake_values (world s')) (registry_key_for (rl_distro sample_relink)) base_path_value =
      Some (relink_base_path (rl_distro sample_relink) (rl_target sample_relink))"
    by (simp add: fake_machine.get_repointed)
  moreover have "relink_base_path (rl_distro sample_relink) (rl_target sample_relink) =
      wide ''C:'' @ [backslash] @ wide ''v''"
    by code_simp
  ultimately show ?thesis using run by (auto simp: sample_relink_def)
qed


text \<open>A distribution without a recorded file name, pointed at a disk with another name: the entry that
  is written names a different file of that directory.\<close>

lemma relink_legacy_wrong_file:
  "vhdx_path_for (relink_base_path sample_registered
       (wide ''D:'' @ [backslash] @ wide ''disk.vhdx'')) [] =
     wide ''D:'' @ [backslash] @ wide ''ext4.vhdx''"
  by code_simp

text \<open>A target that is itself spelled with the extended prefix gets it twice.\<close>

lemma relink_doubles_prefix:
  "relink_base_path (sample_registered\<lparr>base_path := extended_prefix @ wide ''C:'' @ [backslash]\<rparr>)
       (extended_prefix @ wide ''D:'' @ [backslash] @ wide ''v'' @ [backslash] @ wide ''d.vhdx'') =
     extended_prefix @ extended_prefix @ wide ''D:'' @ [backslash] @ wide ''v''"
  by code_simp

end
