(* ===== verification/Move.thy ===== *)
theory Move
  imports Relink Size
begin

text \<open>
  Moving a distribution's disk (\<open>src/src/lib/ops/move.h\<close>, \<open>move.cpp\<close>): the constant members of
  \<open>MoveOperation\<close> are the record \<open>move_operation\<close>; what \<open>plan\<close> finds out (\<open>size_\<close>,
  \<open>same_volume_\<close>) joins the undo stack, the world and the sink in the state. \<open>narrow\<close> is
  \<open>path::string()\<close>, which only reaches messages.
\<close>

section \<open>The operation\<close>

definition free_space_margin :: u64 where
  "free_space_margin = 64 * 1024 * 1024"

record move_options =
  keep_source :: bool

record 'w move_operation =
  mv_registry :: "'w IRegistry"
  mv_filesystem :: "'w IFileSystem"
  mv_host :: "'w IWslHost"
  mv_distro :: distro
  mv_destination :: path
  mv_options :: move_options
  mv_narrow :: "path \<Rightarrow> string"

record 'w move_state = "'w undo_state" +
  move_size :: u64
  is_same_volume :: bool

definition move_start :: "'w \<Rightarrow> sink_event list \<Rightarrow> 'w move_state" where
  "move_start w told =
     \<lparr>world = w, sink = told, undo_entries = [], move_size = 0, is_same_volume = False\<rparr>"

text \<open>\<open>target_\<close>: the file keeps its name.\<close>

definition move_target :: "'w move_operation \<Rightarrow> path" where
  "move_target m = append_path (mv_destination m) (filename (vhdx_path (mv_distro m)))"

definition move_base_path :: "'w move_operation \<Rightarrow> wstr" where
  "move_base_path m =
     (if starts_with (base_path (mv_distro m)) extended_prefix
      then extended_prefix @ mv_destination m else mv_destination m)"

definition was_renamed :: "'w move_operation \<Rightarrow> ('w, 'm) move_state_scheme \<Rightarrow> bool" where
  "was_renamed m s \<longleftrightarrow> is_same_volume s \<and> \<not> keep_source (mv_options m)"

section \<open>Planning\<close>

definition move_transfer_step :: "'w move_operation \<Rightarrow> ('w, 'm) move_state_scheme \<Rightarrow> string" where
  "move_transfer_step m s =
     (if was_renamed m s then ''move '' else ''copy '') @ mv_narrow m (vhdx_path (mv_distro m)) @
     '' to '' @ mv_narrow m (move_target m)"

definition move_repoint_step :: "'w move_operation \<Rightarrow> string" where
  "move_repoint_step m =
     ''point '' @ distro_name (mv_distro m) @ '' at '' @ mv_narrow m (move_target m)"

definition move_smoke_step :: "'w move_operation \<Rightarrow> string" where
  "move_smoke_step m = ''start '' @ distro_name (mv_distro m) @ '' to check the new path works''"

definition move_delete_step :: "'w move_operation \<Rightarrow> string" where
  "move_delete_step m = ''delete '' @ mv_narrow m (vhdx_path (mv_distro m))"

definition move_deletes :: "'w move_operation \<Rightarrow> ('w, 'm) move_state_scheme \<Rightarrow> bool" where
  "move_deletes m s \<longleftrightarrow> \<not> was_renamed m s \<and> \<not> keep_source (mv_options m)"

text \<open>The room a copy needs at the destination; the sum is the 64-bit sum of the code.\<close>

definition require_room :: "'w move_operation \<Rightarrow> u64 \<Rightarrow> 'w \<Rightarrow> status \<times> 'w" where
  "require_room m occupied =
     attempt (get_volume_info (mv_filesystem m) (mv_destination m)) (\<lambda>volume.
     if \<not> supports_vhdx volume then
       ret (fail Preflight
         (mv_narrow m (mv_destination m) @ '' is '' @ filesystem_name volume @
          '', which cannot hold a virtual disk'')
         ''FAT and exFAT support neither sparse files nor files over 4 GB; use an NTFS or ReFS volume'')
     else if free_bytes volume < occupied + free_space_margin then
       ret (fail Preflight
         (mv_narrow m (mv_destination m) @ '' has '' @ format_size (free_bytes volume) @
          '' free and the disk occupies '' @ format_size occupied)
         ''free some space on the target volume, or `wsldisk compact` the disk first'')
     else ret (Inr ()))"

definition move_planned :: "'w move_operation \<Rightarrow> ('w, 'm) move_state_scheme \<Rightarrow> plan" where
  "move_planned m s =
     (let d = mv_distro m in
      \<lparr>plan_steps =
         [undoable_step (move_transfer_step m s) (''remove '' @ mv_narrow m (move_target m)),
          undoable_step (move_repoint_step m)
            (''restore '' @ distro_name d @ CHR 0x27 # ''s registry entry''),
          reading_step (move_smoke_step m)] @
         (if move_deletes m s then [mutating_step (move_delete_step m)] else []),
       plan_estimate = no_estimate,
       plan_warnings =
         [\<lparr>warning_message =
             distro_name d @ CHR 0x27 # ''s registry entry will point at the new location'',
           warning_remedy = ''it is put back automatically if the distribution fails to start''\<rparr>] @
         (if move_deletes m s then
            [\<lparr>warning_message =
                ''the original disk is deleted once the distribution has started from the copy'',
              warning_remedy = ''pass --keep-source to leave it in place''\<rparr>]
          else [])\<rparr>)"

definition move_plan ::
  "'w move_operation \<Rightarrow> ('w, 'm) move_state_scheme \<Rightarrow> (error + plan) \<times> ('w, 'm) move_state_scheme" where
  "move_plan m =
     (let d = mv_distro m; fs = mv_filesystem m in
      if \<not> is_wsl2 d then ret (wsl1_refusal d)
      else call (on_world (exists_path fs (vhdx_path d))) (\<lambda>present.
        if \<not> present then
          ret (fail Preflight
            (distro_name d @ CHR 0x27 # ''s disk is not at '' @ mv_narrow m (vhdx_path d))
            (''`wsldisk relink '' @ distro_name d @ '' <path>` repoints it if the file has already moved''))
        else if same_path (vhdx_path d) (move_target m) then
          ret (fail Preflight (distro_name d @ '' is already at '' @ mv_narrow m (move_target m))
            ''nothing to do; `wsldisk info` shows where it is'')
        else call (on_world (exists_path fs (move_target m))) (\<lambda>taken.
          if taken then
            ret (fail Preflight (mv_narrow m (move_target m) @ '' already exists'')
              ''move it aside, or choose a different directory'')
          else
            attempt (on_world (require_stopped (mv_host m) d)) (\<lambda>_.
            attempt (on_world (same_volume fs (vhdx_path d) (mv_destination m))) (\<lambda>same.
            call (\<lambda>s. ((), s\<lparr>is_same_volume := same\<rparr>)) (\<lambda>_.
            attempt (on_world (file_size_on_disk fs (vhdx_path d))) (\<lambda>occupied.
            call (\<lambda>s. ((), s\<lparr>move_size := occupied\<rparr>)) (\<lambda>_.
            attempt (\<lambda>s. if was_renamed m s then (Inr (), s)
                         else on_world (require_room m occupied) s) (\<lambda>_.
            (\<lambda>s. (Inr (move_planned m s), s)))))))))))"

section \<open>Executing\<close>

text \<open>The copy, whose progress goes to the sink. A copy that failed is removed again; what the removal
  says is dropped.\<close>

definition copy_disk ::
  "'w move_operation \<Rightarrow> ('w, 'm) move_state_scheme \<Rightarrow> status \<times> ('w, 'm) move_state_scheme" where
  "copy_disk m s =
     (case copy_file_sparse (mv_filesystem m) (vhdx_path (mv_distro m)) (move_target m)
             (\<lambda>_ _. True) (world s) of
        ((r, marks), w1) \<Rightarrow>
          (let s1 = s\<lparr>world := w1,
                      sink := sink s @ map (\<lambda>(copied, bytes).
                        Step_progress \<lparr>progress_current = copied, progress_total = bytes\<rparr>) marks\<rparr>
           in (case r of
                 Inl e \<Rightarrow>
                   (case remove_file (mv_filesystem m) (move_target m) (world s1) of
                      (_, w2) \<Rightarrow> (Inl e, s1\<lparr>world := w2\<rparr>))
               | Inr _ \<Rightarrow> (Inr (), s1))))"

definition transfer ::
  "'w move_operation \<Rightarrow> ('w, 'm) move_state_scheme \<Rightarrow> status \<times> ('w, 'm) move_state_scheme" where
  "transfer m =
     (let fs = mv_filesystem m; source = vhdx_path (mv_distro m); target = move_target m in
      attempt (on_world (create_directories fs (mv_destination m))) (\<lambda>_ s.
        if was_renamed m s then
          attempt (on_world (rename_file fs source target)) (\<lambda>_.
          call (undo_push (''move '' @ mv_narrow m target @ '' back to '' @ mv_narrow m source)
                 (returning (rename_file fs target source))) (\<lambda>_.
          ret (Inr ()))) s
        else
          attempt (copy_disk m) (\<lambda>_.
          call (undo_push (''remove '' @ mv_narrow m target)
                 (returning (remove_file fs target))) (\<lambda>_.
          ret (Inr ()))) s))"

definition repoint ::
  "'w move_operation \<Rightarrow> ('w, 'm) move_state_scheme \<Rightarrow> status \<times> ('w, 'm) move_state_scheme" where
  "repoint m =
     (let d = mv_distro m; key = registry_key_for d in
      attempt (write_with_undo (mv_registry m) key base_path_value (move_base_path m) (base_path d)
                 (''restore '' @ distro_name d @ CHR 0x27 # ''s BasePath'')) (\<lambda>_.
      if vhd_file_name d = [] then ret (Inr ())
      else
        write_with_undo (mv_registry m) key vhd_file_name_value
          (filename (move_target m)) (vhd_file_name d)
          (''restore '' @ distro_name d @ CHR 0x27 # ''s VhdFileName'')))"

definition prove_it_boots ::
  "'w move_operation \<Rightarrow> ('w, 'm) move_state_scheme \<Rightarrow> status \<times> ('w, 'm) move_state_scheme" where
  "prove_it_boots m =
     attempt (on_world (run_as_root (mv_host m) (distro_name (mv_distro m)) smoke_argv 120000)) (\<lambda>started.
     if \<not> succeeded started then
       ret (fail Preflight
         (distro_name (mv_distro m) @ '' did not start from '' @ mv_narrow m (move_target m))
         ''the registry entry has been put back and the original disk is untouched'')
     else ret (Inr ()))"

text \<open>The last step: the source goes, or a message says that it did not.\<close>

definition delete_source ::
  "'w move_operation \<Rightarrow> nat \<Rightarrow> report \<Rightarrow> ('w, 'm) move_state_scheme \<Rightarrow> report \<times> ('w, 'm) move_state_scheme" where
  "delete_source m index r =
     (let cleanup = mutating_step (move_delete_step m); source = vhdx_path (mv_distro m) in
      call (notify (Step_started index cleanup)) (\<lambda>_.
      call (on_world (remove_file (mv_filesystem m) source)) (\<lambda>removed.
      case removed of
        Inl e \<Rightarrow>
          call (notify (Sink_message
            (mv_narrow m source @ '' could not be deleted: '' @ err_message e))) (\<lambda>_.
          call (notify (Sink_message
            ''the move succeeded; the old file can be removed by hand'')) (\<lambda>_.
          ret r))
      | Inr _ \<Rightarrow>
          call (notify (Step_finished index cleanup)) (\<lambda>_.
          ret (add_completed (move_delete_step m) r)))))"

definition move_execute ::
  "'w move_operation \<Rightarrow> ('w, 'm) move_state_scheme \<Rightarrow> (error + report) \<times> ('w, 'm) move_state_scheme" where
  "move_execute m s =
     (let moving = mutating_step (move_transfer_step m s);
          pointing = mutating_step (move_repoint_step m);
          smoke = reading_step (move_smoke_step m);
          done3 = add_completed (move_smoke_step m) (add_completed (move_repoint_step m)
                    (add_completed (move_transfer_step m s) empty_report))
      in
      call (notify (Step_started 0 moving)) (\<lambda>_.
      attempt (transfer m) (\<lambda>_.
      call (notify (Step_finished 0 moving)) (\<lambda>_.
      call (notify (Step_started 1 pointing)) (\<lambda>_.
      attempt (repoint m) (\<lambda>_.
      call (notify (Step_finished 1 pointing)) (\<lambda>_.
      call (notify (Step_started 2 smoke)) (\<lambda>_.
      attempt (prove_it_boots m) (\<lambda>_.
      call (notify (Step_finished 2 smoke)) (\<lambda>_.
      if move_deletes m s then call (delete_source m 3 done3) (\<lambda>r. ret (Inr r))
      else ret (Inr done3)))))))))) s)"

definition move_verify ::
  "'w move_operation \<Rightarrow> ('w, 'm) move_state_scheme \<Rightarrow> status \<times> ('w, 'm) move_state_scheme" where
  "move_verify m =
     call (on_world (exists_path (mv_filesystem m) (move_target m))) (\<lambda>present.
     if \<not> present then
       ret (fail Partial (mv_narrow m (move_target m) @ '' is not there after the move'')
         ''run `wsldisk info` to see where the distribution points'')
     else
       attempt (on_world (read_string (mv_registry m) (registry_key_for (mv_distro m)) base_path_value)) (\<lambda>written.
       if or_empty written \<noteq> move_base_path m then
         ret (fail Partial
           (distro_name (mv_distro m) @ CHR 0x27 # ''s BasePath is not what was written'')
           ''run `wsldisk info` to see where it points now'')
       else ret (Inr ())))"

definition move_ioperation :: "'w move_operation \<Rightarrow> 'w move_state IOperation" where
  "move_ioperation m =
     \<lparr>op_plan = move_plan m, op_execute = (\<lambda>s. Some (move_execute m s)),
      op_verify = move_verify m, op_rollback = unwind\<rparr>"

section \<open>Planning reads\<close>

definition moves_on :: "'w move_operation \<Rightarrow> 'w IRegistry \<Rightarrow> 'w IFileSystem \<Rightarrow> 'w IWslHost \<Rightarrow> bool" where
  "moves_on m reg fs host \<longleftrightarrow> mv_registry m = reg \<and> mv_filesystem m = fs \<and> mv_host m = host"

lemma move_plan_ordered:
  fixes s s' :: "('w, 'm) move_state_scheme"
  assumes "move_plan m s = (Inr p, s')"
  shows "irreversible_steps_are_last p"
proof -
  from assms have "\<exists>t :: ('w, 'm) move_state_scheme. p = move_planned m t"
    by (auto simp: move_plan_def Let_def call_def attempt_def fail_def wsl1_refusal_def
        split: if_splits prod.splits sum.splits)
  then show ?thesis
    by (auto simp: move_planned_def Let_def irreversible_steps_are_last_def undoable_step_def
        reading_step_def mutating_step_def is_irreversible_def)
qed

text \<open>What the files are once the disk has been put at the target.\<close>

definition transferred :: "bool \<Rightarrow> 'k \<Rightarrow> 'k \<Rightarrow> ('k \<Rightarrow> 'd option) \<Rightarrow> 'k \<Rightarrow> 'd option" where
  "transferred renamed source target f =
     (if renamed then f(source := None, target := f source) else f(target := f source))"

text \<open>The registry after the entry has been pointed at the target.\<close>

definition move_hive ::
  "('h \<Rightarrow> wstr \<Rightarrow> wstr \<Rightarrow> wstr \<Rightarrow> 'h) \<Rightarrow> 'w move_operation \<Rightarrow> 'h \<Rightarrow> 'h" where
  "move_hive put m h = repointed put h (mv_distro m) (move_base_path m) (filename (move_target m))"

text \<open>The filesystem may refuse to remove a file.\<close>

definition removal_refused :: "'w IFileSystem \<Rightarrow> path \<Rightarrow> bool" where
  "removal_refused fs p \<longleftrightarrow> (\<exists>w e w'. remove_file fs p w = (Inl e, w'))"

lemma removal_refusedI: "remove_file fs p w = (Inl e, w') \<Longrightarrow> removal_refused fs p"
  by (auto simp: removal_refused_def)

text \<open>What a successful move has done: the disk is at the target, which was free; the registry points
  there; the guest was seen to boot with that entry; and the source is gone exactly when it should
  be, or the filesystem refused to remove it.\<close>

definition move_achieved ::
  "('h \<Rightarrow> wstr \<Rightarrow> wstr \<Rightarrow> wstr \<Rightarrow> 'h) \<Rightarrow> ('w \<Rightarrow> 'h) \<Rightarrow> 'w IFileSystem \<Rightarrow> ('w \<Rightarrow> 'k \<Rightarrow> 'd option) \<Rightarrow>
     (path \<Rightarrow> 'k) \<Rightarrow> 'w IWslHost \<Rightarrow> 'w move_operation \<Rightarrow> 'w move_state \<Rightarrow> 'w move_state \<Rightarrow> bool" where
  "move_achieved put hive fs files key host m s s' \<longleftrightarrow>
     (\<exists>renamed.
        files (world s) (key (vhdx_path (mv_distro m))) \<noteq> None \<and>
        files (world s) (key (move_target m)) = None \<and>
        hive (world s') = move_hive put m (hive (world s)) \<and>
        boots_with host hive (distro_name (mv_distro m)) 120000 (hive (world s')) \<and>
        (let f = transferred renamed (key (vhdx_path (mv_distro m))) (key (move_target m)) (files (world s)) in
         if renamed \<or> keep_source (mv_options m) then files (world s') = f
         else files (world s') = f(key (vhdx_path (mv_distro m)) := None) \<or>
           (files (world s') = f \<and> removal_refused fs (vhdx_path (mv_distro m)))))"

text \<open>What a failed move leaves: everything as it was, except perhaps a target that could not be
  removed; or a report of the undo that failed.\<close>

definition move_restored ::
  "('w \<Rightarrow> 'h) \<Rightarrow> 'w IFileSystem \<Rightarrow> ('w \<Rightarrow> 'k \<Rightarrow> 'd option) \<Rightarrow> (path \<Rightarrow> 'k) \<Rightarrow>
     'w move_operation \<Rightarrow> 'w move_state \<Rightarrow> 'w move_state \<Rightarrow> bool" where
  "move_restored hive fs files key m s s' \<longleftrightarrow>
     (\<exists>events. sink s' = sink s @ events \<and>
        (reports_failure events \<or>
         (hive (world s') = hive (world s) \<and>
          (\<exists>x. files (world s') = (files (world s))(key (move_target m) := x) \<and>
             (x = files (world s) (key (move_target m)) \<or> removal_refused fs (move_target m))))))"

context machine
begin

lemma require_room_reads:
  assumes "moves_on m reg fs host" and "require_room m n w = (r, w')"
  shows "view w' = view w"
proof -
  from assms(1) have m: "mv_filesystem m = fs" by (simp add: moves_on_def)
  show ?thesis
    using assms(2) unfolding require_room_def attempt_def m
    by (auto split: if_splits prod.splits sum.splits dest!: view_reads)
qed

lemma move_plan_reads:
  assumes "moves_on m reg fs host" and "move_plan m s = (r, s')"
  shows "view (world s') = view (world s) \<and> sink s' = sink s \<and> undo_entries s' = undo_entries s"
proof -
  from assms(1) have m: "mv_registry m = reg" "mv_filesystem m = fs" "mv_host m = host"
    by (auto simp: moves_on_def)
  show ?thesis
    using assms(2) unfolding move_plan_def Let_def call_def attempt_def on_world_def m
    by (auto split: if_splits prod.splits sum.splits
        dest!: view_reads require_room_reads[OF assms(1)])
qed

lemma move_plan_target_free:
  assumes "moves_on m reg fs host" and "move_plan m s = (Inr p, s')"
  shows "files (world s') (key (move_target m)) = None"
proof -
  from assms(1) have m: "mv_registry m = reg" "mv_filesystem m = fs" "mv_host m = host"
    by (auto simp: moves_on_def)
  have "\<exists>w b w0. exists_path fs (move_target m) w = (False, w0) \<and>
      exists_path fs (vhdx_path (mv_distro m)) (world s) = (b, w)"
    using assms(2) unfolding move_plan_def Let_def call_def attempt_def on_world_def m
    by (auto simp: fail_def wsl1_refusal_def split: if_splits prod.splits sum.splits)
  then obtain w b w0 where "exists_path fs (move_target m) w = (False, w0)"
    "exists_path fs (vhdx_path (mv_distro m)) (world s) = (b, w)" by blast
  from exists_present[OF this(1)] exists_reads[OF this(2)] move_plan_reads[OF assms]
  show ?thesis by (simp add: disk_view_def)
qed

text \<open>A fresh run of \<open>move\<close>, past its plan: nothing to undo yet, the registry entry is known and the
  target is free.\<close>

definition move_ready :: "'w move_operation \<Rightarrow> 'w move_state \<Rightarrow> bool" where
  "move_ready m s \<longleftrightarrow> undo_entries s = [] \<and> recorded get (hive (world s)) (mv_distro m)"

abbreviation source_key :: "'w move_operation \<Rightarrow> 'k" where
  "source_key m \<equiv> key (vhdx_path (mv_distro m))"

abbreviation target_key :: "'w move_operation \<Rightarrow> 'k" where
  "target_key m \<equiv> key (move_target m)"

text \<open>Where a failed copy leaves the machine: the registry and every file but the target as they were;
  the target too, unless the filesystem refused to remove it.\<close>

definition copy_left ::
  "'w move_operation \<Rightarrow> sink_event list \<Rightarrow> ('k \<Rightarrow> 'd option) \<Rightarrow> 'h \<Rightarrow> ('w, 'm) undo_state_scheme \<Rightarrow> bool" where
  "copy_left m told f h s \<longleftrightarrow>
     undo_entries s = [] \<and> hive (world s) = h \<and> (\<exists>events. sink s = told @ events) \<and>
     (\<exists>x. files (world s) = f(target_key m := x) \<and>
        (x = f (target_key m) \<or> removal_refused fs (move_target m)))"

lemma triple_rename_route:
  assumes "f (target_key m) = None"
  shows "triple (stands view v0 told (f, h))
    (attempt (on_world (rename_file fs (vhdx_path (mv_distro m)) (move_target m))) (\<lambda>_.
       call (undo_push d (returning (rename_file fs (move_target m) (vhdx_path (mv_distro m))))) (\<lambda>_.
       ret (Inr ()))))
    (\<lambda>_. stands view v0 told (transferred True (source_key m) (target_key m) f, h))
    (stands view v0 told (f, h))"
proof (rule triple_change)
  fix w r w'
  assume w: "view w = (f, h)"
    and r: "rename_file fs (vhdx_path (mv_distro m)) (move_target m) w = (r, w')"
  from filesystem_keeps_hive(7)[OF r] w have h: "hive w' = h" by (simp add: disk_view_def)
  show "view w' = (case r of Inl _ \<Rightarrow> (f, h)
      | Inr _ \<Rightarrow> (transferred True (source_key m) (target_key m) f, h))"
  proof (cases r)
    case (Inl e)
    with rename_fails r w h show ?thesis by (simp add: disk_view_def)
  next
    case (Inr u)
    with rename_ok r w h show ?thesis
      by (fastforce simp: disk_view_def transferred_def)
  qed
next
  fix w w'
  assume w: "view w = (transferred True (source_key m) (target_key m) f, h)"
    and u: "returning (rename_file fs (move_target m) (vhdx_path (mv_distro m))) w =
      (Returned (Inr ()), w')"
  from u have r: "rename_file fs (move_target m) (vhdx_path (mv_distro m)) w = (Inr (), w')"
    by (auto simp: returning_def split: prod.splits)
  from filesystem_keeps_hive(7)[OF r] w have "hive w' = h" by (simp add: disk_view_def)
  moreover from rename_ok[OF r] w obtain d where "f (source_key m) = Some d"
    by (auto simp: disk_view_def transferred_def split: if_splits)
  then have "files w' = f"
    using w rename_undo[where f = f and p = "vhdx_path (mv_distro m)" and q = "move_target m", OF _ assms _ u]
    by (simp add: disk_view_def transferred_def)
  ultimately show "view w' = (f, h)" by (simp add: disk_view_def)
qed

lemma triple_copy_route:
  assumes m: "mv_filesystem m = fs" and "f (target_key m) = None"
  shows "triple (\<lambda>s. stands view v0 told (f, h) s \<and> undo_entries s = [])
    (attempt (copy_disk m) (\<lambda>_.
       call (undo_push d (returning (remove_file fs (move_target m)))) (\<lambda>_. ret (Inr ()))))
    (\<lambda>_. stands view v0 told (transferred False (source_key m) (target_key m) f, h))
    (copy_left m told f h)"
proof (rule triple_attempt[OF tripleI triple_push])
  fix s x s'
  assume s: "stands view v0 told (f, h) s \<and> undo_entries s = []" and "copy_disk m s = (Inr x, s')"
  then obtain marks w where
    c: "copy_file_sparse fs (vhdx_path (mv_distro m)) (move_target m) (\<lambda>_ _. True) (world s) =
      ((Inr (), marks), w)"
    and s': "world s' = w" "undo_entries s' = undo_entries s" "\<exists>events. sink s' = sink s @ events"
    by (auto simp: copy_disk_def m Let_def split: prod.splits sum.splits)
  from copy_ok[OF c] filesystem_keeps_hive(8)[OF c] s
  have "view w = (transferred False (source_key m) (target_key m) f, h)"
    by (auto simp: stands_def disk_view_def transferred_def)
  moreover have "\<exists>events. sink s' = told @ events"
    using s s'(3) by (auto simp: stands_def)
  ultimately show "view (world s') = (transferred False (source_key m) (target_key m) f, h) \<and>
      undone view (undo_entries s') (f, h) v0 \<and> (\<exists>events. sink s' = told @ events)"
    using s s' by (auto simp: stands_def)
next
  fix s e s'
  assume s: "stands view v0 told (f, h) s \<and> undo_entries s = []" and "copy_disk m s = (Inl e, s')"
  then obtain marks w r where
    c: "copy_file_sparse fs (vhdx_path (mv_distro m)) (move_target m) (\<lambda>_ _. True) (world s) =
      ((Inl e, marks), w)"
    and r: "remove_file fs (move_target m) w = (r, world s')"
    and s': "undo_entries s' = undo_entries s" "\<exists>events. sink s' = sink s @ events"
    by (auto simp: copy_disk_def m Let_def split: prod.splits sum.splits)
  from s have w: "files (world s) = f" "hive (world s) = h" "\<exists>events. sink s = told @ events"
    by (auto simp: stands_def disk_view_def)
  have "hive (world s') = h"
    using filesystem_keeps_hive(8)[OF c] filesystem_keeps_hive(9)[OF r] w by simp
  moreover have "\<exists>x. files (world s') = f(target_key m := x) \<and>
      (x = f (target_key m) \<or> removal_refused fs (move_target m))"
  proof (cases r)
    case (Inl e')
    with r have "removal_refused fs (move_target m)" by (auto intro: removal_refusedI)
    moreover have "files (world s') = f(target_key m := files w (target_key m))"
      using Inl remove_fails r copy_fails[OF c] w by metis
    ultimately show ?thesis by blast
  next
    case (Inr u)
    with remove_ok r have "files (world s') = (files w)(target_key m := None)" by blast
    also have "\<dots> = f(target_key m := None)" using copy_fails[OF c] w by (metis fun_upd_upd)
    finally show ?thesis using assms(2) by metis
  qed
  ultimately show "copy_left m told f h s'"
    using s s' w(3) by (auto simp: copy_left_def)
next
  fix w w'
  assume w: "view w = (transferred False (source_key m) (target_key m) f, h)"
    and u: "returning (remove_file fs (move_target m)) w = (Returned (Inr ()), w')"
  from u obtain r where "remove_file fs (move_target m) w = (r, w')"
    by (auto simp: returning_def split: prod.splits)
  from filesystem_keeps_hive(9)[OF this] w have "hive w' = h" by (simp add: disk_view_def)
  moreover have "files w' = f"
    using copy_undo[where f = f and x = "f (source_key m)", OF assms(2) _ u] w by (simp add: disk_view_def transferred_def)
  ultimately show "view w' = (f, h)" by (simp add: disk_view_def)
qed

lemma triple_transfer:
  assumes m: "mv_filesystem m = fs" and free: "f (target_key m) = None"
  shows "triple (\<lambda>s. stands view v0 told (f, h) s \<and> undo_entries s = [] \<and> was_renamed m s = renamed)
    (transfer m)
    (\<lambda>_. stands view v0 told (transferred renamed (source_key m) (target_key m) f, h))
    (\<lambda>s. stands view v0 told (f, h) s \<or> copy_left m told f h s)"
  unfolding transfer_def Let_def m
proof (rule triple_attempt)
  let ?P = "\<lambda>s. stands view v0 told (f, h) s \<and> undo_entries s = [] \<and> was_renamed m s = renamed"
  show "triple ?P (on_world (create_directories fs (mv_destination m))) (\<lambda>_. ?P)
      (\<lambda>s. stands view v0 told (f, h) s \<or> copy_left m told f h s)"
    by (rule tripleI)
       (auto simp: was_renamed_def stands_def on_world_def split: prod.splits dest!: view_reads)
next
  let ?P = "\<lambda>s. stands view v0 told (f, h) s \<and> undo_entries s = [] \<and> was_renamed m s = renamed"
  let ?rename = "attempt (on_world (rename_file fs (vhdx_path (mv_distro m)) (move_target m))) (\<lambda>_.
      call (undo_push (''move '' @ mv_narrow m (move_target m) @ '' back to '' @
             mv_narrow m (vhdx_path (mv_distro m)))
             (returning (rename_file fs (move_target m) (vhdx_path (mv_distro m))))) (\<lambda>_. ret (Inr ())))"
  let ?copy = "attempt (copy_disk m) (\<lambda>_.
      call (undo_push (''remove '' @ mv_narrow m (move_target m))
             (returning (remove_file fs (move_target m)))) (\<lambda>_. ret (Inr ())))"
  have "triple ?P (if renamed then ?rename else ?copy)
      (\<lambda>_. stands view v0 told (transferred renamed (source_key m) (target_key m) f, h))
      (\<lambda>s. stands view v0 told (f, h) s \<or> copy_left m told f h s)"
  proof (rule triple_if)
    assume r: "renamed"
    show "triple ?P ?rename
        (\<lambda>_. stands view v0 told (transferred renamed (source_key m) (target_key m) f, h))
        (\<lambda>s. stands view v0 told (f, h) s \<or> copy_left m told f h s)"
      by (rule triple_weaken[OF triple_rename_route[where f = f, OF free]]) (auto simp: r)
  next
    assume r: "\<not> renamed"
    show "triple ?P ?copy
        (\<lambda>_. stands view v0 told (transferred renamed (source_key m) (target_key m) f, h))
        (\<lambda>s. stands view v0 told (f, h) s \<or> copy_left m told f h s)"
      by (rule triple_weaken[OF triple_copy_route[where f = f, OF m free]]) (auto simp: r)
  qed
  then show "triple ?P (\<lambda>s. if was_renamed m s then ?rename s else ?copy s)
      (\<lambda>_. stands view v0 told (transferred renamed (source_key m) (target_key m) f, h))
      (\<lambda>s. stands view v0 told (f, h) s \<or> copy_left m told f h s)" for x
    by (cases renamed) (auto simp: triple_def)
qed

text \<open>Where a failed execution stands: on a stack that leads back, or after a failed copy.\<close>

definition move_failed ::
  "'w move_operation \<Rightarrow> _ \<Rightarrow> sink_event list \<Rightarrow> ('k \<Rightarrow> 'd option) \<Rightarrow> 'h \<Rightarrow>
     ('w, 'm) undo_state_scheme \<Rightarrow> bool" where
  "move_failed m v0 told f h s \<longleftrightarrow> (\<exists>v. stands view v0 told v s) \<or> copy_left m told f h s"

text \<open>The first three steps of an execution: what \<open>move_execute\<close> does before the point of no
  return.\<close>

definition move_steps ::
  "'w move_operation \<Rightarrow> string \<Rightarrow> ('w, 'm) move_state_scheme \<Rightarrow> status \<times> ('w, 'm) move_state_scheme" where
  "move_steps m what =
     call (notify (Step_started 0 (mutating_step what))) (\<lambda>_.
      attempt (transfer m) (\<lambda>_.
      call (notify (Step_finished 0 (mutating_step what))) (\<lambda>_.
      call (notify (Step_started 1 (mutating_step (move_repoint_step m)))) (\<lambda>_.
      attempt (repoint m) (\<lambda>_.
      call (notify (Step_finished 1 (mutating_step (move_repoint_step m)))) (\<lambda>_.
      call (notify (Step_started 2 (reading_step (move_smoke_step m)))) (\<lambda>_.
      attempt (prove_it_boots m) (\<lambda>_.
      call (notify (Step_finished 2 (reading_step (move_smoke_step m)))) (\<lambda>_.
      ret (Inr ()))))))))))"

lemma triple_move_steps:
  assumes on: "moves_on m reg fs host" and rec: "recorded get h (mv_distro m)"
    and free: "f (target_key m) = None"
  shows "triple (\<lambda>s. stands view v0 told (f, h) s \<and> undo_entries s = [] \<and> was_renamed m s = renamed)
    (move_steps m what)
    (\<lambda>_. stands view v0 told (transferred renamed (source_key m) (target_key m) f, move_hive put m h))
    (move_failed m v0 told f h)"
proof -
  from on have m: "mv_registry m = reg" "mv_filesystem m = fs" "mv_host m = host"
    by (auto simp: moves_on_def)
  let ?P = "\<lambda>s. stands view v0 told (f, h) s \<and> undo_entries s = [] \<and> was_renamed m s = renamed"
  let ?f = "transferred renamed (source_key m) (target_key m) f"
  let ?S = "\<lambda>v. stands view v0 told v"
  let ?E = "move_failed m v0 told f h"
  have start: "triple ?P (call (notify e) g) Q E" if "triple ?P (g ()) Q E" for e g Q E
    by (rule triple_call[where R = "\<lambda>_. ?P"])
       (use that in \<open>auto simp: notify_def stands_def was_renamed_def\<close>)
  have t: "triple ?P (transfer m) (\<lambda>_. ?S (?f, h)) ?E"
    by (rule triple_weaken[OF triple_transfer[where f = f, OF m(2) free]]) (auto simp: move_failed_def)
  have r: "triple (?S (?f, h)) (repoint m) (\<lambda>_. ?S (?f, move_hive put m h)) ?E"
    unfolding repoint_def Let_def m move_hive_def
    by (rule triple_weaken[OF triple_repoint[OF rec]]) (auto simp: move_failed_def)
  have b: "triple (?S (?f, move_hive put m h)) (prove_it_boots m) (\<lambda>_. ?S (?f, move_hive put m h)) ?E"
    unfolding prove_it_boots_def m fail_def
    by (intro triple_read_then triple_if triple_rules) (auto simp: move_failed_def dest: view_reads)
  show ?thesis
    unfolding move_steps_def
    by (rule start triple_attempt[OF t] triple_notify triple_attempt[OF r] triple_attempt[OF b]
        triple_ret_Inr | assumption)+
qed

text \<open>The execution is these steps and then the deletion, which cannot fail.\<close>

lemma attempt_assoc_call: "attempt (call m f) g = call m (\<lambda>x. attempt (f x) g)"
  by (simp add: attempt_def call_def fun_eq_iff split: prod.splits)

lemma attempt_assoc: "attempt (attempt m f) g = attempt m (\<lambda>x. attempt (f x) g)"
  by (simp add: attempt_def fun_eq_iff split: prod.splits sum.splits)

lemma attempt_ret_Inr: "attempt (ret (Inr x)) g = g x"
  by (simp add: attempt_def fun_eq_iff)

definition move_report :: "'w move_operation \<Rightarrow> string \<Rightarrow> report" where
  "move_report m what =
     add_completed (move_smoke_step m) (add_completed (move_repoint_step m)
       (add_completed what empty_report))"

lemma move_execute_steps:
  "move_execute m s =
     attempt (move_steps m (move_transfer_step m s)) (\<lambda>_.
       if move_deletes m s
       then call (delete_source m 3 (move_report m (move_transfer_step m s))) (\<lambda>r. ret (Inr r))
       else ret (Inr (move_report m (move_transfer_step m s)))) s"
  unfolding move_execute_def move_steps_def move_report_def Let_def
    attempt_assoc_call attempt_assoc attempt_ret_Inr ..

lemma delete_source_files:
  assumes "mv_filesystem m = fs" and "delete_source m i r s = (r', s')"
  shows "hive (world s') = hive (world s) \<and>
    (files (world s') = (files (world s))(source_key m := None) \<or>
     (files (world s') = files (world s) \<and>
        removal_refused fs (vhdx_path (mv_distro m))))"
proof -
  from assms obtain r w where r: "remove_file fs (vhdx_path (mv_distro m)) (world s) = (r, w)"
    and w: "world s' = w"
    by (auto simp: delete_source_def Let_def call_def notify_def on_world_def split: prod.splits sum.splits)
  from filesystem_keeps_hive(9)[OF r] r w show ?thesis
    by (cases r) (auto dest: remove_ok remove_fails intro: removal_refusedI)
qed

lemma put_back_restored: "put_back view s s' \<Longrightarrow> move_restored hive fs files key m s s'"
  unfolding put_back_def move_restored_def disk_view_def by (metis fun_upd_triv prod.inject)

lemma move_restored_trans:
  assumes "move_restored hive fs files key m a b" and "move_restored hive fs files key m b c"
  shows "move_restored hive fs files key m a c"
proof -
  from assms(1) obtain ev1 where 1: "sink b = sink a @ ev1"
    "reports_failure ev1 \<or> (hive (world b) = hive (world a) \<and>
      (\<exists>x. files (world b) = (files (world a))(target_key m := x) \<and>
         (x = files (world a) (target_key m) \<or> removal_refused fs (move_target m))))"
    unfolding move_restored_def by blast
  from assms(2) obtain ev2 where 2: "sink c = sink b @ ev2"
    "reports_failure ev2 \<or> (hive (world c) = hive (world b) \<and>
      (\<exists>x. files (world c) = (files (world b))(target_key m := x) \<and>
         (x = files (world b) (target_key m) \<or> removal_refused fs (move_target m))))"
    unfolding move_restored_def by blast
  have "sink c = sink a @ ev1 @ ev2" using 1(1) 2(1) by simp
  moreover have "reports_failure (ev1 @ ev2) \<or> (hive (world c) = hive (world a) \<and>
      (\<exists>x. files (world c) = (files (world a))(target_key m := x) \<and>
         (x = files (world a) (target_key m) \<or> removal_refused fs (move_target m))))"
    using 1(2) 2(2) by (auto intro!: exI[of _ "files (world c) (target_key m)"])
  ultimately show ?thesis unfolding move_restored_def by blast
qed

lemma move_failed_unwind:
  assumes "move_failed m (view (world s0)) (sink s0) (files (world s0)) (hive (world s0)) s"
  shows "move_restored hive fs files key m s0 (unwind s)"
  using assms unfolding move_failed_def
proof
  assume "\<exists>v. stands view (view (world s0)) (sink s0) v s"
  then show ?thesis by (blast intro: put_back_restored stands_unwind)
next
  assume "copy_left m (sink s0) (files (world s0)) (hive (world s0)) s"
  then show ?thesis unfolding copy_left_def move_restored_def by auto
qed

lemma move_verify_reads:
  assumes "moves_on m reg fs host" and "move_verify m s = (v, s')"
  shows "view (world s') = view (world s)"
proof -
  from assms(1) have m: "mv_registry m = reg" "mv_filesystem m = fs" by (auto simp: moves_on_def)
  show ?thesis
    using assms(2) unfolding move_verify_def call_def attempt_def on_world_def m
    by (auto split: if_splits prod.splits sum.splits dest!: view_reads)
qed

lemma move_steps_booted:
  assumes on: "moves_on m reg fs host" and rec: "recorded get (hive (world s)) (mv_distro m)"
    and free: "files (world s) (target_key m) = None"
    and fresh: "undo_entries s = []" and steps: "move_steps m what s = (Inr u, s')"
  shows "boots_with host hive (distro_name (mv_distro m)) 120000 (move_hive put m (hive (world s))) \<and>
    files (world s) (source_key m) \<noteq> None"
proof -
  from on have m: "mv_registry m = reg" "mv_filesystem m = fs" "mv_host m = host"
    by (auto simp: moves_on_def)
  let ?f = "files (world s)" and ?h = "hive (world s)"
  let ?st = "stands view (view (world s)) (sink s)"
  from steps obtain s1 s2 s3 s4 s5 s6 s7 s8 u1 u2 u3 u4 u5 u6 u7 u8 where
    n1: "notify (Step_started 0 (mutating_step what)) s = (u1, s1)"
    and t: "transfer m s1 = (Inr u2, s2)"
    and n3: "notify (Step_finished 0 (mutating_step what)) s2 = (u3, s3)"
    and n4: "notify (Step_started 1 (mutating_step (move_repoint_step m))) s3 = (u4, s4)"
    and r: "repoint m s4 = (Inr u5, s5)"
    and n6: "notify (Step_finished 1 (mutating_step (move_repoint_step m))) s5 = (u6, s6)"
    and n7: "notify (Step_started 2 (reading_step (move_smoke_step m))) s6 = (u7, s7)"
    and b: "prove_it_boots m s7 = (Inr u8, s8)"
    by (auto simp: move_steps_def call_iff attempt_Inr_iff)
  have "?st (?f, ?h) s" using stands_start[OF fresh, of view] by (simp add: disk_view_def)
  from stands_notify[OF this n1] have s1: "?st (?f, ?h) s1 \<and> undo_entries s1 = [] \<and>
      was_renamed m s1 = was_renamed m s"
    using n1 fresh by (auto simp: notify_def was_renamed_def)
  from triple_InrD[OF triple_transfer[where f = ?f, OF m(2) free] s1 t]
  have s2: "?st (transferred (was_renamed m s) (source_key m) (target_key m) ?f, ?h) s2" .
  from triple_InrD[OF triple_repoint[OF rec] stands_notify[OF stands_notify[OF s2 n3] n4]
      r[unfolded repoint_def Let_def m]]
  have s5: "?st (transferred (was_renamed m s) (source_key m) (target_key m) ?f, move_hive put m ?h) s5"
    unfolding move_hive_def .
  from stands_notify[OF stands_notify[OF s5 n6] n7] have "hive (world s7) = move_hive put m ?h"
    by (simp add: stands_def disk_view_def)
  with b have boots: "boots_with host hive (distro_name (mv_distro m)) 120000 (move_hive put m ?h)"
    unfolding prove_it_boots_def boots_with_def
    by (auto simp: attempt_Inr_iff on_world_def m split: prod.splits if_splits)
  from s1 have f1: "files (world s1) = ?f" by (simp add: stands_def disk_view_def)
  have "\<exists>w d. files w (source_key m) = Some d \<and> files w = ?f"
  proof -
    from t obtain w where c: "create_directories fs (mv_destination m) (world s1) = (Inr (), w)"
      and rest: "(\<exists>w'. rename_file fs (vhdx_path (mv_distro m)) (move_target m) w = (Inr (), w')) \<or>
        (\<exists>g marks w'. copy_file_sparse fs (vhdx_path (mv_distro m)) (move_target m) g w = ((Inr (), marks), w'))"
      unfolding transfer_def Let_def m
      by (fastforce simp: attempt_Inr_iff on_world_def copy_disk_def Let_def m
          split: if_splits prod.splits sum.splits)
    from create_directories_keeps[OF c] f1 have "files w = ?f" by simp
    with rest rename_ok copy_ok show ?thesis by metis
  qed
  with boots show ?thesis by auto
qed

lemma move_contract:
  assumes on: "moves_on m reg fs host"
  shows "operation_contract (move_ioperation m) (move_ready m)
    (\<lambda>s p s1. move_ready m s1 \<and> files (world s1) (target_key m) = None \<and>
       files (world s1) = files (world s) \<and> hive (world s1) = hive (world s))
    (move_restored hive fs files key m) (move_achieved put hive fs files key host m)"
proof (unfold_locales, goal_cases)
  case (1 a b c) then show ?case by (rule move_restored_trans)
next
  case (2 s planning s1)
  then show ?case
    using move_plan_reads[OF on]
    by (auto simp: move_ioperation_def intro!: put_back_restored intro: put_back_keeps)
next
  case (3 s p s1) then show ?case by (auto simp: move_ioperation_def dest: move_plan_ordered)
next
  case (4 s p s1)
  then have p: "move_plan m s = (Inr p, s1)" by (simp add: move_ioperation_def)
  with move_plan_reads[OF on p] move_plan_target_free[OF on p] 4 show ?case
    by (auto simp: move_ready_def disk_view_def)
next
  case (5 s p s1 e s2)
  then have e: "move_execute m s1 = (Inl e, s2)" by (simp add: move_ioperation_def)
  then have st: "move_steps m (move_transfer_step m s1) s1 = (Inl e, s2)"
    by (auto simp: move_execute_steps attempt_Inl_iff call_def split: if_splits prod.splits)
  from 5 have pre: "stands view (view (world s1)) (sink s1) (files (world s1), hive (world s1)) s1 \<and>
      undo_entries s1 = [] \<and> was_renamed m s1 = was_renamed m s1"
    using stands_start[of s1 view] by (simp add: move_ready_def disk_view_def)
  from 5 have rec: "recorded get (hive (world s1)) (mv_distro m)"
    and free: "files (world s1) (target_key m) = None"
    by (auto simp: move_ready_def)
  from triple_InlD[OF triple_move_steps[where f = "files (world s1)", OF on rec free] pre st]
  show ?case by (simp add: move_ioperation_def move_failed_unwind)
next
  case (6 s p s1 r' s2 v s3)
  then have e: "move_execute m s1 = (Inr r', s2)" and v: "move_verify m s2 = (v, s3)"
    by (auto simp: move_ioperation_def)
  from e obtain u t where st: "move_steps m (move_transfer_step m s1) s1 = (Inr u, t)"
    and body: "(if move_deletes m s1
        then call (delete_source m 3 (move_report m (move_transfer_step m s1))) (\<lambda>r. ret (Inr r))
        else ret (Inr (move_report m (move_transfer_step m s1)))) t = (Inr r' :: error + report, s2)"
    unfolding move_execute_steps attempt_Inr_iff by (elim exE conjE) (rule that)
  from body have rest: "if move_deletes m s1
        then \<exists>rep. delete_source m 3 (move_report m (move_transfer_step m s1)) t = (rep, s2)
        else s2 = t"
    by (auto simp: call_iff split: if_splits)
  from 6 have rec: "recorded get (hive (world s1)) (mv_distro m)" "undo_entries s1 = []"
    and free: "files (world s1) (target_key m) = None"
    and same: "files (world s1) = files (world s)" "hive (world s1) = hive (world s)"
    by (auto simp: move_ready_def)
  from rec have pre: "stands view (view (world s1)) (sink s1) (files (world s1), hive (world s1)) s1 \<and>
      undo_entries s1 = [] \<and> was_renamed m s1 = was_renamed m s1"
    using stands_start[of s1 view] by (simp add: disk_view_def)
  let ?f = "transferred (was_renamed m s1) (source_key m) (target_key m) (files (world s))"
  from triple_InrD[OF triple_move_steps[where f = "files (world s1)", OF on rec(1) free] pre st]
  have t: "files (world t) = ?f" "hive (world t) = move_hive put m (hive (world s))"
    using same by (auto simp: stands_def disk_view_def)
  from move_steps_booted[OF on rec(1) free rec(2) st] obtain d where
    boots: "boots_with host hive (distro_name (mv_distro m)) 120000 (move_hive put m (hive (world s)))"
    and d: "files (world s) (source_key m) = Some d"
    using same by auto
  from move_verify_reads[OF on v] have s3: "files (world s3) = files (world s2)"
    "hive (world s3) = hive (world s2)" by (auto simp: disk_view_def)
  from on have fs: "mv_filesystem m = fs" by (simp add: moves_on_def)
  show ?case
  proof (cases "move_deletes m s1")
    case False
    with rest t s3 boots d show ?thesis
      unfolding move_achieved_def
      by (intro exI[of _ "was_renamed m s1"]) (use free same in \<open>auto simp: move_deletes_def Let_def\<close>)
  next
    case True
    with rest obtain rep where
      "delete_source m 3 (move_report m (move_transfer_step m s1)) t = (rep, s2)" by auto
    from delete_source_files[OF fs this] True t s3 boots d show ?thesis
      unfolding move_achieved_def
      by (intro exI[of _ "was_renamed m s1"]) (use free same in \<open>auto simp: move_deletes_def Let_def\<close>)
  qed
qed

section \<open>The disk is never lost\<close>

text \<open>Somewhere there is the disk \<open>d\<close>: at its old place or at the new one. A rename keeps this
  whichever way it goes; a copy keeps even that the source is still there.\<close>

definition has_disk :: "'w move_operation \<Rightarrow> bool \<Rightarrow> 'd \<Rightarrow> 'w \<Rightarrow> bool" where
  "has_disk m renamed d w \<longleftrightarrow>
     files w (source_key m) = Some d \<or> (renamed \<and> files w (target_key m) = Some d)"

lemma keeps_disk_view:
  assumes "\<And>w r w'. a w = (r, w') \<Longrightarrow> files w' = files w"
  shows "action_keeps (has_disk m renamed d) a"
  by (rule action_keepsI) (auto simp: has_disk_def dest: assms)

lemma keeps_disk_rename:
  "action_keeps (has_disk m True d) (rename_file fs (vhdx_path (mv_distro m)) (move_target m))"
  "action_keeps (has_disk m True d) (rename_file fs (move_target m) (vhdx_path (mv_distro m)))"
proof -
  have "has_disk m True d w'"
    if K: "files w k1 = Some d \<or> files w k2 = Some d" and r: "rename_file fs p q w = (r, w')"
      and k: "key p = k1" "key q = k2" and "has_disk m True d = (\<lambda>w. files w k1 = Some d \<or> files w k2 = Some d)"
    for p q w r w' k1 k2
  proof (cases r)
    case (Inl e)
    with rename_fails r have "files w' = files w" by blast
    with K that(5) show ?thesis by simp
  next
    case (Inr u)
    with rename_ok r k obtain d' where d': "files w k1 = Some d'"
      "k1 = k2 \<or> files w k2 = None" "files w' = (files w)(k1 := None, k2 := Some d')" by blast
    from d' K have "files w' k2 = Some d" by auto
    with that(5) show ?thesis by simp
  qed
  note step = this
  have S: "has_disk m True d = (\<lambda>w. files w (source_key m) = Some d \<or> files w (target_key m) = Some d)"
    by (simp add: has_disk_def fun_eq_iff)
  have T: "has_disk m True d = (\<lambda>w. files w (target_key m) = Some d \<or> files w (source_key m) = Some d)"
    by (auto simp: has_disk_def fun_eq_iff)
  show
    "action_keeps (has_disk m True d) (rename_file fs (vhdx_path (mv_distro m)) (move_target m))"
    by (rule action_keepsI) (rule step[OF _ _ refl refl S], simp_all add: S)
  show
    "action_keeps (has_disk m True d) (rename_file fs (move_target m) (vhdx_path (mv_distro m)))"
    by (rule action_keepsI) (rule step[OF _ _ refl refl T], simp_all add: T)
qed

lemma keeps_disk_remove:
  assumes "source_key m \<noteq> target_key m"
  shows "action_keeps (has_disk m False d) (remove_file fs (move_target m))"
proof (rule action_keepsI)
  fix w r w' assume "has_disk m False d w" "remove_file fs (move_target m) w = (r, w')"
  then show "has_disk m False d w'"
    using assms by (cases r) (auto simp: has_disk_def dest: remove_ok remove_fails)
qed

lemma triple_copy_guarded:
  assumes m: "mv_filesystem m = fs" and ne: "source_key m \<noteq> target_key m"
  shows "triple (guarded (has_disk m False d)) (copy_disk m) (\<lambda>_. guarded (has_disk m False d))
    (guarded (has_disk m False d))"
proof -
  let ?K = "has_disk m False d"
  have "guarded ?K s'" if g: "guarded ?K s" and c: "copy_disk m s = (r, s')" for s r s'
  proof -
    from c obtain r0 marks w where
      cp: "copy_file_sparse fs (vhdx_path (mv_distro m)) (move_target m) (\<lambda>_ _. True) (world s) =
        ((r0, marks), w)"
      and s': "undo_entries s' = undo_entries s"
        "world s' = w \<or> (\<exists>e. remove_file fs (move_target m) w = (e, world s'))"
      by (auto simp: copy_disk_def m Let_def split: prod.splits sum.splits)
    have "?K w"
    proof (cases r0)
      case (Inl e)
      with copy_fails cp have "files w = (files (world s))(target_key m := files w (target_key m))" by blast
      with g ne show ?thesis by (metis fun_upd_other guarded_def has_disk_def)
    next
      case (Inr u)
      with copy_ok cp g ne show ?thesis by (fastforce simp: guarded_def has_disk_def)
    qed
    moreover have "?K w'" if "?K w" "remove_file fs (move_target m) w = (e, w')" for e w'
      using keeps_disk_remove[OF ne, of d] that by (auto simp: action_keeps_def)
    ultimately show ?thesis using g s' by (auto simp: guarded_def)
  qed
  then show ?thesis by (blast intro: tripleI)
qed

lemma triple_write_guarded:
  "triple (guarded (has_disk m renamed d)) (write_with_undo reg k v data previous what)
     (\<lambda>_. guarded (has_disk m renamed d)) (guarded (has_disk m renamed d))"
  unfolding write_with_undo_def
  by (intro triple_guarded_change keeps_disk_view registry_keeps_files(2))

lemma triple_steps_guarded:
  assumes on: "moves_on m reg fs host" and ne: "source_key m \<noteq> target_key m"
  shows "triple (\<lambda>s. guarded (has_disk m renamed d) s \<and> was_renamed m s = renamed)
    (move_steps m what) (\<lambda>_. guarded (has_disk m renamed d)) (guarded (has_disk m renamed d))"
proof -
  from on have m: "mv_registry m = reg" "mv_filesystem m = fs" "mv_host m = host"
    by (auto simp: moves_on_def)
  let ?G = "guarded (has_disk m renamed d)"
  let ?P = "\<lambda>s. ?G s \<and> was_renamed m s = renamed"
  have start: "triple ?P (call (notify e) g) Q E" if "triple ?P (g ()) Q E" for e g Q E
    by (rule triple_call[where R = "\<lambda>_. ?P"])
       (use that in \<open>auto simp: notify_def guarded_def was_renamed_def\<close>)
  have rename: "triple ?G
      (attempt (on_world (rename_file fs (vhdx_path (mv_distro m)) (move_target m))) (\<lambda>_.
         call (undo_push a (returning (rename_file fs (move_target m) (vhdx_path (mv_distro m))))) (\<lambda>_.
         ret (Inr ())))) (\<lambda>_. ?G) ?G" if renamed for a
    using that keeps_disk_rename by (auto intro!: triple_guarded_change)
  have copy: "triple ?G
      (attempt (copy_disk m) (\<lambda>_.
         call (undo_push a (returning (remove_file fs (move_target m)))) (\<lambda>_. ret (Inr ()))))
      (\<lambda>_. ?G) ?G" if "\<not> renamed" for a
    using that triple_copy_guarded[OF m(2) ne] keeps_disk_remove[OF ne]
    by (auto intro!: triple_attempt[OF _ triple_guarded_push])
  have t: "triple ?P (transfer m) (\<lambda>_. ?G) ?G"
    unfolding transfer_def Let_def m
  proof (rule triple_attempt)
    show "triple ?P (on_world (create_directories fs (mv_destination m))) (\<lambda>_. ?P) ?G"
      by (rule tripleI)
         (auto simp: was_renamed_def guarded_def has_disk_def on_world_def split: prod.splits
           dest!: create_directories_keeps)
  qed (use rename copy in \<open>cases renamed; auto simp: triple_def\<close>)
  have r: "triple ?G (repoint m) (\<lambda>_. ?G) ?G"
    unfolding repoint_def Let_def m
    by (intro triple_attempt[OF triple_write_guarded] triple_if triple_write_guarded triple_ret_Inr)
  have b: "triple ?G (prove_it_boots m) (\<lambda>_. ?G) ?G"
    unfolding prove_it_boots_def m fail_def
    by (rule triple_attempt[OF triple_guarded_world])
       (auto intro!: keeps_disk_view triple_if triple_rules dest!: view_reads simp: disk_view_def)
  show ?thesis
    unfolding move_steps_def
    by (rule start triple_attempt[OF t] triple_guarded_notify triple_attempt[OF r] triple_attempt[OF b]
        triple_ret_Inr | assumption)+
qed

lemma move_execute_fails_keeps_disk:
  assumes on: "moves_on m reg fs host" and fresh: "undo_entries s = []"
    and disk: "files (world s) (source_key m) = Some d" and free: "files (world s) (target_key m) = None"
    and e: "move_execute m s = (Inl e, s')"
  shows "has_disk m (was_renamed m s) d (world (unwind s'))"
proof -
  from disk free have ne: "source_key m \<noteq> target_key m" by auto
  from e have st: "move_steps m (move_transfer_step m s) s = (Inl e, s')"
    by (auto simp: move_execute_steps attempt_Inl_iff call_def split: if_splits prod.splits)
  have "guarded (has_disk m (was_renamed m s) d) s \<and> was_renamed m s = was_renamed m s"
    using fresh disk by (simp add: guarded_start has_disk_def)
  from triple_InlD[OF triple_steps_guarded[OF on ne] this st] show ?thesis by (rule guarded_unwind)
qed

end

section \<open>The operation as a whole\<close>


text \<open>C1: whatever fails, and even if every undo fails too, a run of \<open>move\<close> never loses the disk:
  afterwards it is at its old place or at the new one.\<close>

theorem move_never_loses_disk:
  assumes mach: "machine get put reg hive fs files key host" and on: "moves_on m reg fs host"
    and fresh: "undo_entries s = []" and rec: "recorded get (hive (world s)) (mv_distro m)"
    and disk: "files (world s) (key (vhdx_path (mv_distro m))) = Some d"
    and run: "run_operation (move_ioperation m) options s = Some (result, s')"
  shows "files (world s') (key (vhdx_path (mv_distro m))) = Some d \<or>
         files (world s') (key (move_target m)) = Some d"
proof -
  note c = machine.move_contract[OF mach on]
  have ready: "machine.move_ready get hive m s"
    using fresh rec by (simp add: machine.move_ready_def[OF mach])
  have achieved: ?thesis if "move_achieved put hive fs files key host m s s'"
    using that disk unfolding move_achieved_def transferred_def Let_def
    by (auto split: if_splits)
  have plan: ?thesis if "move_plan m s = (r, s')" for r
    using machine.move_plan_reads[OF mach on that] disk by (simp add: disk_view_def)
  show ?thesis
  proof (cases rule: operation_contract.run_cases[OF c ready run])
    case (1 planning)
    then have "move_plan m s = (planning, s')" by (simp add: move_ioperation_def)
    then show ?thesis by (rule plan)
  next
    case (2 p s1 e s2)
    then have p: "move_plan m s = (Inr p, s1)" and e: "move_execute m s1 = (Inl e, s2)"
      and s': "s' = unwind s2" by (auto simp: move_ioperation_def)
    from machine.move_plan_reads[OF mach on p] fresh disk have
      "undo_entries s1 = []" "files (world s1) (key (vhdx_path (mv_distro m))) = Some d"
      by (auto simp: disk_view_def)
    from machine.move_execute_fails_keeps_disk[OF mach on this
        machine.move_plan_target_free[OF mach on p] e]
    show ?thesis unfolding s' machine.has_disk_def[OF mach] by blast
  next
    case 3
    then show ?thesis by (rule achieved)
  qed
qed

section \<open>On a machine in memory\<close>

definition sample_disk :: fake_file where
  "sample_disk = \<lparr>ff_size = 8192, ff_size_on_disk = 4096, ff_sparse = True, ff_text = []\<rparr>"

definition stored_machine :: fake_machine where
  "stored_machine = sample_machine\<lparr>fake_files := (\<lambda>p.
     if p = wide ''C:'' @ [backslash] @ wide ''u'' @ [backslash] @ wide ''ext4.vhdx''
     then Some sample_disk else None)\<rparr>"

definition sample_move :: "fake_machine move_operation" where
  "sample_move =
     \<lparr>mv_registry = fake_registry, mv_filesystem = fake_filesystem, mv_host = fake_host,
      mv_distro = sample_registered, mv_destination = wide ''C:'' @ [backslash] @ wide ''v'',
      mv_options = \<lparr>keep_source = False\<rparr>, mv_narrow = (\<lambda>p. [])\<rparr>"

text \<open>The same machine with a guest that does not start.\<close>

definition broken_machine :: fake_machine where
  "broken_machine = stored_machine\<lparr>fake_answers := (\<lambda>argv.
     \<lparr>exit_code = 1, standard_output = [], standard_error = []\<rparr>)\<rparr>"

lemma sample_move_on: "moves_on sample_move fake_registry fake_filesystem fake_host"
  by (simp add: moves_on_def sample_move_def)

interpretation move_on_fakes: operation_contract "move_ioperation sample_move"
  "machine.move_ready hive_get fake_values sample_move"
  "\<lambda>s p s1. machine.move_ready hive_get fake_values sample_move s1 \<and>
     fake_files (world s1) (id (move_target sample_move)) = None \<and>
     fake_files (world s1) = fake_files (world s) \<and> fake_values (world s1) = fake_values (world s)"
  "move_restored fake_values fake_filesystem fake_files id sample_move"
  "move_achieved hive_put fake_values fake_filesystem fake_files id fake_host sample_move"
  by (rule fake_machine.move_contract[OF sample_move_on])

lemma sample_move_recorded:
  "recorded hive_get (fake_values (world (move_start stored_machine []))) (mv_distro sample_move)"
  "recorded hive_get (fake_values (world (move_start broken_machine []))) (mv_distro sample_move)"
  unfolding recorded_def by code_simp+


theorem move_never_loses_disk_witness:
  "\<exists>result s'. run_operation (move_ioperation sample_move) \<lparr>dry_run = False\<rparr>
       (move_start broken_machine []) = Some (result, s') \<and>
     (fake_files (world s') (vhdx_path sample_registered) = Some sample_disk \<or>
      fake_files (world s') (move_target sample_move) = Some sample_disk)"
proof -
  have u: "undo_entries (move_start broken_machine []) = []" by (simp add: move_start_def)
  have d: "fake_files (world (move_start broken_machine []))
      (id (vhdx_path (mv_distro sample_move))) = Some sample_disk"
    by code_simp
  have "run_operation (move_ioperation sample_move) \<lparr>dry_run = False\<rparr> (move_start broken_machine []) \<noteq> None"
    by (rule run_operation_returns) (simp add: move_ioperation_def)
  then obtain result s' where run: "run_operation (move_ioperation sample_move) \<lparr>dry_run = False\<rparr>
      (move_start broken_machine []) = Some (result, s')" by auto
  from move_never_loses_disk[OF fake_machine.machine_axioms sample_move_on u sample_move_recorded(2) d run]
    run show ?thesis by (auto simp: sample_move_def)
qed

end
