(* ===== verification/Trim.thy ===== *)
theory Trim
  imports Distro Size
begin

text \<open>
  Running \<open>fstrim\<close> in a guest (\<open>src/src/lib/ops/trim.h\<close>, \<open>trim.cpp\<close>): the run with its fallback,
  the byte count it reports, and the operation. \<open>TrimOperation\<close>'s result joins the world and the
  sink in the state.
\<close>

section \<open>The byte count\<close>

definition fstrim :: string where
  "fstrim = ''/sbin/fstrim''"

definition guest_root :: string where
  "guest_root = ''/''"

text \<open>\<open>find\<close> of a substring.\<close>

fun contains :: "string \<Rightarrow> string \<Rightarrow> bool" where
  "contains text p = (starts_with text p \<or> (case text of [] \<Rightarrow> False | _ # rest \<Rightarrow> contains rest p))"

declare contains.simps [simp del]

definition rejected_an_option :: "string \<Rightarrow> bool" where
  "rejected_an_option text \<longleftrightarrow>
     contains text ''unrecognized option'' \<or> contains text ''invalid option''"

text \<open>The value of a run of digits, with the check of the code before each step; \<open>None\<close> is a count
  that does not fit.\<close>

fun digits_loop :: "u64 \<Rightarrow> string \<Rightarrow> u64 option" where
  "digits_loop v [] = Some v"
| "digits_loop v (c # cs) =
     (let digit = (of_nat (digit_val c) :: u64) in
      if v > (u64_max - digit) div 10 then None else digits_loop (v * 10 + digit) cs)"

text \<open>\<open>digits_before(text, end)\<close> on the text before \<open>end\<close>.\<close>

definition digits_before :: "string \<Rightarrow> u64 option" where
  "digits_before before =
     (let run = rev (takeWhile is_digit_char (rev before)) in
      if run = [] then None else digits_loop 0 run)"

text \<open>\<open>rfind\<close>: what comes before the last occurrence of \<open>p\<close>.\<close>

fun before_last :: "string \<Rightarrow> string \<Rightarrow> string option" where
  "before_last p text =
     (case text of
        [] \<Rightarrow> if p = [] then Some [] else None
      | c # rest \<Rightarrow>
          (case before_last p rest of
             Some b \<Rightarrow> Some (c # b)
           | None \<Rightarrow> if starts_with text p then Some [] else None))"

declare before_last.simps [simp del]

definition parse_trimmed_bytes :: "string \<Rightarrow> u64 option" where
  "parse_trimmed_bytes output =
     (case before_last ''bytes'' output of
        None \<Rightarrow> None
      | Some before \<Rightarrow> digits_before (rev (dropWhile (\<lambda>c. c = CHR '' '') (rev before))))"

section \<open>Running fstrim\<close>

record trim_result =
  trimmed_bytes :: "u64 option"
  used_fallback :: bool

definition run_fstrim ::
  "'w IWslHost \<Rightarrow> string \<Rightarrow> int \<Rightarrow> ('w, 'm) run_state_scheme \<Rightarrow>
     (error + trim_result) \<times> ('w, 'm) run_state_scheme" where
  "run_fstrim host guest limit =
     attempt (on_world (run_as_root host guest [fstrim, ''-v'', guest_root] limit)) (\<lambda>verbose.
     attempt
       (if \<not> succeeded verbose \<and> rejected_an_option (standard_error verbose) then
          call (notify (Sink_message ''fstrim does not take -v here; retrying without it'')) (\<lambda>_.
          attempt (on_world (run_as_root host guest [fstrim, guest_root] limit)) (\<lambda>plain.
          ret (Inr (plain, True))))
        else ret (Inr (verbose, False))) (\<lambda>(result, fallback).
     if \<not> succeeded result then
       (let detail = filter (\<lambda>c. c \<noteq> CHR 0x0A)
              (if standard_error result = [] then standard_output result else standard_error result)
        in ret (fail Generic (''fstrim failed in '' @ guest @ '': '' @ detail)
             (''check the distribution starts (`wsl -d '' @ guest @
              '' -- true`) and that /sbin/fstrim exists in it'')))
     else
       ret (Inr \<lparr>trimmed_bytes = parse_trimmed_bytes (standard_output result),
                 used_fallback = fallback\<rparr>)))"

section \<open>The operation\<close>

record 'w trim_operation =
  tr_host :: "'w IWslHost"
  tr_distro :: distro
  tr_timeout :: int

record 'w trim_state = "'w run_state" +
  trim_outcome :: trim_result

definition trim_step :: "distro \<Rightarrow> string" where
  "trim_step d = ''run '' @ fstrim @ '' '' @ guest_root @ '' in '' @ distro_name d"

definition trim_plan ::
  "'w trim_operation \<Rightarrow> ('w, 'm) trim_state_scheme \<Rightarrow> (error + plan) \<times> ('w, 'm) trim_state_scheme" where
  "trim_plan t =
     (let d = tr_distro t in
      if \<not> is_wsl2 d then
        ret (fail Preflight (distro_name d @ '' is a WSL1 distribution and has no virtual disk'')
          (''convert it with `wsl --set-version '' @ distro_name d @ '' 2`, then try again''))
      else
        ret (Inr
          \<lparr>plan_steps = [mutating_step (trim_step d)],
           plan_estimate = no_estimate,
           plan_warnings =
             [\<lparr>warning_message =
                 ''this starts the distribution if it is stopped, and leaves it running'',
               warning_remedy =
                 ''run `wsl --terminate '' @ distro_name d @ ''` afterwards if that matters''\<rparr>]\<rparr>))"

definition trim_execute ::
  "'w trim_operation \<Rightarrow> ('w, 'm) trim_state_scheme \<Rightarrow> (error + report) \<times> ('w, 'm) trim_state_scheme" where
  "trim_execute t =
     (let step = mutating_step (trim_step (tr_distro t)) in
      call (notify (Step_started 0 step)) (\<lambda>_.
      attempt (run_fstrim (tr_host t) (distro_name (tr_distro t)) (tr_timeout t)) (\<lambda>trimmed.
      call (\<lambda>s. ((), s\<lparr>trim_outcome := trimmed\<rparr>)) (\<lambda>_.
      call (notify (Step_finished 0 step)) (\<lambda>_.
      ret (Inr (add_completed (trim_step (tr_distro t)) empty_report)))))))"

definition trim_verify :: "('w, 'm) trim_state_scheme \<Rightarrow> status \<times> ('w, 'm) trim_state_scheme" where
  "trim_verify = ret (Inr ())"

definition trim_ioperation :: "'w trim_operation \<Rightarrow> 'w trim_state IOperation" where
  "trim_ioperation t =
     \<lparr>op_plan = trim_plan t, op_execute = (\<lambda>s. Some (trim_execute t s)), op_verify = trim_verify,
      op_rollback = id\<rparr>"

section \<open>What the count is\<close>

lemma dropWhile_replicate_append: "P x \<Longrightarrow> dropWhile P (replicate n x @ ys) = dropWhile P ys"
  by (induction n) simp_all

lemma digits_step:
  assumes "d < 10"
  shows "v > (u64_max - of_nat d) div 10 \<longleftrightarrow> 2 ^ 64 \<le> unat v * 10 + d"
    and "unat v * 10 + d < 2 ^ 64 \<Longrightarrow> unat (v * 10 + of_nat d :: u64) = unat v * 10 + d"
proof -
  have d: "unat (of_nat d :: u64) = d"
    using assms by (simp add: unat_of_nat take_bit_nat_eq_self)
  have "unat ((u64_max - of_nat d) div 10) = (2 ^ 64 - 1 - d) div 10"
    using assms d by (simp add: unat_div unat_sub word_le_nat_alt unat_u64_max)
  then have "v > (u64_max - of_nat d) div 10 \<longleftrightarrow> (2 ^ 64 - 1 - d) div 10 < unat v"
    by (simp add: word_less_nat_alt)
  also have "\<dots> \<longleftrightarrow> 2 ^ 64 - 1 - d < unat v * 10"
    by (rule div_less_iff_less_mult) simp
  also have "\<dots> \<longleftrightarrow> 2 ^ 64 \<le> unat v * 10 + d"
    using assms by (auto simp: less_diff_conv2)
  finally show "v > (u64_max - of_nat d) div 10 \<longleftrightarrow> 2 ^ 64 \<le> unat v * 10 + d" .
  assume fits: "unat v * 10 + d < 2 ^ 64"
  have m: "unat (v * 10) = unat v * 10"
    using fits by (subst unat_mult_lem [THEN iffD1]) simp_all
  show "unat (v * 10 + of_nat d :: u64) = unat v * 10 + d"
    using fits by (subst unat_add_lem [THEN iffD1]) (simp_all add: m d)
qed

lemma digits_loop_exact:
  assumes "\<forall>c \<in> set ds. is_digit_char c"
  shows "digits_loop v ds =
    (if digits_value (unat v) ds < 2 ^ 64 then Some (of_nat (digits_value (unat v) ds)) else None)"
  using assms
proof (induction ds arbitrary: v)
  case (Cons c ds)
  let ?d = "digit_val c"
  from Cons.prems have d: "?d < 10" by (simp add: digit_val_less)
  show ?case
  proof (cases "unat v * 10 + ?d < 2 ^ 64")
    case True
    with digits_step[OF d, of v] have
      "\<not> v > (u64_max - of_nat ?d) div 10" "unat (v * 10 + of_nat ?d) = unat v * 10 + ?d" by auto
    with Cons show ?thesis by (simp add: Let_def)
  next
    case False
    moreover have "unat v * 10 + ?d \<le> digits_value (unat v * 10 + ?d) ds" by (rule digits_value_ge)
    ultimately show ?thesis using digits_step(1)[OF d, of v] by (simp add: Let_def)
  qed
next
  case Nil
  have "unat v < 2 ^ LENGTH(64)" by (rule unsigned_less)
  then show ?case by simp
qed

lemma before_last_found:
  "\<not> contains (tl (p @ post)) p \<Longrightarrow> p \<noteq> [] \<Longrightarrow> before_last p (pre @ p @ post) = Some pre"
proof (induction pre)
  case Nil
  have none: "before_last p t = None" if "\<not> contains t p" "p \<noteq> []" for t
    using that
  proof (induction t)
    case Nil then show ?case by (subst before_last.simps) simp
  next
    case (Cons c t)
    then show ?case
      by (subst before_last.simps) (subst (asm) (2) contains.simps, simp)
  qed
  obtain c t where p: "p = c # t" using Nil(2) by (cases p) auto
  with Nil none[of "t @ post"] show ?case
    by (subst before_last.simps) (simp add: starts_with_iff)
next
  case (Cons c pre)
  then show ?case by (subst before_last.simps) simp
qed

text \<open>C30: the count is read exactly: the digits before the last \<open>bytes\<close> of the output give their
  decimal value when it fits in 64 bits, and nothing when it does not; it never wraps.\<close>

theorem parse_trimmed_bytes_exact:
  assumes "ds \<noteq> []" and "\<forall>c \<in> set ds. is_digit_char c"
    and "pre = [] \<or> \<not> is_digit_char (last pre)" and "\<not> contains (''ytes'' @ post) ''bytes''"
  shows "parse_trimmed_bytes (pre @ ds @ replicate n (CHR '' '') @ ''bytes'' @ post) =
    (if digits_value 0 ds < 2 ^ 64 then Some (of_nat (digits_value 0 ds)) else None)"
proof -
  have b: "before_last ''bytes'' ((pre @ ds @ replicate n (CHR '' '')) @ ''bytes'' @ post) =
      Some (pre @ ds @ replicate n (CHR '' ''))"
    using assms(4) by (intro before_last_found) simp_all
  have hd: "last ds \<noteq> CHR '' ''"
    using assms(1,2) by (auto simp: is_digit_char_def dest!: last_in_set)
  have "dropWhile (\<lambda>c. c = CHR '' '') (rev (pre @ ds @ replicate n (CHR '' ''))) = rev (pre @ ds)"
    using hd assms(1) by (cases "rev ds") (auto simp: dropWhile_replicate_append rev_eq_Cons_iff)
  moreover have "takeWhile is_digit_char (rev (pre @ ds)) = rev ds"
  proof -
    have n: "\<And>c. c \<in> set (rev ds) \<Longrightarrow> is_digit_char c" using assms(2) by simp
    have "takeWhile is_digit_char (rev ds @ rev pre) = rev ds @ takeWhile is_digit_char (rev pre)"
      by (rule takeWhile_append2) (rule n)
    also have "takeWhile is_digit_char (rev pre) = []"
      using assms(3) by (cases pre rule: rev_cases) auto
    finally show ?thesis by simp
  qed
  ultimately show ?thesis
    using b assms(1) digits_loop_exact[OF assms(2), of 0]
    by (simp add: parse_trimmed_bytes_def digits_before_def)
qed

theorem parse_trimmed_bytes_exact_witness:
  "parse_trimmed_bytes (''/: '' @ ''18446744073709551616'' @ '' '' @ ''bytes'' @ '' trimmed'') = None"
proof -
  have "digits_value 0 ''18446744073709551616'' = 18446744073709551616"
    by (simp add: digit_val_def)
  moreover have "\<forall>c \<in> set ''18446744073709551616''. is_digit_char c"
    by (simp add: is_digit_char_def)
  moreover have "\<not> contains (''ytes'' @ '' trimmed'') ''bytes''"
    by code_simp
  moreover have "\<not> is_digit_char (last ''/: '')" by (simp add: is_digit_char_def)
  ultimately show ?thesis
    using parse_trimmed_bytes_exact[of "''18446744073709551616''" "''/: ''" "'' trimmed''" 1] by simp
qed

section \<open>What a run is\<close>

text \<open>A trim that reports success has seen \<open>fstrim\<close> exit with zero, as its first command or as
  the retry without the option; and a failure that is not about an option is not retried: the world
  is the one after a single command, which failed.\<close>

theorem run_fstrim_honest:
  assumes "run_fstrim host guest limit s = (result, s')"
  shows "(\<forall>r. result = Inr r \<longrightarrow>
            (\<exists>w argv answer. run_as_root host guest argv limit w = (Inr answer, world s') \<and>
               succeeded answer \<and> trimmed_bytes r = parse_trimmed_bytes (standard_output answer) \<and>
               argv = (if used_fallback r then [fstrim, guest_root] else [fstrim, ''-v'', guest_root]))) \<and>
         (\<forall>e answer w. run_as_root host guest [fstrim, ''-v'', guest_root] limit (world s) = (Inr answer, w) \<and>
            result = Inl e \<and> \<not> rejected_an_option (standard_error answer) \<longrightarrow>
            \<not> succeeded answer \<and> world s' = w \<and> err_code e = Generic)"
proof (intro conjI allI impI)
  fix r assume r: "result = Inr r"
  obtain r1 w1 where v: "run_as_root host guest [fstrim, ''-v'', guest_root] limit (world s) = (r1, w1)"
    by (meson surj_pair)
  with assms r obtain verbose where r1: "r1 = Inr verbose"
    by (cases r1) (auto simp: run_fstrim_def attempt_def on_world_def)
  obtain r2 w2 where p: "run_as_root host guest [fstrim, guest_root] limit w1 = (r2, w2)"
    by (meson surj_pair)
  show "\<exists>w argv answer. run_as_root host guest argv limit w = (Inr answer, world s') \<and>
       succeeded answer \<and> trimmed_bytes r = parse_trimmed_bytes (standard_output answer) \<and>
       argv = (if used_fallback r then [fstrim, guest_root] else [fstrim, ''-v'', guest_root])"
  proof (cases "\<not> succeeded verbose \<and> rejected_an_option (standard_error verbose)")
    case True
    with assms r v r1 p obtain plain where "r2 = Inr plain" "succeeded plain" "world s' = w2"
      "r = \<lparr>trimmed_bytes = parse_trimmed_bytes (standard_output plain), used_fallback = True\<rparr>"
      by (cases r2) (auto simp: run_fstrim_def attempt_def call_def notify_def on_world_def Let_def
          split: if_splits)
    with p show ?thesis by auto
  next
    case False
    with assms r v r1 have "succeeded verbose" "world s' = w1"
      "r = \<lparr>trimmed_bytes = parse_trimmed_bytes (standard_output verbose), used_fallback = False\<rparr>"
      by (auto simp: run_fstrim_def attempt_def call_def notify_def on_world_def Let_def
          split: if_splits)
    with v r1 show ?thesis by auto
  qed
next
  fix e answer w
  assume h: "run_as_root host guest [fstrim, ''-v'', guest_root] limit (world s) = (Inr answer, w) \<and>
    result = Inl e \<and> \<not> rejected_an_option (standard_error answer)"
  with assms show "\<not> succeeded answer" "world s' = w" "err_code e = Generic"
    by (auto simp: run_fstrim_def attempt_def on_world_def Let_def split: if_splits)
qed

text \<open>Witness: a busybox guest, which refuses the option and is asked again.\<close>

definition busybox_machine :: fake_machine where
  "busybox_machine = sample_machine\<lparr>fake_answers := (\<lambda>argv.
     if length argv = 3
     then \<lparr>exit_code = 1, standard_output = [], standard_error = ''fstrim: unrecognized option: v''\<rparr>
     else \<lparr>exit_code = 0, standard_output = ''/: 42 bytes trimmed'', standard_error = []\<rparr>)\<rparr>"

theorem run_fstrim_honest_witness:
  "\<exists>w argv answer. run_as_root fake_host ''U'' argv 1 w =
       (Inr answer, world (snd (run_fstrim fake_host ''U'' 1 \<lparr>world = busybox_machine, sink = []\<rparr>))) \<and>
     succeeded answer \<and> argv = [fstrim, guest_root]"
proof -
  let ?run = "run_fstrim fake_host ''U'' 1 \<lparr>world = busybox_machine, sink = []\<rparr>"
  have ok: "fst ?run = Inr \<lparr>trimmed_bytes = Some 42, used_fallback = True\<rparr>" by code_simp
  from run_fstrim_honest[of fake_host "''U''" 1 "\<lparr>world = busybox_machine, sink = []\<rparr>", OF prod.collapse[symmetric]] ok
  show ?thesis by auto
qed

end
