(* ===== verification/Config.thy ===== *)
theory Config
  imports Fakes
begin

text \<open>
  The settings file (\<open>src/src/lib/model/config.h\<close>, \<open>config.cpp\<close>): parsing, printing, reading and
  setting one key, where the file is, and the three keys of \<open>.wslconfig\<close> that are displayed. The TOML
  library is not part of the repository: it is the parameter \<open>toml\<close>, a record of the calls the code
  makes of it, over types of tables and nodes of its own.
\<close>

section \<open>The TOML library\<close>

record toml_parse_error =
  error_line :: u32
  error_column :: u32
  error_description :: string

record ('t, 'n) toml =
  toml_parse :: "string \<Rightarrow> toml_parse_error + 't"
  at_path :: "'t \<Rightarrow> string \<Rightarrow> 'n option"
  at_key :: "'t \<Rightarrow> string \<Rightarrow> 'n option"
  as_array :: "'n \<Rightarrow> 'n list option"
  as_table :: "'n \<Rightarrow> 't option"
  as_string :: "'n \<Rightarrow> string option"
  as_boolean :: "'n \<Rightarrow> bool option"
  value_string :: "'n \<Rightarrow> string option"
  value_bool :: "'n \<Rightarrow> bool option"
  value_u32 :: "'n \<Rightarrow> u32 option"

section \<open>Text helpers\<close>

definition newline :: char where
  "newline = CHR 0x0A"

definition quote :: char where
  "quote = CHR 0x22"

definition escape :: char where
  "escape = CHR 0x5C"

text \<open>The joining loop of the messages: a separator before an element when anything precedes it.\<close>

definition joined :: "string list \<Rightarrow> string" where
  "joined names = foldl (\<lambda>t n. (if t = [] then [] else t @ '', '') @ n) [] names"

definition is_blank :: "char \<Rightarrow> bool" where
  "is_blank c \<longleftrightarrow> c = CHR '' '' \<or> c = CHR 0x09 \<or> c = CHR 0x0D"

definition trimmed :: "string \<Rightarrow> string" where
  "trimmed t = rev (dropWhile is_blank (rev (dropWhile is_blank t)))"

section \<open>The settings\<close>

record config =
  scan_dirs :: "string list"
  compact_trim :: bool
  compact_restart :: bool
  unlock_timeout_seconds :: u32

definition default_config :: config where
  "default_config =
     \<lparr>scan_dirs = [], compact_trim = True, compact_restart = False, unlock_timeout_seconds = 90\<rparr>"

text \<open>\<open>Config::unlock_timeout\<close>, in milliseconds.\<close>

definition config_unlock_timeout :: "config \<Rightarrow> int" where
  "config_unlock_timeout c = 1000 * uint (unlock_timeout_seconds c)"

definition max_unlock_timeout_seconds :: u32 where
  "max_unlock_timeout_seconds = 3600"

definition scan_dirs_key :: string where "scan_dirs_key = ''scan.dirs''"
definition compact_trim_key :: string where "compact_trim_key = ''compact.trim''"
definition compact_restart_key :: string where "compact_restart_key = ''compact.restart''"
definition unlock_timeout_key :: string where "unlock_timeout_key = ''wsl.unlock_timeout_seconds''"

lemmas key_defs = scan_dirs_key_def compact_trim_key_def compact_restart_key_def unlock_timeout_key_def

definition config_keys :: "string list" where
  "config_keys = [scan_dirs_key, compact_trim_key, compact_restart_key, unlock_timeout_key]"

definition parse_bool :: "string \<Rightarrow> bool option" where
  "parse_bool t = (if t = ''true'' then Some True else if t = ''false'' then Some False else None)"

fun seconds_loop :: "u64 \<Rightarrow> string \<Rightarrow> u64 option" where
  "seconds_loop v [] = Some v"
| "seconds_loop v (c # cs) =
     (if \<not> is_digit_char c then None
      else
        (let v' = v * 10 + of_nat (digit_val c) in
         if v' > ucast max_unlock_timeout_seconds then None else seconds_loop v' cs))"

definition parse_seconds :: "string \<Rightarrow> u32 option" where
  "parse_seconds t = (if t = [] then None else map_option ucast (seconds_loop 0 t))"

definition as_toml_string :: "string \<Rightarrow> string" where
  "as_toml_string t =
     [quote] @ concat (map (\<lambda>c. if c = escape \<or> c = quote then [escape, c] else [c]) t) @ [quote]"

section \<open>Parsing and printing\<close>

text \<open>\<open>read_into<T>\<close>: \<open>value\<close> is \<open>node.value<T>()\<close>, \<open>what\<close> is \<open>type_name<T>()\<close>.\<close>

definition read_into ::
  "('t, 'n) toml \<Rightarrow> ('n \<Rightarrow> 'a option) \<Rightarrow> string \<Rightarrow> 't \<Rightarrow> string \<Rightarrow> 'a \<Rightarrow> error + 'a" where
  "read_into toml value what table key target =
     (case at_path toml table key of
        None \<Rightarrow> Inr target
      | Some node \<Rightarrow>
          (case value node of
             None \<Rightarrow> fail Usage (key @ '' is not a '' @ what)
                        ''check the value's type, or delete the line to use the default''
           | Some x \<Rightarrow> Inr x))"

definition type_name_bool :: string where "type_name_bool = ''true or false''"
definition type_name_integral :: string where "type_name_integral = ''whole number''"

definition timeout_advice :: string where
  "timeout_advice =
     ''the utility VM releases the disk about a minute after the last distribution stops, '' @
     ''and never while one is running; use a value under an hour''"

definition parse_config :: "('t, 'n) toml \<Rightarrow> string \<Rightarrow> error + config" where
  "parse_config toml content =
     (case toml_parse toml content of
        Inl e \<Rightarrow>
          fail Usage
            (''config.toml is not valid TOML at line '' @ show_word (error_line e) @ '', column '' @
             show_word (error_column e) @ '': '' @ error_description e)
            ''fix that line, or delete the file to start again from the defaults''
      | Inr table \<Rightarrow>
          (let dirs = (case Option.bind (at_path toml table scan_dirs_key) (as_array toml) of
                         None \<Rightarrow> []
                       | Some entries \<Rightarrow> List.map_filter (value_string toml) entries)
           in
           (case read_into toml (value_bool toml) type_name_bool table compact_trim_key
                   (compact_trim default_config) of
              Inl e \<Rightarrow> Inl e
            | Inr trim \<Rightarrow>
           (case read_into toml (value_bool toml) type_name_bool table compact_restart_key
                   (compact_restart default_config) of
              Inl e \<Rightarrow> Inl e
            | Inr restart \<Rightarrow>
           (case read_into toml (value_u32 toml) type_name_integral table unlock_timeout_key
                   (unlock_timeout_seconds default_config) of
              Inl e \<Rightarrow> Inl e
            | Inr seconds \<Rightarrow>
                if seconds > max_unlock_timeout_seconds then
                  fail Usage
                    (unlock_timeout_key @ '' is '' @ show_word seconds @ '', which is more than the '' @
                     show_word max_unlock_timeout_seconds @ '' second maximum'')
                    timeout_advice
                else
                  Inr \<lparr>scan_dirs = dirs, compact_trim = trim, compact_restart = restart,
                       unlock_timeout_seconds = seconds\<rparr>)))))"

definition show_bool :: "bool \<Rightarrow> string" where
  "show_bool b = (if b then ''true'' else ''false'')"

definition toml_array :: "string list \<Rightarrow> string" where
  "toml_array dirs = ''['' @ join_with '', '' (map as_toml_string dirs) @ '']''"

definition render_config :: "config \<Rightarrow> string" where
  "render_config c =
     concat (map (\<lambda>l. l @ [newline])
       [''# wsldisk configuration. Every value here is a default that the'',
        ''# matching command-line flag still overrides.'',
        [],
        ''[scan]'',
        ''# Extra roots for `wsldisk orphans` to search, on top of the built-in three.'',
        ''dirs = '' @ toml_array (scan_dirs c),
        [],
        ''[compact]'',
        ''# Run fstrim before compacting. `--no-trim` overrides this.'',
        ''trim = '' @ show_bool (compact_trim c),
        ''# Start the distribution again afterwards if it was running.'',
        ''restart = '' @ show_bool (compact_restart c),
        [],
        ''[wsl]'',
        ''# How long `compact` waits for the disk after terminating.'',
        ''unlock_timeout_seconds = '' @ show_word (unlock_timeout_seconds c)])"

section \<open>One key\<close>

definition get_config_value :: "config \<Rightarrow> string \<Rightarrow> string option" where
  "get_config_value c key =
     (if key = scan_dirs_key then Some (joined (scan_dirs c))
      else if key = compact_trim_key then Some (show_bool (compact_trim c))
      else if key = compact_restart_key then Some (show_bool (compact_restart c))
      else if key = unlock_timeout_key then Some (show_word (unlock_timeout_seconds c))
      else None)"

definition set_config_value :: "config \<Rightarrow> string \<Rightarrow> string \<Rightarrow> error + config" where
  "set_config_value c key v =
     (if key = scan_dirs_key then
        Inr (c\<lparr>scan_dirs := filter (\<lambda>t. t \<noteq> []) (map trimmed (split_on (CHR '';'') v))\<rparr>)
      else if key = compact_trim_key \<or> key = compact_restart_key then
        (case parse_bool v of
           None \<Rightarrow> fail Usage (key @ '' takes true or false, not `'' @ v @ ''`'') ''write `true` or `false`''
         | Some b \<Rightarrow>
             Inr (if key = compact_trim_key then c\<lparr>compact_trim := b\<rparr> else c\<lparr>compact_restart := b\<rparr>))
      else if key = unlock_timeout_key then
        (case parse_seconds v of
           None \<Rightarrow>
             fail Usage
               (key @ '' takes a whole number of seconds up to '' @
                show_word max_unlock_timeout_seconds @ '', not `'' @ v @ ''`'')
               timeout_advice
         | Some seconds \<Rightarrow> Inr (c\<lparr>unlock_timeout_seconds := seconds\<rparr>))
      else
        fail Usage (''there is no setting called `'' @ key @ ''`'')
          (''the settings are: '' @ joined config_keys))"

section \<open>The files\<close>

definition config_path :: "'w IFileSystem \<Rightarrow> 'w \<Rightarrow> (error + path) \<times> 'w" where
  "config_path fs =
     attempt (expand_environment fs (wide ''%APPDATA%'')) (\<lambda>appdata.
     ret (Inr (append_path (append_path appdata (wide ''wsldisk'')) (wide ''config.toml''))))"

definition load_config ::
  "('t, 'n) toml \<Rightarrow> 'w IFileSystem \<Rightarrow> path \<Rightarrow> 'w \<Rightarrow> (error + config) \<times> 'w" where
  "load_config toml fs p =
     call (exists_path fs p) (\<lambda>present.
     if \<not> present then ret (Inr default_config)
     else attempt (read_text_file fs p) (\<lambda>content. ret (parse_config toml content)))"

record wsl_config =
  default_vhd_size :: "string option"
  vhd_size :: "string option"
  swap_file :: "string option"

definition empty_wsl_config :: wsl_config where
  "empty_wsl_config = \<lparr>default_vhd_size = None, vhd_size = None, swap_file = None\<rparr>"

definition wsl_config_empty :: "wsl_config \<Rightarrow> bool" where
  "wsl_config_empty c \<longleftrightarrow> default_vhd_size c = None \<and> vhd_size c = None \<and> swap_file c = None"

definition wsl_assign :: "string \<Rightarrow> string \<Rightarrow> wsl_config \<Rightarrow> wsl_config" where
  "wsl_assign n v c =
     (if n = ''defaultVhdSize'' then c\<lparr>default_vhd_size := Some v\<rparr>
      else if n = ''vhdSize'' then c\<lparr>vhd_size := Some v\<rparr>
      else if n = ''swapFile'' then c\<lparr>swap_file := Some v\<rparr>
      else c)"

text \<open>One line of the file: the flag says whether it is in \<open>[wsl2]\<close>.\<close>

definition wsl_line :: "string \<Rightarrow> bool \<times> wsl_config \<Rightarrow> bool \<times> wsl_config" where
  "wsl_line raw = (\<lambda>(in_wsl2, c).
     (let line = trimmed raw in
      if line = [] \<or> hd line = CHR ''#'' \<or> hd line = CHR '';'' then (in_wsl2, c)
      else if hd line = CHR ''['' then (line = ''[wsl2]'', c)
      else if \<not> in_wsl2 then (in_wsl2, c)
      else if CHR ''='' \<notin> set line then (in_wsl2, c)
      else
        (let n = trimmed (takeWhile (\<lambda>x. x \<noteq> CHR ''='') line);
             v = trimmed (tl (dropWhile (\<lambda>x. x \<noteq> CHR ''='') line))
         in (in_wsl2, wsl_assign n v c))))"

definition parse_wslconfig :: "string \<Rightarrow> wsl_config" where
  "parse_wslconfig content =
     snd (fold wsl_line (split_on newline content) (False, empty_wsl_config))"

definition wslconfig_path :: "'w IFileSystem \<Rightarrow> 'w \<Rightarrow> (error + path) \<times> 'w" where
  "wslconfig_path fs =
     attempt (expand_environment fs (wide ''%USERPROFILE%'')) (\<lambda>profile.
     ret (Inr (append_path profile (wide ''.wslconfig''))))"

section \<open>What a configuration is\<close>

text \<open>What \<open>config set\<close> and the file are both held to.\<close>

definition config_ok :: "config \<Rightarrow> bool" where
  "config_ok c \<longleftrightarrow> unlock_timeout_seconds c \<le> max_unlock_timeout_seconds"

lemma keys_distinct [simp]:
  "scan_dirs_key \<noteq> compact_trim_key" "scan_dirs_key \<noteq> compact_restart_key"
  "scan_dirs_key \<noteq> unlock_timeout_key" "compact_trim_key \<noteq> scan_dirs_key"
  "compact_trim_key \<noteq> compact_restart_key" "compact_trim_key \<noteq> unlock_timeout_key"
  "compact_restart_key \<noteq> scan_dirs_key" "compact_restart_key \<noteq> compact_trim_key"
  "compact_restart_key \<noteq> unlock_timeout_key" "unlock_timeout_key \<noteq> scan_dirs_key"
  "unlock_timeout_key \<noteq> compact_trim_key" "unlock_timeout_key \<noteq> compact_restart_key"
  by (simp_all add: key_defs)

lemma default_config_ok: "config_ok default_config"
  by (simp add: config_ok_def default_config_def max_unlock_timeout_seconds_def)

lemma parse_config_ok: "parse_config toml content = Inr c \<Longrightarrow> config_ok c"
  by (auto simp: parse_config_def config_ok_def Let_def fail_def split: sum.splits if_splits)

lemma load_config_ok: "load_config toml fs p w = (Inr c, w') \<Longrightarrow> config_ok c"
  by (auto simp: load_config_def call_def attempt_def default_config_ok
      dest: parse_config_ok split: prod.splits sum.splits if_splits)

section \<open>Seconds\<close>

text \<open>The loop stops as soon as the value passes the maximum, so it never wraps.\<close>

lemma seconds_step:
  assumes "unat v \<le> 3600" and "d < 10"
  shows "unat (v * 10 + of_nat d :: u64) = unat v * 10 + d"
proof -
  have m: "unat (v * 10) = unat v * 10"
    using assms(1) by (subst unat_mult_lem [THEN iffD1]) simp_all
  have d: "unat (of_nat d :: u64) = d"
    using assms(2) by (simp add: unat_of_nat take_bit_nat_eq_self)
  show ?thesis
    using assms by (subst unat_add_lem [THEN iffD1]) (simp_all add: m d)
qed

lemma seconds_loop_exact:
  assumes "unat v \<le> 3600"
  shows "seconds_loop v cs =
    (if (\<forall>c \<in> set cs. is_digit_char c) \<and> digits_value (unat v) cs \<le> 3600
     then Some (of_nat (digits_value (unat v) cs)) else None)"
  using assms
proof (induction cs arbitrary: v)
  case (Cons c cs)
  show ?case
  proof (cases "is_digit_char c")
    case True
    then have d: "digit_val c < 10" by (rule digit_val_less)
    note step = seconds_step[OF Cons.prems d]
    have gt: "v * 10 + of_nat (digit_val c) > (ucast max_unlock_timeout_seconds :: u64) \<longleftrightarrow>
        3600 < unat v * 10 + digit_val c"
      by (simp add: word_less_nat_alt step max_unlock_timeout_seconds_def)
    show ?thesis
    proof (cases "3600 < unat v * 10 + digit_val c")
      case True
      then have "3600 < digits_value (unat v * 10 + digit_val c) cs"
        using digits_value_ge[of "unat v * 10 + digit_val c" cs] by simp
      with True gt show ?thesis by (simp add: Let_def)
    next
      case False
      with Cons.IH[of "v * 10 + of_nat (digit_val c)"] gt step \<open>is_digit_char c\<close>
      show ?thesis by (simp add: Let_def)
    qed
  qed simp
qed simp

lemma parse_seconds_exact:
  "parse_seconds t =
    (if t \<noteq> [] \<and> (\<forall>c \<in> set t. is_digit_char c) \<and> digits_value 0 t \<le> 3600
     then Some (of_nat (digits_value 0 t)) else None)"
proof -
  have "ucast (of_nat n :: u64) = (of_nat n :: u32)" if "n \<le> 3600" for n
    using that by (simp add: unsigned_of_nat take_bit_nat_eq_self)
  then show ?thesis
    using seconds_loop_exact[of 0 t] by (auto simp: parse_seconds_def)
qed

lemma parse_seconds_show:
  assumes "s \<le> max_unlock_timeout_seconds"
  shows "parse_seconds (show_word s) = Some s"
proof -
  have "unat s \<le> 3600"
    using assms by (simp add: word_le_nat_alt max_unlock_timeout_seconds_def)
  then show ?thesis
    using show_nat_digits by (auto simp: parse_seconds_exact show_word_def digits_value_show_nat)
qed

lemma parse_seconds_ok: "parse_seconds t = Some s \<Longrightarrow> s \<le> max_unlock_timeout_seconds"
  by (auto simp: parse_seconds_exact max_unlock_timeout_seconds_def word_le_nat_alt unat_of_nat
      take_bit_nat_eq_self split: if_splits)

lemma parse_bool_of_show [simp]: "parse_bool (show_bool b) = Some b"
  by (cases b) (simp_all add: parse_bool_def show_bool_def)

lemma parse_bool_show: "parse_bool t = Some b \<longleftrightarrow> t = show_bool b"
  by (auto simp: parse_bool_def show_bool_def)

section \<open>Setting and getting\<close>

lemma set_config_value_ok: "config_ok c \<Longrightarrow> set_config_value c k v = Inr c' \<Longrightarrow> config_ok c'"
  by (auto simp: set_config_value_def config_ok_def fail_def dest: parse_seconds_ok
      split: if_splits option.splits)

lemmas get_set_defs = get_config_value_def set_config_value_def

text \<open>C31: every configuration the program holds keeps its wait within the hour, wherever it came from:
  the defaults, the file, or a sequence of \<open>config set\<close>.\<close>

theorem config_stays_in_bounds:
  assumes "fst (load_config toml fs p w) = Inr c \<or> parse_config toml content = Inr c \<or>
    (config_ok given \<and> set_config_value given k v = Inr c)"
  shows "config_ok c \<and> 0 \<le> config_unlock_timeout c \<and> config_unlock_timeout c \<le> 3600000"
proof -
  have ok: "config_ok c"
    using assms
  proof (elim disjE conjE)
    assume "fst (load_config toml fs p w) = Inr c"
    then obtain w' where "load_config toml fs p w = (Inr c, w')"
      by (cases "load_config toml fs p w") simp
    then show ?thesis by (rule load_config_ok)
  next
    assume "parse_config toml content = Inr c"
    then show ?thesis by (rule parse_config_ok)
  next
    assume "config_ok given" "set_config_value given k v = Inr c"
    then show ?thesis by (rule set_config_value_ok)
  qed
  then have "unat (unlock_timeout_seconds c) \<le> 3600"
    by (simp add: config_ok_def word_le_nat_alt max_unlock_timeout_seconds_def)
  moreover have "uint (unlock_timeout_seconds c) = int (unat (unlock_timeout_seconds c))"
    by (rule uint_nat)
  ultimately show ?thesis using ok unfolding config_unlock_timeout_def by linarith
qed

theorem config_stays_in_bounds_witness:
  "\<exists>c. set_config_value default_config unlock_timeout_key ''3600'' = Inr c \<and>
     config_unlock_timeout c \<le> 3600000"
proof -
  have set: "set_config_value default_config unlock_timeout_key ''3600'' =
      Inr (default_config\<lparr>unlock_timeout_seconds := 3600\<rparr>)"
    by code_simp
  from config_stays_in_bounds[OF disjI2, OF disjI2, OF conjI, OF default_config_ok set] set
  show ?thesis by auto
qed

text \<open>C28: \<open>config set\<close> after \<open>config get\<close>, on the keys with one value: what \<open>get\<close> prints is accepted by
  \<open>set\<close> and changes nothing.\<close>

theorem set_config_value_of_get:
  assumes "config_ok c" and "k \<in> {compact_trim_key, compact_restart_key, unlock_timeout_key}"
  shows "\<exists>v. get_config_value c k = Some v \<and> set_config_value c k v = Inr c"
  using assms by (auto simp: get_set_defs config_ok_def parse_seconds_show)

theorem set_config_value_of_get_witness:
  "\<exists>v. get_config_value default_config ''compact.trim'' = Some v \<and>
     set_config_value default_config ''compact.trim'' v = Inr default_config"
proof -
  have "config_ok default_config" by (rule default_config_ok)
  from set_config_value_of_get[OF this, of "''compact.trim''"] show ?thesis
    by (simp add: key_defs)
qed



section \<open>Strings in the file\<close>

text \<open>The reading of a TOML basic string, as far as the printed ones go: between quotation marks, an
  escaped backslash or quotation mark, and no other escape and no control character.\<close>

fun basic_body :: "string \<Rightarrow> string option" where
  "basic_body [] = None"
| "basic_body (c # cs) =
     (if c = quote then (if cs = [] then Some [] else None)
      else if c = escape then
        (case cs of
           [] \<Rightarrow> None
         | d # ds \<Rightarrow>
             if d = escape \<or> d = quote then map_option (Cons d) (basic_body ds) else None)
      else if (of_char c :: nat) < 32 \<or> (of_char c :: nat) = 127 then None
      else map_option (Cons c) (basic_body cs))"

definition basic_string :: "string \<Rightarrow> string option" where
  "basic_string t = (case t of [] \<Rightarrow> None | c # cs \<Rightarrow> if c = quote then basic_body cs else None)"

definition is_control :: "char \<Rightarrow> bool" where
  "is_control c \<longleftrightarrow> (of_char c :: nat) < 32 \<or> (of_char c :: nat) = 127"

lemma marks: "quote \<noteq> escape" "\<not> is_control quote" "\<not> is_control escape"
  by (simp_all add: quote_def escape_def is_control_def)

lemma basic_body_escaped:
  "basic_body (concat (map (\<lambda>c. if c = escape \<or> c = quote then [escape, c] else [c]) t) @ [quote]) =
     (if \<exists>c \<in> set t. is_control c then None else Some t)"
proof (induction t)
  case (Cons c t)
  then show ?case using marks by (auto simp: is_control_def)
qed simp


section \<open>The WSL settings\<close>

text \<open>Reference: the assignments of the \<open>[wsl2]\<close> sections in order, the last one for a name counting.
  \<open>section_at\<close> is the last header before a line.\<close>

definition is_comment :: "string \<Rightarrow> bool" where
  "is_comment line \<longleftrightarrow> line = [] \<or> hd line = CHR ''#'' \<or> hd line = CHR '';''"

definition is_header :: "string \<Rightarrow> bool" where
  "is_header line \<longleftrightarrow> \<not> is_comment line \<and> hd line = CHR ''[''"

definition section_at :: "string list \<Rightarrow> string option" where
  "section_at before = List.find is_header (rev before)"

definition assignment :: "string \<Rightarrow> (string \<times> string) option" where
  "assignment line =
     (if is_comment line \<or> is_header line \<or> CHR ''='' \<notin> set line then None
      else Some (trimmed (takeWhile (\<lambda>x. x \<noteq> CHR ''='') line),
                 trimmed (tl (dropWhile (\<lambda>x. x \<noteq> CHR ''='') line))))"

definition wsl2_at :: "string list \<Rightarrow> nat \<Rightarrow> (string \<times> string) option" where
  "wsl2_at lines i =
     (if section_at (take i lines) = Some ''[wsl2]'' then assignment (lines ! i) else None)"

definition wsl2_assignments :: "string list \<Rightarrow> (string \<times> string) list" where
  "wsl2_assignments lines = List.map_filter (wsl2_at lines) [0..<length lines]"

lemma wsl2_at_snoc:
  "i < length ls \<Longrightarrow> wsl2_at (ls @ [l]) i = wsl2_at ls i"
  "wsl2_at (ls @ [l]) (length ls) = (if section_at ls = Some ''[wsl2]'' then assignment l else None)"
  by (simp_all add: wsl2_at_def nth_append)

lemma wsl2_assignments_snoc:
  "wsl2_assignments (ls @ [l]) =
     wsl2_assignments ls @
     (if section_at ls = Some ''[wsl2]'' then (case assignment l of None \<Rightarrow> [] | Some a \<Rightarrow> [a]) else [])"
proof -
  have "List.map_filter (wsl2_at (ls @ [l])) [0..<length ls] = List.map_filter (wsl2_at ls) [0..<length ls]"
    unfolding List.map_filter_def by (intro map_cong filter_cong) (auto simp: wsl2_at_snoc)
  moreover have "List.map_filter (wsl2_at (ls @ [l])) [length ls] =
      (if section_at ls = Some ''[wsl2]'' then (case assignment l of None \<Rightarrow> [] | Some a \<Rightarrow> [a]) else [])"
    by (simp add: List.map_filter_def wsl2_at_snoc(2) split: option.splits)
  moreover have "List.map_filter f (xs @ ys) = List.map_filter f xs @ List.map_filter f ys"
    for f :: "nat \<Rightarrow> (string \<times> string) option" and xs ys
    by (simp add: List.map_filter_def)
  ultimately show ?thesis by (simp add: wsl2_assignments_def)
qed

lemma wsl_line_step:
  "wsl_line raw (in2, c) =
     (let l = trimmed raw in
      (if is_header l then l = ''[wsl2]'' else in2,
       if in2 then (case assignment l of None \<Rightarrow> c | Some (n, v) \<Rightarrow> wsl_assign n v c) else c))"
  by (auto simp: wsl_line_def assignment_def is_header_def is_comment_def Let_def)

lemma fold_wsl_line:
  "fold wsl_line raws (False, empty_wsl_config) =
     (section_at (map trimmed raws) = Some ''[wsl2]'',
      fold (\<lambda>(n, v). wsl_assign n v) (wsl2_assignments (map trimmed raws)) empty_wsl_config)"
proof (induction raws rule: rev_induct)
  case Nil
  then show ?case by (simp add: section_at_def wsl2_assignments_def List.map_filter_def)
next
  case (snoc raw raws)
  have "section_at (ls @ [l]) = (if is_header l then Some l else section_at ls)" for ls l
    by (simp add: section_at_def)
  with snoc show ?case
    by (auto simp: wsl_line_step Let_def wsl2_assignments_snoc split: option.splits)
qed

lemma wsl_assign_fold:
  "fold (\<lambda>(n, v). wsl_assign n v) as c =
     \<lparr>default_vhd_size = (case map_of (rev as) ''defaultVhdSize'' of None \<Rightarrow> default_vhd_size c | Some v \<Rightarrow> Some v),
      vhd_size = (case map_of (rev as) ''vhdSize'' of None \<Rightarrow> vhd_size c | Some v \<Rightarrow> Some v),
      swap_file = (case map_of (rev as) ''swapFile'' of None \<Rightarrow> swap_file c | Some v \<Rightarrow> Some v)\<rparr>"
  by (induction as rule: rev_induct) (auto simp: wsl_assign_def)

text \<open>The scan of \<open>.wslconfig\<close> reads, for each of its three names, the last value given to it in a
  section headed \<open>[wsl2]\<close>; comments, other sections and lines without an equals sign say nothing.\<close>

theorem parse_wslconfig_last_assignment:
  "parse_wslconfig content =
     (let values = map_of (rev (wsl2_assignments (map trimmed (split_on newline content))))
      in \<lparr>default_vhd_size = values ''defaultVhdSize'', vhd_size = values ''vhdSize'',
          swap_file = values ''swapFile''\<rparr>)"
  unfolding parse_wslconfig_def fold_wsl_line wsl_assign_fold
  by (simp add: empty_wsl_config_def Let_def split: option.splits)

end
