(* ===== verification/Compact.thy ===== *)
theory Compact
  imports Trim Config Repoint
begin

text \<open>
  Reclaiming the space of a disk file (\<open>src/src/lib/ops/compact.h\<close>, \<open>compact.cpp\<close>): trim the guest,
  stop it, wait for the disk to come free, compact the file, start the guest again. The wait is a
  loop on a clock and on another process's lock, so \<open>execute\<close> returns an option and \<open>None\<close> is a wait
  that never ends. The object's members (\<open>before_\<close>, \<open>after_\<close>, \<open>trimmed_bytes_\<close>, \<open>was_running_\<close>,
  \<open>running_before_\<close>) join the world and the sink in the state; \<open>cp_narrow\<close> is \<open>path::string\<close>.
\<close>

section \<open>The operation object\<close>

record compact_options =
  co_trim :: bool
  co_shutdown :: bool
  co_restart :: bool
  co_unlock_timeout :: int
  co_trim_timeout :: int

definition default_compact_options :: compact_options where
  "default_compact_options =
     \<lparr>co_trim = True, co_shutdown = False, co_restart = False, co_unlock_timeout = 90 * 1000,
      co_trim_timeout = 10 * 60 * 1000\<rparr>"

record 'w compact_operation =
  cp_disks :: "'w IVirtualDisk"
  cp_filesystem :: "'w IFileSystem"
  cp_host :: "'w IWslHost"
  cp_clock :: "'w IClock"
  cp_distro :: "distro option"
  cp_path :: path
  cp_options :: compact_options
  cp_narrow :: "path \<Rightarrow> string"

record 'w compact_state = "'w run_state" +
  size_before :: "u64 option"
  size_after :: "u64 option"
  guest_trimmed :: "u64 option"
  was_running :: bool
  running_before :: "string list option"

text \<open>The two constructors: the disk of a distribution, and a loose file.\<close>

definition compact_of_distro ::
  "'w IVirtualDisk \<Rightarrow> 'w IFileSystem \<Rightarrow> 'w IWslHost \<Rightarrow> 'w IClock \<Rightarrow> distro \<Rightarrow> compact_options \<Rightarrow>
     (path \<Rightarrow> string) \<Rightarrow> 'w compact_operation" where
  "compact_of_distro disks fs host clock d options narrow =
     \<lparr>cp_disks = disks, cp_filesystem = fs, cp_host = host, cp_clock = clock, cp_distro = Some d,
      cp_path = vhdx_path d, cp_options = options, cp_narrow = narrow\<rparr>"

definition compact_of_file ::
  "'w IVirtualDisk \<Rightarrow> 'w IFileSystem \<Rightarrow> 'w IWslHost \<Rightarrow> 'w IClock \<Rightarrow> path \<Rightarrow> compact_options \<Rightarrow>
     (path \<Rightarrow> string) \<Rightarrow> 'w compact_operation" where
  "compact_of_file disks fs host clock p options narrow =
     \<lparr>cp_disks = disks, cp_filesystem = fs, cp_host = host, cp_clock = clock, cp_distro = None,
      cp_path = p, cp_options = options, cp_narrow = narrow\<rparr>"

definition compact_start :: "'w \<Rightarrow> sink_event list \<Rightarrow> 'w compact_state" where
  "compact_start w told =
     \<lparr>world = w, sink = told, size_before = None, size_after = None, guest_trimmed = None,
      was_running = False, running_before = None\<rparr>"

definition set_running_before ::
  "string list \<Rightarrow> ('w, 'm) compact_state_scheme \<Rightarrow> ('w, 'm) compact_state_scheme" where
  "set_running_before names s = s\<lparr>running_before := Some names\<rparr>"

definition poll_interval :: int where
  "poll_interval = 500"

definition tick_interval :: int where
  "tick_interval = 1000"

text \<open>\<open>duration_cast<seconds>\<close> truncates towards zero.\<close>

definition whole_seconds :: "int \<Rightarrow> int" where
  "whole_seconds ms = (if ms < 0 then - ((- ms) div 1000) else ms div 1000)"

definition suggested_longer_wait :: "int \<Rightarrow> u32" where
  "suggested_longer_wait current =
     of_int (min (whole_seconds current * 2) (uint max_unlock_timeout_seconds))"

definition reclaimed :: "('w, 'm) compact_state_scheme \<Rightarrow> u64 option" where
  "reclaimed s =
     (case (size_before s, size_after s) of
        (Some before, Some after) \<Rightarrow> Some (if after \<ge> before then 0 else before - after)
      | _ \<Rightarrow> None)"

definition others_running :: "'w compact_operation \<Rightarrow> 'w \<Rightarrow> string list \<times> 'w" where
  "others_running c w = (case running (cp_host c) w of (r, w') \<Rightarrow> (value_or r [], w'))"

definition others_running_excluding ::
  "'w compact_operation \<Rightarrow> distro \<Rightarrow> 'w \<Rightarrow> string list \<times> 'w" where
  "others_running_excluding c d w =
     (case others_running c w of (names, w') \<Rightarrow> (filter (\<lambda>n. \<not> find_matches d n) names, w'))"

section \<open>Planning\<close>

definition trim_guest_step :: "distro \<Rightarrow> step_plan" where
  "trim_guest_step d = mutating_step (''run fstrim in '' @ distro_name d)"

definition stop_step :: "'w compact_operation \<Rightarrow> distro \<Rightarrow> step_plan" where
  "stop_step c d =
     mutating_step (if co_shutdown (cp_options c) then ''shut WSL down so the disk is released''
                    else ''stop '' @ distro_name d @ '' and wait for its disk'')"

definition compaction_step :: "'w compact_operation \<Rightarrow> step_plan" where
  "compaction_step c = mutating_step (''compact '' @ cp_narrow c (cp_path c))"

definition restart_step :: "distro \<Rightarrow> step_plan" where
  "restart_step d = mutating_step (''start '' @ distro_name d @ '' again'')"

text \<open>\<open>plan_guest_steps\<close>: whether the guest ran, by the caller's snapshot or by asking, and the steps.\<close>

definition plan_guest_steps ::
  "'w compact_operation \<Rightarrow> distro \<Rightarrow> ('w, 'm) compact_state_scheme \<Rightarrow>
     step_plan list \<times> ('w, 'm) compact_state_scheme" where
  "plan_guest_steps c d s =
     (let steps = (if co_trim (cp_options c) then [trim_guest_step d] else []) @ [stop_step c d] in
      case running_before s of
        Some names \<Rightarrow> (steps, s\<lparr>was_running := list_ex (find_matches d) names\<rparr>)
      | None \<Rightarrow>
          (case running (cp_host c) (world s) of
             (Inr names, w) \<Rightarrow> (steps, s\<lparr>world := w, was_running := list_ex (find_matches d) names\<rparr>)
           | (Inl _, w) \<Rightarrow> (steps, s\<lparr>world := w, was_running := False\<rparr>)))"

text \<open>\<open>if (size.has_value()) before_ = *size;\<close>\<close>

definition measure_before ::
  "'w compact_operation \<Rightarrow> ('w, 'm) compact_state_scheme \<Rightarrow> unit \<times> ('w, 'm) compact_state_scheme" where
  "measure_before c s =
     (case file_size_on_disk (cp_filesystem c) (cp_path c) (world s) of
        (Inl _, w) \<Rightarrow> ((), s\<lparr>world := w\<rparr>)
      | (Inr n, w) \<Rightarrow> ((), s\<lparr>world := w, size_before := Some n\<rparr>))"

definition measure_after ::
  "'w compact_operation \<Rightarrow> ('w, 'm) compact_state_scheme \<Rightarrow> unit \<times> ('w, 'm) compact_state_scheme" where
  "measure_after c s =
     (case file_size_on_disk (cp_filesystem c) (cp_path c) (world s) of
        (Inl _, w) \<Rightarrow> ((), s\<lparr>world := w\<rparr>)
      | (Inr n, w) \<Rightarrow> ((), s\<lparr>world := w, size_after := Some n\<rparr>))"

definition restarts :: "'w compact_operation \<Rightarrow> ('w, 'm) compact_state_scheme \<Rightarrow> bool" where
  "restarts c s \<longleftrightarrow> cp_distro c \<noteq> None \<and> co_restart (cp_options c) \<and> was_running s"

definition compact_planned ::
  "'w compact_operation \<Rightarrow> step_plan list \<Rightarrow> ('w, 'm) compact_state_scheme \<Rightarrow> plan" where
  "compact_planned c guest_steps s =
     \<lparr>plan_steps =
        guest_steps @ [compaction_step c] @
        (if restarts c s then [restart_step (the (cp_distro c))] else []),
      plan_estimate = no_estimate,
      plan_warnings =
        [\<lparr>warning_message = ''compaction rewrites the disk file and cannot be undone'',
          warning_remedy = ''nothing inside the distribution changes; only unused blocks go''\<rparr>] @
        (if co_shutdown (cp_options c) then []
         else
           [\<lparr>warning_message = ''the disk can only be released by stopping every distribution'',
             warning_remedy =
               ''re-run with --shutdown if this refuses because something else is holding it''\<rparr>])\<rparr>"

definition compact_plan ::
  "'w compact_operation \<Rightarrow> ('w, 'm) compact_state_scheme \<Rightarrow>
     (error + plan) \<times> ('w, 'm) compact_state_scheme" where
  "compact_plan c =
     (if (case cp_distro c of Some d \<Rightarrow> \<not> is_wsl2 d | None \<Rightarrow> False)
      then ret (wsl1_refusal (the (cp_distro c)))
      else call (on_world (exists_path (cp_filesystem c) (cp_path c))) (\<lambda>present.
        if \<not> present then
          ret (fail Preflight (cp_narrow c (cp_path c) @ '' does not exist'')
            (if cp_distro c \<noteq> None then
               ''run `wsldisk info` to see where the distribution points, and '' @
               ''`wsldisk orphans --relink` if the disk has moved''
             else ''check the path''))
        else
          call (measure_before c) (\<lambda>_.
          call (case cp_distro c of Some d \<Rightarrow> plan_guest_steps c d | None \<Rightarrow> ret []) (\<lambda>steps.
          (\<lambda>s. (Inr (compact_planned c steps s), s))))))"

section \<open>Waiting for the disk\<close>

text \<open>What a round of the wait prints.\<close>

definition notify_waiting ::
  "int \<Rightarrow> int \<Rightarrow> ('w, 'm) run_state_scheme \<Rightarrow> unit \<times> ('w, 'm) run_state_scheme" where
  "notify_waiting limit waited s =
     ((), s\<lparr>sink := sink s @
        (if waited = 0 then
           [Sink_message (''the WSL utility VM still has the disk open; it lets go about a '' @
                          ''minute after the last distribution stops'')]
         else []) @
        (if waited mod tick_interval = 0 then
           [Sink_status (''waiting for the disk ... '' @ show_int (whole_seconds waited) @ ''s of '' @
                         show_int (whole_seconds limit) @ ''s'')]
         else [])\<rparr>)"

text \<open>The loop of \<open>release_disk\<close>: whether the disk came free before the wait gave up.\<close>

partial_function (option) wait_released ::
  "'w IFileSystem \<Rightarrow> 'w IClock \<Rightarrow> path \<Rightarrow> int \<Rightarrow> bool \<Rightarrow> int \<Rightarrow> int \<Rightarrow> ('w, 'm) run_state_scheme \<Rightarrow>
     ((error + bool) \<times> ('w, 'm) run_state_scheme) option" where
  "wait_released fs clock p limit can_help deadline waited s =
     (case on_world (is_locked fs p) s of
        (Inl e, s1) \<Rightarrow> Some (Inl e, s1)
      | (Inr locked, s1) \<Rightarrow>
          if \<not> locked then Some (Inr True, s1)
          else if \<not> can_help then Some (Inr False, s1)
          else
            (case on_world (now clock) s1 of
               (t, s2) \<Rightarrow>
                 if t \<ge> deadline then Some (Inr False, s2)
                 else
                   (case notify_waiting limit waited s2 of
                      (_, s3) \<Rightarrow>
                        wait_released fs clock p limit can_help deadline (waited + poll_interval)
                          (s3\<lparr>world := sleep_for clock poll_interval (world s3)\<rparr>))))"

declare wait_released.simps [code]

text \<open>The refusal once the wait has given up.\<close>

definition still_locked :: "'w compact_operation \<Rightarrow> string list \<Rightarrow> status" where
  "still_locked c others =
     (let who = (if others = [] then ''still held by the WSL utility VM''
                 else ''still open in '' @ joined others);
          remedy =
            (if co_shutdown (cp_options c) then
               ''WSL has been shut down and something else still has the file open -- a backup '' @
               ''agent, an antivirus scanner or Hyper-V Manager are the usual ones''
             else if others = [] then
               ''nothing is running, so the VM is still winding down -- it releases the disk about a '' @
               ''minute after the last distribution stops. Raise the wait with `wsldisk config set '' @
               ''wsl.unlock_timeout_seconds '' @
               show_word (suggested_longer_wait (co_unlock_timeout (cp_options c))) @
               ''`, or re-run with --shutdown to stop it now''
             else
               ''the WSL utility VM keeps every disk open while any distribution runs; '' @
               ''re-run with --shutdown to stop them all, or close them yourself first'')
      in fail DistroBusy (cp_narrow c (cp_path c) @ '' is '' @ who) remedy)"

definition release_disk ::
  "'w compact_operation \<Rightarrow> distro \<Rightarrow> ('w, 'm) run_state_scheme \<Rightarrow>
     (status \<times> ('w, 'm) run_state_scheme) option" where
  "release_disk c d =
     (let limit = co_unlock_timeout (cp_options c) in
      attempt_wait (at_once (on_world
        (if co_shutdown (cp_options c) then shutdown_wsl (cp_host c)
         else terminate (cp_host c) (distro_name d)))) (\<lambda>_ s.
      (case on_world (others_running_excluding c d) s of
         (blockers, s1) \<Rightarrow>
      (case on_world (now (cp_clock c)) s1 of
         (t, s2) \<Rightarrow>
           attempt_wait
             (wait_released (cp_filesystem c) (cp_clock c) (cp_path c) limit (blockers = []) (t + limit) 0)
             (\<lambda>free. at_once
               (if free then ret (Inr ())
                else
                  call (if blockers = [] then on_world (others_running c) else ret blockers) (\<lambda>others.
                  ret (still_locked c others)))) s2))))"

section \<open>Executing\<close>

definition set_trimmed :: "u64 option \<Rightarrow> ('w, 'm) compact_state_scheme \<Rightarrow> unit \<times> ('w, 'm) compact_state_scheme" where
  "set_trimmed n s = ((), s\<lparr>guest_trimmed := n\<rparr>)"

definition run_trim ::
  "'w compact_operation \<Rightarrow> distro \<Rightarrow> ('w, 'm) compact_state_scheme \<Rightarrow>
     (error + report \<times> nat) \<times> ('w, 'm) compact_state_scheme" where
  "run_trim c d =
     (if \<not> co_trim (cp_options c) then ret (Inr (empty_report, 0))
      else
        call (notify (Step_started 0 (trim_guest_step d))) (\<lambda>_.
        attempt (run_fstrim (cp_host c) (distro_name d) (co_trim_timeout (cp_options c))) (\<lambda>r.
        call (set_trimmed (trimmed_bytes r)) (\<lambda>_.
        call (notify (Step_finished 0 (trim_guest_step d))) (\<lambda>_.
        ret (Inr (add_completed (step_description (trim_guest_step d)) empty_report, 1)))))))"

text \<open>\<open>run_guest_steps\<close>: the report and the index it was handed come back with its status.\<close>

definition run_guest_steps ::
  "'w compact_operation \<Rightarrow> distro \<Rightarrow> ('w, 'm) compact_state_scheme \<Rightarrow>
     ((error + report \<times> nat) \<times> ('w, 'm) compact_state_scheme) option" where
  "run_guest_steps c d =
     attempt_wait (at_once (run_trim c d)) (\<lambda>(r, index).
     attempt_wait (at_once (call (notify (Step_started index (stop_step c d))) (\<lambda>_. ret (Inr ())))) (\<lambda>_.
     attempt_wait (release_disk c d) (\<lambda>_.
     at_once (call (notify (Step_finished index (stop_step c d))) (\<lambda>_.
     ret (Inr (add_completed (step_description (stop_step c d)) r, index + 1)))))))"

definition require_free_file :: "'w compact_operation \<Rightarrow> 'w \<Rightarrow> status \<times> 'w" where
  "require_free_file c =
     attempt (is_locked (cp_filesystem c) (cp_path c)) (\<lambda>locked.
     if locked then
       ret (fail DistroBusy (cp_narrow c (cp_path c) @ '' is open in another process'')
         (''close whatever is using it -- `wsl --shutdown` for WSL, or quit Docker '' @
          ''Desktop -- and try again''))
     else ret (Inr ()))"

text \<open>A restart that fails is told to the sink and to nobody else.\<close>

definition restart_guest ::
  "'w compact_operation \<Rightarrow> distro \<Rightarrow> nat \<Rightarrow> report \<Rightarrow> ('w, 'm) run_state_scheme \<Rightarrow>
     report \<times> ('w, 'm) run_state_scheme" where
  "restart_guest c d index r =
     call (notify (Step_started index (restart_step d))) (\<lambda>_.
     call (on_world (run_as_root (cp_host c) (distro_name d) smoke_argv
            (co_trim_timeout (cp_options c)))) (\<lambda>started.
     case started of
       Inl e \<Rightarrow>
         call (notify (Sink_message
           (''could not start '' @ distro_name d @ '' again: '' @ error_to_string e))) (\<lambda>_. ret r)
     | Inr result \<Rightarrow>
         if \<not> succeeded result then
           call (notify (Sink_message
             (''could not start '' @ distro_name d @ '' again: it exited '' @
              show_int (exit_code result)))) (\<lambda>_. ret r)
         else
           call (notify (Step_finished index (restart_step d))) (\<lambda>_.
           ret (add_completed (step_description (restart_step d)) r))))"

definition restart_if_asked ::
  "'w compact_operation \<Rightarrow> ('w, 'm) compact_state_scheme \<Rightarrow> unit \<times> ('w, 'm) compact_state_scheme" where
  "restart_if_asked c s =
     (if \<not> restarts c s then ((), s)
      else call (restart_guest c (the (cp_distro c)) 0 empty_report) (\<lambda>_. ret ()) s)"

definition compact_prepare ::
  "'w compact_operation \<Rightarrow> ('w, 'm) compact_state_scheme \<Rightarrow>
     ((error + report \<times> nat) \<times> ('w, 'm) compact_state_scheme) option" where
  "compact_prepare c =
     (case cp_distro c of
        Some d \<Rightarrow> run_guest_steps c d
      | None \<Rightarrow>
          at_once (attempt (on_world (require_free_file c)) (\<lambda>_. ret (Inr (empty_report, 0)))))"

text \<open>The compaction on an open handle: its progress goes to the sink, and the handle is closed before
  the file is measured. A handle that is abandoned closes when \<open>execute\<close> returns, which is after the
  restart.\<close>

definition compact_opened ::
  "'w compact_operation \<Rightarrow> nat \<Rightarrow> 'w IVirtualDiskHandle \<Rightarrow> ('w, 'm) compact_state_scheme \<Rightarrow>
     status \<times> ('w, 'm) compact_state_scheme" where
  "compact_opened c index handle s =
     (case compact_disk handle (\<lambda>_. True) (world s) of
        ((compacted, marks), w1) \<Rightarrow>
          (let s1 = s\<lparr>world := w1, sink := sink s @ map Step_progress marks\<rparr> in
           case compacted of
             Inl e \<Rightarrow>
               call (restart_if_asked c) (\<lambda>_.
               call (\<lambda>s. ((), s\<lparr>world := close_disk handle (world s)\<rparr>)) (\<lambda>_. ret (Inl e))) s1
           | Inr _ \<Rightarrow>
               call (\<lambda>s. ((), s\<lparr>world := close_disk handle (world s)\<rparr>)) (\<lambda>_. ret (Inr ())) s1))"

definition compact_file ::
  "'w compact_operation \<Rightarrow> report \<Rightarrow> nat \<Rightarrow> ('w, 'm) compact_state_scheme \<Rightarrow>
     (error + report) \<times> ('w, 'm) compact_state_scheme" where
  "compact_file c r index =
     call (measure_before c) (\<lambda>_.
     call (notify (Step_started index (compaction_step c))) (\<lambda>_.
     call (on_world (open_disk (cp_disks c) (cp_path c))) (\<lambda>opened.
     case opened of
       Inl e \<Rightarrow> call (restart_if_asked c) (\<lambda>_. ret (Inl e))
     | Inr handle \<Rightarrow>
         attempt (compact_opened c index handle) (\<lambda>_.
         call (measure_after c) (\<lambda>_.
         call (notify (Step_finished index (compaction_step c))) (\<lambda>_.
         call (\<lambda>s. if restarts c s
                   then restart_guest c (the (cp_distro c)) (index + 1)
                          (add_completed (step_description (compaction_step c)) r) s
                   else (add_completed (step_description (compaction_step c)) r, s)) (\<lambda>r'.
         (\<lambda>s. (Inr (r'\<lparr>actual := (actual r')\<lparr>bytes_freed := reclaimed s\<rparr>\<rparr>), s)))))))))"

definition compact_execute ::
  "'w compact_operation \<Rightarrow> ('w, 'm) compact_state_scheme \<Rightarrow>
     ((error + report) \<times> ('w, 'm) compact_state_scheme) option" where
  "compact_execute c =
     attempt_wait (compact_prepare c) (\<lambda>(r, index). at_once (compact_file c r index))"

definition compact_verify ::
  "'w compact_operation \<Rightarrow> ('w, 'm) compact_state_scheme \<Rightarrow> status \<times> ('w, 'm) compact_state_scheme" where
  "compact_verify c s =
     (case (size_before s, size_after s) of
        (Some before, Some after) \<Rightarrow>
          (if after > before then
             fail Partial (cp_narrow c (cp_path c) @ '' grew during compaction'')
               ''the disk is intact; run `wsldisk info` to see its size now''
           else Inr (), s)
      | _ \<Rightarrow> (Inr (), s))"

definition compact_ioperation :: "'w compact_operation \<Rightarrow> 'w compact_state IOperation" where
  "compact_ioperation c =
     \<lparr>op_plan = compact_plan c, op_execute = compact_execute c, op_verify = compact_verify c,
      op_rollback = id\<rparr>"

section \<open>The wait ends\<close>

text \<open>One round of the wait.\<close>

lemma wait_round:
  assumes "is_locked fs p (world s) = (r, w1)"
  shows "wait_released fs clock p limit can_help deadline waited s =
    (case r of
       Inl e \<Rightarrow> Some (Inl e, s\<lparr>world := w1\<rparr>)
     | Inr locked \<Rightarrow>
         if \<not> locked then Some (Inr True, s\<lparr>world := w1\<rparr>)
         else if \<not> can_help then Some (Inr False, s\<lparr>world := w1\<rparr>)
         else if fst (now clock w1) \<ge> deadline then Some (Inr False, s\<lparr>world := snd (now clock w1)\<rparr>)
         else wait_released fs clock p limit can_help deadline (waited + poll_interval)
                ((snd (notify_waiting limit waited s))\<lparr>world := sleep_for clock poll_interval (snd (now clock w1))\<rparr>))"
  using assms
  by (subst wait_released.simps)
     (auto simp: on_world_def notify_waiting_def split: sum.splits prod.splits)

context wait_contract
begin

text \<open>After a round the clock has passed the reading of the round by a poll.\<close>

lemma round_advances:
  assumes "is_locked fs p w = (r, w1)"
  shows "time w \<le> fst (now clock w1)"
    and "fst (now clock w1) + poll_interval \<le> time (sleep_for clock poll_interval (snd (now clock w1)))"
proof -
  obtain t w2 where n: "now clock w1 = (t, w2)" by (meson surj_pair)
  from now_reads[OF n] is_locked_takes_time[OF assms] show "time w \<le> fst (now clock w1)"
    by (simp add: n)
  from now_reads[OF n] sleep_advances[of w2 poll_interval]
  show "fst (now clock w1) + poll_interval \<le> time (sleep_for clock poll_interval (snd (now clock w1)))"
    by (simp add: n)
qed

lemma wait_comes_back:
  "wait_released fs clock p limit can_help deadline waited s \<noteq> None"
proof (induction "nat (deadline - time (world s))" arbitrary: waited s rule: less_induct)
  case less
  obtain r w1 where l: "is_locked fs p (world s) = (r, w1)" by (meson surj_pair)
  let ?next = "(snd (notify_waiting limit waited s))\<lparr>world := sleep_for clock poll_interval (snd (now clock w1))\<rparr>"
  have "wait_released fs clock p limit can_help deadline (waited + poll_interval) ?next \<noteq> None"
    if "fst (now clock w1) < deadline"
    using that round_advances[OF l] by (intro less) (simp add: poll_interval_def)
  then show ?case by (auto simp: wait_round[OF l] not_le split: sum.splits)
qed

text \<open>A lock that is gone from some moment on is seen to go, when the moment is before the deadline by
  more than one query takes.\<close>

lemma wait_succeeds:
  assumes lock: "\<And>w r w'. is_locked fs p w = (r, w') \<Longrightarrow>
      r = Inr (time w < freed) \<and> time w' \<le> time w + query"
    and "freed + query \<le> deadline"
  shows "\<exists>s'. wait_released fs clock p limit True deadline waited s = Some (Inr True, s')"
proof (induction "nat (freed - time (world s))" arbitrary: waited s rule: less_induct)
  case less
  obtain r w1 where l: "is_locked fs p (world s) = (r, w1)" by (meson surj_pair)
  obtain t w2 where n: "now clock w1 = (t, w2)" by (meson surj_pair)
  show ?case
  proof (cases "time (world s) < freed")
    case False
    with lock[OF l] show ?thesis by (simp add: wait_round[OF l])
  next
    case True
    let ?next = "(snd (notify_waiting limit waited s))\<lparr>world := sleep_for clock poll_interval (snd (now clock w1))\<rparr>"
    have "t < deadline" using True assms(2) lock[OF l] now_reads[OF n] by simp
    moreover have "\<exists>s'. wait_released fs clock p limit True deadline (waited + poll_interval) ?next = Some (Inr True, s')"
      using True round_advances[OF l] by (intro less) (simp add: poll_interval_def)
    ultimately show ?thesis using lock[OF l] True by (simp add: wait_round[OF l] n)
  qed
qed

end

text \<open>What the wait has seen when it ends well, and that it has only looked.\<close>

lemma wait_saw_free:
  assumes "wait_released fs clock p limit can_help deadline waited s = Some (Inr True, s')"
  shows "\<exists>w. is_locked fs p w = (Inr False, world s')"
proof -
  have "fst (Inr True :: error + bool, s') = Inr True \<longrightarrow>
      (\<exists>w. is_locked fs p w = (Inr False, world (snd (Inr True :: error + bool, s'))))"
    by (rule wait_released.raw_induct[rotated, where P = "\<lambda>fs clock p limit can_help deadline waited s r.
          fst r = Inr True \<longrightarrow> (\<exists>w. is_locked fs p w = (Inr False, world (snd r)))", OF assms])
       (force simp: on_world_def notify_waiting_def split: sum.splits prod.splits if_splits)
  then show ?thesis by simp
qed

context observer_contract
begin

lemma wait_keeps:
  assumes "wait_released fs' clock' p limit can_help deadline waited s = Some (r, s')"
    and "fs' = fs" and "clock' = clock"
  shows "view (world s') = view (world s)"
proof -
  have "fs' = fs \<and> clock' = clock \<longrightarrow> view (world (snd (r, s'))) = view (world s)"
    by (rule wait_released.raw_induct[rotated, where P = "\<lambda>fs' clock' p limit can_help deadline waited s r.
          fs' = fs \<and> clock' = clock \<longrightarrow> view (world (snd r)) = view (world s)", OF assms(1)])
       (force simp: on_world_def notify_waiting_def sleep_keeps
         dest!: is_locked_keeps now_keeps split: sum.splits prod.splits if_splits)
  with assms show ?thesis by simp
qed

text \<open>The calls before the compaction only look, stop and wait.\<close>

lemma run_fstrim_keeps: "run_fstrim host g l s = (r, s') \<Longrightarrow> view (world s') = view (world s)"
  by (auto simp: run_fstrim_def attempt_def call_def on_world_def notify_def Let_def
      dest!: run_as_root_keeps split: prod.splits sum.splits if_splits)

lemma others_running_keeps:
  assumes "cp_host c = host"
  shows "others_running c w = (names, w') \<Longrightarrow> view w' = view w"
    and "others_running_excluding c d w = (names, w') \<Longrightarrow> view w' = view w"
  unfolding others_running_def others_running_excluding_def assms
  by (auto dest!: running_keeps split: prod.splits)

lemma release_disk_keeps:
  assumes "cp_host c = host" "cp_filesystem c = fs" "cp_clock c = clock"
    and "release_disk c d s = Some (r, s')"
  shows "view (world s') = view (world s)"
    and "r = Inr () \<Longrightarrow> \<exists>w. is_locked fs (cp_path c) w = (Inr False, world s')"
proof -
  let ?stop = "if co_shutdown (cp_options c) then shutdown_wsl (cp_host c) else terminate (cp_host c) (distro_name d)"
  obtain stopped w1 where a: "?stop (world s) = (stopped, w1)" by (meson surj_pair)
  then have v1: "view w1 = view (world s)"
    unfolding assms(1) by (auto dest: shutdown_keeps terminate_keeps split: if_splits)
  have "view (world s') = view (world s) \<and>
    (r = Inr () \<longrightarrow> (\<exists>w. is_locked fs (cp_path c) w = (Inr False, world s')))"
  proof (cases stopped)
    case (Inl e)
    with a v1 assms(4) show ?thesis
      by (auto simp: release_disk_def attempt_wait_def at_once_def on_world_def Let_def)
  next
    case (Inr u)
    obtain blockers w2 where b: "others_running_excluding c d w1 = (blockers, w2)" by (meson surj_pair)
    obtain t w3 where n: "now clock w2 = (t, w3)" by (meson surj_pair)
    have v3: "view w3 = view (world s)"
      using v1 others_running_keeps(2)[OF assms(1) b] now_keeps[OF n] by simp
    let ?wait = "wait_released fs clock (cp_path c) (co_unlock_timeout (cp_options c)) (blockers = [])
      (t + co_unlock_timeout (cp_options c)) 0 (s\<lparr>world := w3\<rparr>)"
    have run: "attempt_wait (\<lambda>_. ?wait) (\<lambda>free. at_once
               (if free then ret (Inr ())
                else
                  call (if blockers = [] then on_world (others_running c) else ret blockers) (\<lambda>others.
                  ret (still_locked c others)))) (s\<lparr>world := w3\<rparr>) = Some (r, s')"
      using assms a b n Inr by (simp add: release_disk_def attempt_wait_def at_once_def on_world_def Let_def)
    then obtain free s4 where w: "?wait = Some (free, s4)"
      by (auto simp: attempt_wait_def split: option.splits)
    from wait_keeps[OF w] v3 have v4: "view (world s4) = view (world s)" by simp
    show ?thesis
    proof (cases "free = Inr True")
      case True
      with run w have "r = Inr ()" "s' = s4" by (auto simp: attempt_wait_def at_once_def)
      with True w v4 wait_saw_free show ?thesis by blast
    next
      case False
      with run w v4 show ?thesis
        by (auto simp: attempt_wait_def at_once_def call_def on_world_def still_locked_def Let_def
            dest!: others_running_keeps(1)[OF assms(1)] split: sum.splits if_splits prod.splits)
    qed
  qed
  then show "view (world s') = view (world s)"
    and "r = Inr () \<Longrightarrow> \<exists>w. is_locked fs (cp_path c) w = (Inr False, world s')" by auto
qed

lemma run_trim_keeps:
  assumes "cp_host c = host" and "run_trim c d s = (r, s')"
  shows "view (world s') = view (world s)"
  using assms(2) unfolding run_trim_def assms(1)
  by (auto simp: call_def attempt_def notify_def set_trimmed_def dest!: run_fstrim_keeps
      split: prod.splits sum.splits if_splits)

lemma run_guest_steps_keeps:
  assumes c: "cp_host c = host" "cp_filesystem c = fs" "cp_clock c = clock"
    and run: "run_guest_steps c d s = Some (r, s')"
  shows "view (world s') = view (world s)"
    and "r = Inr x \<Longrightarrow> \<exists>w. is_locked fs (cp_path c) w = (Inr False, world s')"
proof -
  obtain t s1 where t: "run_trim c d s = (t, s1)" by (meson surj_pair)
  note v1 = run_trim_keeps[OF c(1) t]
  have "view (world s') = view (world s) \<and>
    (\<forall>x. r = Inr x \<longrightarrow> (\<exists>w. is_locked fs (cp_path c) w = (Inr False, world s')))"
  proof (cases t)
    case (Inl e)
    with run t v1 show ?thesis by (auto simp: run_guest_steps_def attempt_wait_def at_once_def)
  next
    case (Inr ri)
    obtain rep index where ri: "ri = (rep, index)" by (meson surj_pair)
    let ?s2 = "s1\<lparr>sink := sink s1 @ [Step_started index (stop_step c d)]\<rparr>"
    from run t Inr ri obtain status s3 where rel: "release_disk c d ?s2 = Some (status, s3)"
      by (auto simp: run_guest_steps_def attempt_wait_def at_once_def call_def notify_def
          split: option.splits)
    note v3 = release_disk_keeps[OF c rel]
    from run t Inr ri rel v1 v3 show ?thesis
      by (auto simp: run_guest_steps_def attempt_wait_def at_once_def call_def notify_def
          split: sum.splits)
  qed
  then show "view (world s') = view (world s)"
    and "r = Inr x \<Longrightarrow> \<exists>w. is_locked fs (cp_path c) w = (Inr False, world s')" by auto
qed

lemma compact_prepare_keeps:
  assumes c: "cp_host c = host" "cp_filesystem c = fs" "cp_clock c = clock"
    and run: "compact_prepare c s = Some (r, s')"
  shows "view (world s') = view (world s)"
    and "r = Inr x \<Longrightarrow> \<exists>w. is_locked fs (cp_path c) w = (Inr False, world s')"
proof -
  have "view (world s') = view (world s) \<and>
    (r = Inr x \<longrightarrow> (\<exists>w. is_locked fs (cp_path c) w = (Inr False, world s')))"
  proof (cases "cp_distro c")
    case None
    obtain l w1 where l: "is_locked fs (cp_path c) (world s) = (l, w1)" by (meson surj_pair)
    from run None is_locked_keeps[OF l] l show ?thesis
      unfolding compact_prepare_def require_free_file_def at_once_def attempt_def on_world_def c(2)
      by (auto split: sum.splits if_splits)
  next
    case (Some d)
    with run have "run_guest_steps c d s = Some (r, s')" by (simp add: compact_prepare_def)
    from run_guest_steps_keeps[OF c this] show ?thesis by blast
  qed
  then show "view (world s') = view (world s)"
    and "r = Inr x \<Longrightarrow> \<exists>w. is_locked fs (cp_path c) w = (Inr False, world s')" by auto
qed

end

text \<open>A clock that moves brings every call back.\<close>

lemma compact_execute_comes_back:
  assumes "wait_contract (cp_clock c) time (cp_filesystem c)"
  shows "comes_back (compact_execute c)"
proof -
  have wait: "comes_back (wait_released (cp_filesystem c) (cp_clock c) (cp_path c) limit helps deadline 0)"
    for limit helps deadline
    unfolding comes_back_def using wait_contract.wait_comes_back[OF assms] by blast
  have release: "comes_back (release_disk c d)" for d
    unfolding release_disk_def Let_def by (intro comes_back_rules wait)
  have "comes_back (run_guest_steps c d)" for d
    unfolding run_guest_steps_def case_prod_unfold by (intro comes_back_rules release)
  then have "comes_back (compact_prepare c)"
    unfolding compact_prepare_def by (cases "cp_distro c") (simp_all add: comes_back_at_once)
  then show ?thesis
    unfolding compact_execute_def case_prod_unfold by (intro comes_back_rules)
qed

text \<open>A compaction always comes back. The wait for the disk ends whatever holds the file and however
  long it is held, provided a sleep lets the clock advance; planning, trimming, stopping, compacting
  and restarting add no wait of their own.\<close>

theorem compact_run_returns:
  fixes c :: "'w compact_operation"
  assumes "wait_contract (cp_clock c) time (cp_filesystem c)"
  shows "\<exists>result s'. run_operation (compact_ioperation c) options s = Some (result, s')"
proof -
  have "comes_back (compact_execute c :: 'w compact_state \<Rightarrow> _)"
    by (rule compact_execute_comes_back[OF assms])
  then have "op_execute (compact_ioperation c) u \<noteq> None" for u
    by (simp add: compact_ioperation_def comes_back_def)
  from run_operation_returns[OF this] show ?thesis by auto
qed

text \<open>C34: the wait finds what it waits for. If the lock is gone from some moment on, each query of it
  takes at most \<open>query\<close>, and the moment is before the deadline by that much, then the wait reports the
  disk free; it does not give up first, however the polls fall.\<close>

theorem wait_finds_free_disk:
  assumes "wait_contract clock time fs"
    and "\<And>w r w'. is_locked fs p w = (r, w') \<Longrightarrow> r = Inr (time w < freed) \<and> time w' \<le> time w + query"
    and "freed + query \<le> deadline"
  shows "\<exists>s'. wait_released fs clock p limit True deadline waited s = Some (Inr True, s') \<and>
    (\<exists>w. is_locked fs p w = (Inr False, world s'))"
  using wait_contract.wait_succeeds[OF assms] wait_saw_free by blast


text \<open>What a successful run has done.\<close>

lemma measure_simps:
  "size_before (snd (measure_after c s)) = size_before s"
  "world (snd (measure_before c s)) = snd (file_size_on_disk (cp_filesystem c) (cp_path c) (world s))"
  by (auto simp: measure_after_def measure_before_def split: prod.splits sum.splits)

lemma compact_file_success:
  assumes "compact_file c r index s = (Inr rep, s')"
  shows "bytes_freed (actual rep) = reclaimed s'"
    and "\<exists>w handle w1 w2 marks w3. open_disk (cp_disks c) (cp_path c) w = (Inr handle, w1) \<and>
      compact_disk handle (\<lambda>_. True) w2 = ((Inr (), marks), w3)"
proof -
  obtain s1 where s1: "measure_before c s = ((), s1)" by (metis old.unit.exhaust surj_pair)
  obtain opened w1 where o1: "open_disk (cp_disks c) (cp_path c) (world s1) = (opened, w1)"
    by (meson surj_pair)
  from assms s1 o1 obtain handle where h: "opened = Inr handle"
    by (cases opened) (auto simp: compact_file_def call_def notify_def on_world_def split: prod.splits)
  let ?s2 = "s1\<lparr>sink := sink s1 @ [Step_started index (compaction_step c)], world := w1\<rparr>"
  obtain ended s3 where d: "compact_opened c index handle ?s2 = (ended, s3)" by (meson surj_pair)
  from assms s1 o1 h d have ok: "ended = Inr ()"
    by (cases ended) (auto simp: compact_file_def call_def notify_def on_world_def attempt_def)
  obtain verdict marks w2 where cd: "compact_disk handle (\<lambda>_. True) w1 = ((verdict, marks), w2)"
    by (metis surj_pair)
  from d ok cd have "verdict = Inr ()"
    by (auto simp: compact_opened_def call_def Let_def split: sum.splits prod.splits)
  with o1 h cd show "\<exists>w handle w1 w2 marks w3. open_disk (cp_disks c) (cp_path c) w = (Inr handle, w1) \<and>
      compact_disk handle (\<lambda>_. True) w2 = ((Inr (), marks), w3)"
    by blast
  from assms s1 o1 h d ok show "bytes_freed (actual rep) = reclaimed s'"
    by (auto simp: compact_file_def call_def notify_def on_world_def attempt_def split: prod.splits if_splits)
qed


text \<open>Without \<open>--shutdown\<close> the \<open>shutdown\<close> method of the host has no part in a run.\<close>

definition with_shutdown :: "('w \<Rightarrow> status \<times> 'w) \<Rightarrow> 'w compact_operation \<Rightarrow> 'w compact_operation" where
  "with_shutdown f c = c\<lparr>cp_host := (cp_host c)\<lparr>shutdown_wsl := f\<rparr>\<rparr>"

lemma with_shutdown_simps [simp]:
  "cp_disks (with_shutdown f c) = cp_disks c" "cp_filesystem (with_shutdown f c) = cp_filesystem c"
  "cp_clock (with_shutdown f c) = cp_clock c" "cp_distro (with_shutdown f c) = cp_distro c"
  "cp_path (with_shutdown f c) = cp_path c" "cp_options (with_shutdown f c) = cp_options c"
  "cp_narrow (with_shutdown f c) = cp_narrow c"
  "running (cp_host (with_shutdown f c)) = running (cp_host c)"
  "terminate (cp_host (with_shutdown f c)) = terminate (cp_host c)"
  "run_as_root (cp_host (with_shutdown f c)) = run_as_root (cp_host c)"
  by (simp_all add: with_shutdown_def)

lemma run_fstrim_only_runs:
  "run_as_root h = run_as_root h' \<Longrightarrow> run_fstrim h g l = run_fstrim h' g l"
  unfolding run_fstrim_def by (rule ext) (simp only:)

lemma with_shutdown_parts:
  "others_running (with_shutdown f c) = others_running c"
  "others_running_excluding (with_shutdown f c) = others_running_excluding c"
  "stop_step (with_shutdown f c) = stop_step c" "compaction_step (with_shutdown f c) = compaction_step c"
  "plan_guest_steps (with_shutdown f c) = plan_guest_steps c"
  "measure_before (with_shutdown f c) = measure_before c"
  "measure_after (with_shutdown f c) = measure_after c"
  "restarts (with_shutdown f c) = restarts c" "still_locked (with_shutdown f c) = still_locked c"
  "run_trim (with_shutdown f c) = run_trim c"
  "require_free_file (with_shutdown f c) = require_free_file c"
  "restart_guest (with_shutdown f c) = restart_guest c"
  by (simp_all add: fun_eq_iff others_running_def others_running_excluding_def stop_step_def
      compaction_step_def plan_guest_steps_def measure_before_def measure_after_def restarts_def
      still_locked_def run_trim_def require_free_file_def restart_guest_def
      run_fstrim_only_runs[of "cp_host (with_shutdown f c)" "cp_host c"]
      cong: if_cong sum.case_cong option.case_cong)

lemma with_shutdown_release:
  assumes "\<not> co_shutdown (cp_options c)"
  shows "release_disk (with_shutdown f c) = release_disk c"
  using assms by (simp add: fun_eq_iff release_disk_def with_shutdown_parts cong: if_cong)

lemma with_shutdown_restart: "restart_if_asked (with_shutdown f c) = restart_if_asked c"
  by (simp add: fun_eq_iff restart_if_asked_def with_shutdown_parts cong: if_cong)

lemma with_shutdown_opened: "compact_opened (with_shutdown f c) = compact_opened c"
  by (simp add: fun_eq_iff compact_opened_def with_shutdown_restart cong: sum.case_cong)

lemma with_shutdown_execute:
  assumes "\<not> co_shutdown (cp_options c)"
  shows "compact_execute (with_shutdown f c) = compact_execute c"
  using assms
  by (simp add: fun_eq_iff compact_execute_def compact_file_def compact_prepare_def
      run_guest_steps_def with_shutdown_parts with_shutdown_release with_shutdown_restart
      with_shutdown_opened cong: if_cong sum.case_cong option.case_cong)

lemma with_shutdown_plan: "compact_plan (with_shutdown f c) = compact_plan c"
  by (simp add: fun_eq_iff compact_plan_def compact_planned_def with_shutdown_parts
      cong: if_cong option.case_cong)

lemma with_shutdown_verify: "compact_verify (with_shutdown f c) = compact_verify c"
  by (simp add: fun_eq_iff compact_verify_def cong: if_cong option.case_cong)

text \<open>C16: without \<open>--shutdown\<close> a compaction never shuts WSL down: its result and its final state are the
  same whatever \<open>shutdown\<close> would do, so it cannot have been called.\<close>

theorem compact_never_shuts_down:
  assumes "\<not> co_shutdown (cp_options c)"
  shows "run_operation (compact_ioperation (c\<lparr>cp_host := (cp_host c)\<lparr>shutdown_wsl := f\<rparr>\<rparr>)) options s =
    run_operation (compact_ioperation c) options s"
proof -
  have "compact_ioperation (with_shutdown f c) = compact_ioperation c"
    using with_shutdown_execute[OF assms] with_shutdown_plan with_shutdown_verify
    unfolding compact_ioperation_def by metis
  then show ?thesis by (simp add: with_shutdown_def)
qed

text \<open>The wait \<open>compact\<close> suggests in its refusal is one that \<open>config set\<close> accepts.\<close>

theorem suggested_wait_is_settable:
  assumes "0 \<le> limit"
  shows "set_config_value settings unlock_timeout_key (show_word (suggested_longer_wait limit)) =
    Inr (settings\<lparr>unlock_timeout_seconds := suggested_longer_wait limit\<rparr>)"
proof -
  define n where "n = nat (min (whole_seconds limit * 2) 3600)"
  have "0 \<le> whole_seconds limit" using assms by (simp add: whole_seconds_def)
  then have "suggested_longer_wait limit = of_nat n" and "n \<le> 3600"
    by (simp_all add: n_def suggested_longer_wait_def max_unlock_timeout_seconds_def)
  then have "suggested_longer_wait limit \<le> max_unlock_timeout_seconds"
    by (simp add: max_unlock_timeout_seconds_def word_le_nat_alt unat_of_nat take_bit_nat_eq_self)
  then have "parse_seconds (show_word (suggested_longer_wait limit)) = Some (suggested_longer_wait limit)"
    by (rule parse_seconds_show)
  then show ?thesis by (simp add: set_config_value_def)
qed

section \<open>Witnesses\<close>

definition compacted_guest :: distro where
  "compacted_guest = (hd (distros sample_listing))\<lparr>vhdx_path := [0x64]\<rparr>"

definition sample_compact :: "compact_options \<Rightarrow> fake_machine compact_operation" where
  "sample_compact options =
     compact_of_distro fake_disks fake_filesystem fake_host fake_clock compacted_guest options (\<lambda>p. [])"

definition grown_machine :: fake_machine where
  "grown_machine = sample_machine\<lparr>fake_running := [''U''],
     fake_files := (\<lambda>p. if p = [0x64]
       then Some \<lparr>ff_size = 8, ff_size_on_disk = 4, ff_sparse = False, ff_text = []\<rparr> else None)\<rparr>"

lemma sample_compact_simps:
  "cp_clock (sample_compact o1) = fake_clock" "cp_filesystem (sample_compact o1) = fake_filesystem"
  "cp_host (sample_compact o1) = fake_host" "cp_path (sample_compact o1) = [0x64]"
  "cp_options (sample_compact o1) = o1"
  by (simp_all add: sample_compact_def compact_of_distro_def compacted_guest_def)

lemma sample_compact_returns:
  "\<exists>result s'. compact_execute (sample_compact o1) s = Some (result, s')"
  using compact_execute_comes_back[of "sample_compact o1" fake_now] fake_wait.wait_contract_axioms
  by (auto simp: sample_compact_simps comes_back_def)

theorem compact_run_returns_witness:
  "\<exists>result s'. run_operation (compact_ioperation (sample_compact default_compact_options))
     \<lparr>dry_run = False\<rparr> (compact_start (grown_machine\<lparr>fake_locked := [[0x64]]\<rparr>) []) = Some (result, s')"
  by (rule compact_run_returns[where time = fake_now])
     (simp add: sample_compact_simps fake_wait.wait_contract_axioms)

text \<open>A utility VM that lets go after 66.6 seconds.\<close>

definition idling_filesystem :: "fake_machine IFileSystem" where
  "idling_filesystem = fake_filesystem\<lparr>is_locked := (\<lambda>p m. (Inr (fake_now m < 66600), m))\<rparr>"

theorem wait_finds_free_disk_witness:
  "\<exists>s'. wait_released idling_filesystem fake_clock [0x64] 90000 True 90000 0
     \<lparr>world = grown_machine, sink = []\<rparr> = Some (Inr True, s') \<and>
     (\<exists>w. is_locked idling_filesystem [0x64] w = (Inr False, world s'))"
proof (rule wait_finds_free_disk[where freed = 66600 and query = 0])
  show "wait_contract fake_clock fake_now idling_filesystem"
    by unfold_locales (auto simp: idling_filesystem_def)
qed (auto simp: idling_filesystem_def)


lemma sample_compact_succeeds:
  "\<not> isl (fst (the (run_operation (compact_ioperation (sample_compact default_compact_options))
     \<lparr>dry_run = False\<rparr> (compact_start grown_machine []))))"
  by code_simp


theorem compact_never_shuts_down_witness:
  "run_operation (compact_ioperation ((sample_compact default_compact_options)
       \<lparr>cp_host := (cp_host (sample_compact default_compact_options))\<lparr>shutdown_wsl := \<lambda>m. (Inr (), sample_machine)\<rparr>\<rparr>))
     \<lparr>dry_run = False\<rparr> (compact_start grown_machine []) =
   run_operation (compact_ioperation (sample_compact default_compact_options))
     \<lparr>dry_run = False\<rparr> (compact_start grown_machine [])"
  by (rule compact_never_shuts_down) (simp add: sample_compact_simps default_compact_options_def)

theorem suggested_wait_is_settable_witness:
  "set_config_value default_config unlock_timeout_key (show_word (suggested_longer_wait 90000)) =
     Inr (default_config\<lparr>unlock_timeout_seconds := 180\<rparr>)"
proof -
  have "suggested_longer_wait 90000 = 180" by code_simp
  with suggested_wait_is_settable[of 90000 default_config] show ?thesis by simp
qed

text \<open>A refusal while the disk is held leaves a guest that ran, and that \<open>--restart\<close> promised to start
  again, stopped: it is the compaction's own failure that starts it again.\<close>

lemma refused_restart_leaves_stopped:
  "map_option (\<lambda>(r, s). (map_sum err_code id r, fake_running (world s)))
     (run_operation (compact_ioperation (sample_compact
          \<lparr>co_trim = False, co_shutdown = False, co_restart = True, co_unlock_timeout = 0, co_trim_timeout = 1\<rparr>))
        \<lparr>dry_run = False\<rparr> (compact_start (grown_machine\<lparr>fake_locked := [[0x64]]\<rparr>) [])) =
   Some (Inl DistroBusy, [])"
  by code_simp

end
