(* ===== verification/Catalogue.thy ===== *)
theory Catalogue
  imports Config
begin

text \<open>
  The catalogue of places worth measuring in a guest (\<open>src/src/lib/model/catalogue.h\<close>,
  \<open>catalogue.cpp\<close>): reading it out of TOML with its checks, and which place contains which. The TOML
  library is the parameter \<open>toml\<close> of theory \<open>Config\<close>; the text compiled in is generated from
  \<open>data/caches.toml\<close> and is the parameter of \<open>cache_catalogue\<close>.
\<close>

section \<open>Entries\<close>

record cache_entry =
  cache_path :: string
  cache_label :: string
  cache_safe :: bool
  cache_note :: string

definition is_per_user :: "cache_entry \<Rightarrow> bool" where
  "is_per_user e \<longleftrightarrow> starts_with (cache_path e) ''~/''"

definition path_contains :: "string \<Rightarrow> string \<Rightarrow> bool" where
  "path_contains outer inner \<longleftrightarrow>
     outer \<noteq> inner \<and> starts_with inner outer \<and> inner ! length outer = CHR ''/''"

section \<open>Reading\<close>

definition required_string :: "('t, 'n) toml \<Rightarrow> 't \<Rightarrow> string \<Rightarrow> nat \<Rightarrow> error + string" where
  "required_string toml entry key index =
     (case Option.bind (at_key toml entry key) (as_string toml) of
        None \<Rightarrow> fail Usage (''cache entry '' @ show_nat (index + 1) @ '' has no `'' @ key @ ''`'')
                  ''every [[cache]] needs a path, a label and a safe flag''
      | Some v \<Rightarrow> Inr v)"

definition our_bug :: string where
  "our_bug = ''this is a bug in wsldisk; please report it''"

text \<open>One \<open>[[cache]]\<close>: what is in it, then the checks of its path.\<close>

definition parse_entry :: "('t, 'n) toml \<Rightarrow> nat \<Rightarrow> 'n \<Rightarrow> error + cache_entry" where
  "parse_entry toml index node =
     (case as_table toml node of
        None \<Rightarrow> fail Usage (''cache entry '' @ show_nat (index + 1) @ '' is not a table'') our_bug
      | Some entry \<Rightarrow>
     (case required_string toml entry ''path'' index of
        Inl e \<Rightarrow> Inl e
      | Inr p \<Rightarrow>
     (case required_string toml entry ''label'' index of
        Inl e \<Rightarrow> Inl e
      | Inr label \<Rightarrow>
     (case Option.bind (at_key toml entry ''safe'') (as_boolean toml) of
        None \<Rightarrow> fail Usage (''cache entry '' @ show_nat (index + 1) @ '' has no `safe`'')
                  ''every [[cache]] needs a path, a label and a safe flag''
      | Some safe \<Rightarrow>
          if \<not> starts_with p ''/'' \<and> \<not> starts_with p ''~/'' then
            fail Usage (''cache entry '' @ show_nat (index + 1) @ '' has a relative path `'' @ p @ ''`'')
              ''paths are absolute inside the guest, or start with ~/ for a home directory''
          else if ends_with p ''/'' then
            fail Usage (''cache entry '' @ show_nat (index + 1) @ '' ends with a slash: `'' @ p @ ''`'')
              ''write the path without a trailing slash''
          else
            Inr \<lparr>cache_path = p, cache_label = label, cache_safe = safe,
                 cache_note =
                   (case Option.bind (at_key toml entry ''note'') (as_string toml) of
                      None \<Rightarrow> [] | Some n \<Rightarrow> n)\<rparr>))))"

fun parse_entries :: "('t, 'n) toml \<Rightarrow> nat \<Rightarrow> 'n list \<Rightarrow> error + cache_entry list" where
  "parse_entries toml index [] = Inr []"
| "parse_entries toml index (n # ns) =
     (case parse_entry toml index n of
        Inl e \<Rightarrow> Inl e
      | Inr entry \<Rightarrow>
          (case parse_entries toml (index + 1) ns of
             Inl e \<Rightarrow> Inl e
           | Inr entries \<Rightarrow> Inr (entry # entries)))"

definition parse_catalogue :: "('t, 'n) toml \<Rightarrow> string \<Rightarrow> error + cache_entry list" where
  "parse_catalogue toml content =
     (case toml_parse toml content of
        Inl e \<Rightarrow> fail Usage (''the cache catalogue is malformed: '' @ error_description e) our_bug
      | Inr table \<Rightarrow>
          (case Option.bind (at_key toml table ''cache'') (as_array toml) of
             None \<Rightarrow> fail Usage ''the cache catalogue has no [[cache]] entries'' our_bug
           | Some entries \<Rightarrow> parse_entries toml 0 entries))"

definition cache_catalogue :: "('t, 'n) toml \<Rightarrow> string \<Rightarrow> cache_entry list" where
  "cache_catalogue toml embedded = value_or (parse_catalogue toml embedded) []"

section \<open>Containment\<close>

lemma path_contains_iff: "path_contains outer inner \<longleftrightarrow> (\<exists>rest. inner = outer @ CHR ''/'' # rest)"
proof
  assume c: "path_contains outer inner"
  then obtain rest where rest: "inner = outer @ rest"
    by (auto simp: path_contains_def starts_with_iff)
  with c obtain x xs where "rest = x # xs" by (cases rest) (auto simp: path_contains_def)
  with c rest show "\<exists>rest. inner = outer @ CHR ''/'' # rest"
    by (auto simp: path_contains_def nth_append)
qed (auto simp: path_contains_def nth_append)

lemma path_contains_irrefl [simp]: "\<not> path_contains p p"
  by (simp add: path_contains_iff)

lemma path_contains_trans: "path_contains a b \<Longrightarrow> path_contains b c \<Longrightarrow> path_contains a c"
  by (auto simp: path_contains_iff)

lemma path_contains_length: "path_contains outer inner \<Longrightarrow> length outer < length inner"
  by (auto simp: path_contains_iff)

text \<open>Two places that hold a third hold one another, or are one.\<close>

lemma path_contains_linear:
  assumes "path_contains a x" and "path_contains b x"
  shows "a = b \<or> path_contains a b \<or> path_contains b a"
proof -
  from assms(1) obtain r where r: "x = a @ CHR ''/'' # r" by (auto simp: path_contains_iff)
  from assms(2) obtain s where s: "x = b @ CHR ''/'' # s" by (auto simp: path_contains_iff)
  from r s have "a @ CHR ''/'' # r = b @ CHR ''/'' # s" by simp
  then obtain us where
    "(a = b @ us \<and> us @ CHR ''/'' # r = CHR ''/'' # s) \<or> (a @ us = b \<and> CHR ''/'' # r = us @ CHR ''/'' # s)"
    by (auto simp: append_eq_append_conv2)
  then show ?thesis by (cases us) (auto simp: path_contains_iff)
qed

section \<open>What a catalogue is\<close>

text \<open>A path the measurements can use: absolute or in a home, and not ended by a slash.\<close>

definition measurable_path :: "string \<Rightarrow> bool" where
  "measurable_path p \<longleftrightarrow> (starts_with p ''/'' \<or> starts_with p ''~/'') \<and> \<not> ends_with p ''/''"

lemma parse_entry_measurable: "parse_entry toml i n = Inr e \<Longrightarrow> measurable_path (cache_path e)"
  by (auto simp: parse_entry_def measurable_path_def fail_def split: option.splits sum.splits if_splits)

lemma parse_entries_measurable:
  "parse_entries toml i ns = Inr es \<Longrightarrow> (\<forall>e \<in> set es. measurable_path (cache_path e)) \<and> length es = length ns"
  by (induction ns arbitrary: i es) (auto split: sum.splits dest: parse_entry_measurable)

text \<open>A catalogue that parses has one entry per \<open>[[cache]]\<close>, and each of its paths is absolute or in
  a home directory and has no trailing slash, so that containment of paths is containment of
  directories.\<close>

theorem parse_catalogue_measurable:
  assumes "parse_catalogue toml content = Inr es"
  shows "(\<forall>e \<in> set es. measurable_path (cache_path e)) \<and>
    (\<exists>table ns. toml_parse toml content = Inr table \<and>
       Option.bind (at_key toml table ''cache'') (as_array toml) = Some ns \<and> length es = length ns)"
  using assms parse_entries_measurable
  by (fastforce simp: parse_catalogue_def fail_def split: sum.splits option.splits)

text \<open>A library for the witnesses: it holds one document, whatever text it is given.\<close>

datatype sample_node =
    Sample_text string
  | Sample_flag bool
  | Sample_list "sample_node list"
  | Sample_table "(string \<times> sample_node) list"

definition sample_toml :: "(string \<times> sample_node) list \<Rightarrow> ((string \<times> sample_node) list, sample_node) toml" where
  "sample_toml document =
     \<lparr>toml_parse = (\<lambda>_. Inr document),
      at_path = map_of,
      at_key = map_of,
      as_array = (\<lambda>n. case n of Sample_list ns \<Rightarrow> Some ns | _ \<Rightarrow> None),
      as_table = (\<lambda>n. case n of Sample_table t \<Rightarrow> Some t | _ \<Rightarrow> None),
      as_string = (\<lambda>n. case n of Sample_text t \<Rightarrow> Some t | _ \<Rightarrow> None),
      as_boolean = (\<lambda>n. case n of Sample_flag b \<Rightarrow> Some b | _ \<Rightarrow> None),
      value_string = (\<lambda>n. case n of Sample_text t \<Rightarrow> Some t | _ \<Rightarrow> None),
      value_bool = (\<lambda>n. case n of Sample_flag b \<Rightarrow> Some b | _ \<Rightarrow> None),
      value_u32 = (\<lambda>n. None)\<rparr>"

definition sample_catalogue :: "((string \<times> sample_node) list, sample_node) toml" where
  "sample_catalogue = sample_toml
     [(''cache'', Sample_list
        [Sample_table [(''path'', Sample_text ''/c''), (''label'', Sample_text ''apt''), (''safe'', Sample_flag True)],
         Sample_table [(''path'', Sample_text ''~/c''), (''label'', Sample_text ''pip''), (''safe'', Sample_flag True)]])]"

theorem parse_catalogue_measurable_witness:
  "\<exists>es. parse_catalogue sample_catalogue [] = Inr es \<and> length es = 2 \<and>
     (\<forall>e \<in> set es. measurable_path (cache_path e))"
proof -
  have p: "parse_catalogue sample_catalogue [] =
      Inr [\<lparr>cache_path = ''/c'', cache_label = ''apt'', cache_safe = True, cache_note = []\<rparr>,
           \<lparr>cache_path = ''~/c'', cache_label = ''pip'', cache_safe = True, cache_note = []\<rparr>]"
    by code_simp
  from parse_catalogue_measurable[OF p] p show ?thesis by simp
qed

end
