(* ===== verification/Disk_Info.thy ===== *)
theory Disk_Info
  imports Distro
begin

text \<open>
  What \<open>info\<close> measures of a disk (\<open>src/src/lib/model/disk_info.h\<close>, \<open>disk_info.cpp\<close>): five readings of the
  file, the virtual disk's own figures, and what \<open>df\<close> says in a guest that runs. Nothing here fails: a
  reading that cannot be had is absent and leaves a note. \<open>narrow\<close> is \<open>path::string\<close>.
\<close>

section \<open>Data\<close>

record disk_info =
  info_virtual_size :: "u64 option"
  info_file_size :: "u64 option"
  info_size_on_disk :: "u64 option"
  info_allocated_bytes :: "u64 option"
  info_is_sparse :: "bool option"
  info_block_size :: "u32 option"
  info_sector_size :: "u32 option"
  info_parent_path :: wstr
  info_guest_used :: "u64 option"
  info_guest_free :: "u64 option"
  info_notes :: "string list"

definition no_info :: disk_info where
  "no_info =
     \<lparr>info_virtual_size = None, info_file_size = None, info_size_on_disk = None,
      info_allocated_bytes = None, info_is_sparse = None, info_block_size = None,
      info_sector_size = None, info_parent_path = [], info_guest_used = None, info_guest_free = None,
      info_notes = []\<rparr>"

definition add_note :: "string \<Rightarrow> disk_info \<Rightarrow> disk_info" where
  "add_note n i = i\<lparr>info_notes := info_notes i @ [n]\<rparr>"

definition reclaimable :: "disk_info \<Rightarrow> u64 option" where
  "reclaimable i =
     (case (info_size_on_disk i, info_guest_used i) of
        (Some on_disk, Some used) \<Rightarrow> Some (if used \<ge> on_disk then 0 else on_disk - used)
      | _ \<Rightarrow> None)"

record probe_options =
  probe_guest :: bool
  guest_timeout :: int

record guest_usage =
  usage_used :: u64
  usage_available :: u64

section \<open>Reading df\<close>

text \<open>\<open>std::from_chars\<close> into 64 bits, which has to take the whole text: digits and nothing else, in range.\<close>

definition whole_number :: "string \<Rightarrow> u64 option" where
  "whole_number t =
     (if t \<noteq> [] \<and> list_all is_digit_char t \<and> digits_value 0 t < 2 ^ 64
      then Some (of_nat (digits_value 0 t)) else None)"

definition drop_carriage_return :: "string \<Rightarrow> string" where
  "drop_carriage_return line = (if line \<noteq> [] \<and> last line = CHR 0x0D then butlast line else line)"

definition row_of :: "string \<Rightarrow> string list" where
  "row_of line = filter (\<lambda>t. t \<noteq> []) (split_on (CHR '' '') (drop_carriage_return line))"

text \<open>The tokens of the last line that has any.\<close>

definition last_row :: "string \<Rightarrow> string list" where
  "last_row output =
     foldl (\<lambda>tokens line. if row_of line \<noteq> [] then row_of line else tokens) []
       (split_on (CHR 0x0A) output)"

definition df_trailing_columns :: nat where
  "df_trailing_columns = 5"

definition parse_df :: "string \<Rightarrow> guest_usage option" where
  "parse_df output =
     (let row = last_row output in
      if length row < df_trailing_columns then None
      else
        (case (whole_number (row ! (length row - 4)), whole_number (row ! (length row - 3))) of
           (Some used, Some available) \<Rightarrow> Some \<lparr>usage_used = used, usage_available = available\<rparr>
         | _ \<Rightarrow> None))"

section \<open>Measuring\<close>

definition guest_df :: string where
  "guest_df = ''/bin/df''"

definition measure_guest ::
  "'w IWslHost \<Rightarrow> probe_options \<Rightarrow> distro \<Rightarrow> disk_info \<Rightarrow> 'w \<Rightarrow> disk_info \<times> 'w" where
  "measure_guest host options d i =
     call (running host) (\<lambda>asked.
     case asked of
       Inl e \<Rightarrow> ret (add_note (error_to_string e) i)
     | Inr names \<Rightarrow>
         if distro_name d \<notin> set names \<and> \<not> probe_guest options then
           ret (add_note (distro_name d @
             '' is not running; pass --probe to start it and read guest usage'') i)
         else
           call (run_as_root host (distro_name d) [guest_df, ''-B1'', ''/''] (guest_timeout options)) (\<lambda>probe.
           case probe of
             Inl e \<Rightarrow> ret (add_note (error_to_string e) i)
           | Inr result \<Rightarrow>
               if \<not> succeeded result then
                 ret (add_note (''df exited '' @ show_int (exit_code result) @ '' in '' @ distro_name d) i)
               else
                 (case parse_df (standard_output result) of
                    None \<Rightarrow> ret (add_note (''could not read df output from '' @ distro_name d) i)
                  | Some u \<Rightarrow>
                      ret (i\<lparr>info_guest_used := Some (usage_used u),
                             info_guest_free := Some (usage_available u)\<rparr>))))"

text \<open>One reading: its value is set, or its error becomes a note.\<close>

definition read_or_note ::
  "('w \<Rightarrow> (error + 'a) \<times> 'w) \<Rightarrow> ('a \<Rightarrow> disk_info \<Rightarrow> disk_info) \<Rightarrow> disk_info \<Rightarrow> 'w \<Rightarrow> disk_info \<times> 'w" where
  "read_or_note m set_value i w =
     (case m w of
        (Inl e, w') \<Rightarrow> (add_note (error_to_string e) i, w')
      | (Inr x, w') \<Rightarrow> (set_value x i, w'))"

text \<open>The handle is closed at the end of the statement that opened it.\<close>

definition read_virtual_disk :: "'w IVirtualDisk \<Rightarrow> path \<Rightarrow> 'w \<Rightarrow> (error + virtual_disk_info) \<times> 'w" where
  "read_virtual_disk disks p w =
     (case open_disk disks p w of
        (Inl e, w') \<Rightarrow> (Inl e, w')
      | (Inr handle, w') \<Rightarrow>
          (case information handle w' of (r, w'') \<Rightarrow> (r, close_disk handle w'')))"

definition measure_disk ::
  "(path \<Rightarrow> string) \<Rightarrow> 'w IFileSystem \<Rightarrow> 'w IVirtualDisk \<Rightarrow> 'w IWslHost \<Rightarrow> probe_options \<Rightarrow> distro \<Rightarrow>
     'w \<Rightarrow> disk_info \<times> 'w" where
  "measure_disk narrow fs disks host options d =
     (let p = vhdx_path d in
      call (exists_path fs p) (\<lambda>present.
      if \<not> present then
        measure_guest host options d
          (add_note (narrow p @ '' does not exist -- '' @ distro_name d @
             '' points at a disk that is not there; `wsldisk relink '' @ distro_name d @
             '' <path>` moves the registry entry to where it went'') no_info)
      else
        call (read_or_note (file_size fs p) (\<lambda>n i. i\<lparr>info_file_size := Some n\<rparr>) no_info) (\<lambda>i.
        call (read_or_note (file_size_on_disk fs p) (\<lambda>n i. i\<lparr>info_size_on_disk := Some n\<rparr>) i) (\<lambda>i.
        call (read_or_note (is_sparse fs p) (\<lambda>b i. i\<lparr>info_is_sparse := Some b\<rparr>) i) (\<lambda>i.
        call (read_or_note (allocated_ranges fs p)
               (\<lambda>ranges i. i\<lparr>info_allocated_bytes := Some (foldl (\<lambda>total r. total + range_length r) 0 ranges)\<rparr>) i) (\<lambda>i.
        call (read_or_note (read_virtual_disk disks p)
               (\<lambda>v i. i\<lparr>info_virtual_size := Some (vd_virtual_size v), info_block_size := Some (vd_block_size v),
                       info_sector_size := Some (vd_sector_size v), info_parent_path := vd_parent_path v\<rparr>) i) (\<lambda>i.
        measure_guest host options d i)))))))"

section \<open>What a measurement promises\<close>

text \<open>A figure that is missing has a note.\<close>

definition unexplained :: "disk_info \<Rightarrow> bool" where
  "unexplained i \<longleftrightarrow>
     info_notes i = [] \<and>
     (info_virtual_size i = None \<or> info_file_size i = None \<or> info_size_on_disk i = None \<or>
      info_allocated_bytes i = None \<or> info_is_sparse i = None \<or> info_block_size i = None \<or>
      info_sector_size i = None \<or> info_guest_used i = None \<or> info_guest_free i = None)"

lemma add_note_notes [simp]: "info_notes (add_note n i) \<noteq> []"
  by (simp add: add_note_def)

lemma silent_reading:
  assumes "read_or_note m f i w = (i', w')" and "info_notes i' = []" and "\<And>x. info_notes (f x i) = info_notes i"
  shows "info_notes i = [] \<and> (\<exists>x. i' = f x i)"
  using assms by (auto simp: read_or_note_def split: prod.splits sum.splits)

lemma measure_guest_notes:
  assumes "measure_guest host options d i w = (i', w')" and "info_notes i' = []"
  shows "info_notes i = [] \<and> (\<exists>u f. i' = i\<lparr>info_guest_used := Some u, info_guest_free := Some f\<rparr>)"
  using assms
  by (auto simp: measure_guest_def call_def split: prod.splits sum.splits if_splits option.splits)

lemma measure_present_disk:
  assumes "exists_path fs (vhdx_path d) w = (True, w1)"
    and "info_notes (fst (measure_disk narrow fs disks host options d w)) = []"
  shows "\<not> unexplained (fst (measure_disk narrow fs disks host options d w))"
proof -
  let ?p = "vhdx_path d"
  obtain i1 v1 where r1: "read_or_note (file_size fs ?p) (\<lambda>n i. i\<lparr>info_file_size := Some n\<rparr>) no_info w1 = (i1, v1)"
    by (meson surj_pair)
  obtain i2 v2 where r2: "read_or_note (file_size_on_disk fs ?p) (\<lambda>n i. i\<lparr>info_size_on_disk := Some n\<rparr>) i1 v1 = (i2, v2)"
    by (meson surj_pair)
  obtain i3 v3 where r3: "read_or_note (is_sparse fs ?p) (\<lambda>b i. i\<lparr>info_is_sparse := Some b\<rparr>) i2 v2 = (i3, v3)"
    by (meson surj_pair)
  obtain i4 v4 where r4: "read_or_note (allocated_ranges fs ?p)
      (\<lambda>ranges i. i\<lparr>info_allocated_bytes := Some (foldl (\<lambda>total r. total + range_length r) 0 ranges)\<rparr>) i3 v3 = (i4, v4)"
    by (meson surj_pair)
  obtain i5 v5 where r5: "read_or_note (read_virtual_disk disks ?p)
      (\<lambda>v i. i\<lparr>info_virtual_size := Some (vd_virtual_size v), info_block_size := Some (vd_block_size v),
               info_sector_size := Some (vd_sector_size v), info_parent_path := vd_parent_path v\<rparr>) i4 v4 = (i5, v5)"
    by (meson surj_pair)
  obtain i6 v6 where r6: "measure_guest host options d i5 v5 = (i6, v6)" by (meson surj_pair)
  have all: "fst (measure_disk narrow fs disks host options d w) = i6"
    using assms(1) r1 r2 r3 r4 r5 r6 by (simp add: measure_disk_def call_def Let_def)
  with assms(2) have n6: "info_notes i6 = []" by simp
  note s5 = measure_guest_notes[OF r6 n6]
  note s4 = silent_reading[OF r5 conjunct1[OF s5], simplified]
  note s3 = silent_reading[OF r4 conjunct1[OF s4], simplified]
  note s2 = silent_reading[OF r3 conjunct1[OF s3], simplified]
  note s1 = silent_reading[OF r2 conjunct1[OF s2], simplified]
  note s0 = silent_reading[OF r1 conjunct1[OF s1], simplified]
  from s0 s1 s2 s3 s4 s5 show ?thesis unfolding all by (auto simp: unexplained_def)
qed

lemma measure_missing_disk:
  assumes "exists_path fs (vhdx_path d) w = (False, w1)"
  shows "info_notes (fst (measure_disk narrow fs disks host options d w)) \<noteq> []"
  using assms measure_guest_notes
  by (fastforce simp: measure_disk_def call_def Let_def intro!: prod.collapse[symmetric])

text \<open>C35: no figure is missing in silence: a measurement without a single note has all nine.\<close>

theorem measure_explains_absence:
  "\<not> unexplained (fst (measure_disk narrow fs disks host options d w))"
proof (cases "info_notes (fst (measure_disk narrow fs disks host options d w)) = []")
  case True
  obtain w1 where "exists_path fs (vhdx_path d) w = (True, w1)"
    using True measure_missing_disk[of fs d w] by (metis (full_types) surj_pair)
  from measure_present_disk[OF this True] show ?thesis .
qed (simp add: unexplained_def)

text \<open>Measuring never starts a guest: without \<open>--probe\<close>, when the guest is not among the running ones
  (or nobody can say), the result and the world are the same whatever running a command would do.\<close>

theorem measure_starts_no_guest:
  assumes "\<not> probe_guest options"
    and "\<And>w names w'. running host w = (Inr names, w') \<Longrightarrow> distro_name d \<notin> set names"
  shows "measure_disk narrow fs disks (host\<lparr>run_as_root := f\<rparr>) options d w =
    measure_disk narrow fs disks host options d w"
proof -
  have "measure_guest (host\<lparr>run_as_root := f\<rparr>) options d i v = measure_guest host options d i v" for i v
    using assms by (auto simp: measure_guest_def call_def split: prod.splits sum.splits)
  then have "measure_guest (host\<lparr>run_as_root := f\<rparr>) options d = measure_guest host options d"
    by (simp add: fun_eq_iff)
  then show ?thesis by (simp add: measure_disk_def cong: if_cong)
qed

text \<open>The reclaimable figure is the truncated difference of what the file occupies and what the guest
  uses: it never wraps, and it is there exactly when both are.\<close>

theorem reclaimable_truncates:
  "map_option unat (reclaimable i) =
     (case (info_size_on_disk i, info_guest_used i) of
        (Some on_disk, Some used) \<Rightarrow> Some (unat on_disk - unat used)
      | _ \<Rightarrow> None)"
  by (auto simp: reclaimable_def unat_sub word_le_nat_alt not_le split: option.splits)

text \<open>The columns of \<open>df\<close>.\<close>

lemma whole_number_show: "whole_number (show_word (n :: u64)) = Some n"
proof -
  have "unat n < 2 ^ LENGTH(64)" by (rule unsigned_less)
  then show ?thesis
    using show_nat_digits by (simp add: whole_number_def show_word_def digits_value_show_nat list_all_iff)
qed

definition column :: "string \<Rightarrow> bool" where
  "column t \<longleftrightarrow> t \<noteq> [] \<and> CHR '' '' \<notin> set t \<and> CHR 0x0A \<notin> set t \<and> CHR 0x0D \<notin> set t"

lemma split_on_columns:
  assumes "\<forall>t \<in> set ts. column t"
  shows "filter (\<lambda>t. t \<noteq> []) (split_on (CHR '' '') (concat (map (\<lambda>t. t @ '' '') ts) @ u)) =
    ts @ filter (\<lambda>t. t \<noteq> []) (split_on (CHR '' '') u)"
  using assms by (induction ts) (auto simp: column_def split_on_append)

lemma last_row_snoc:
  "CHR 0x0A \<notin> set line \<Longrightarrow> last_row (header @ CHR 0x0A # line) =
     (if row_of line \<noteq> [] then row_of line else last_row header)"
proof -
  assume n: "CHR 0x0A \<notin> set line"
  have "split_on x (header @ x # line) = split_on x header @ split_on x line" for x :: char
    by (induction header) (auto split: list.splits)
  with n show ?thesis by (simp add: last_row_def split_on_no_sep)
qed

lemma row_of_line:
  assumes "\<forall>t \<in> set ts. column t" and "column t" and "cr = [] \<or> cr = [CHR 0x0D]"
  shows "row_of (concat (map (\<lambda>t. t @ '' '') ts) @ t @ cr) = ts @ [t]"
proof -
  have "last t \<noteq> CHR 0x0D" using assms(2) by (auto simp: column_def dest: last_in_set)
  then have "drop_carriage_return (concat (map (\<lambda>t. t @ '' '') ts) @ t @ cr) =
      concat (map (\<lambda>t. t @ '' '') ts) @ t"
    using assms(2,3) by (auto simp: drop_carriage_return_def column_def butlast_append)
  then show ?thesis
    using split_on_columns[OF assms(1), of t] assms(2)
    by (simp add: row_of_def split_on_no_sep column_def)
qed

lemma column_show: "column (show_word n)"
proof -
  have "c \<notin> set (show_word n)" if "\<not> is_digit_char c" for c
    using show_nat_digits that by (auto simp: show_word_def)
  then show ?thesis by (simp add: column_def show_word_def is_digit_char_def)
qed



theorem measure_starts_no_guest_witness:
  "measure_disk (\<lambda>p. []) fake_filesystem fake_disks
     (fake_host\<lparr>running := (\<lambda>m. (Inr [''other''], m)), run_as_root := (\<lambda>g argv t m. (no_such_file, m))\<rparr>)
     \<lparr>probe_guest = False, guest_timeout = 30000\<rparr> (hd (distros sample_listing)) sample_machine =
   measure_disk (\<lambda>p. []) fake_filesystem fake_disks (fake_host\<lparr>running := (\<lambda>m. (Inr [''other''], m))\<rparr>)
     \<lparr>probe_guest = False, guest_timeout = 30000\<rparr> (hd (distros sample_listing)) sample_machine"
  using measure_starts_no_guest[of "\<lparr>probe_guest = False, guest_timeout = 30000\<rparr>"
      "fake_host\<lparr>running := (\<lambda>m. (Inr [''other''], m))\<rparr>" "hd (distros sample_listing)"]
  by (simp add: sample_listing_def)

end
