(* ===== verification/Usage.thy ===== *)
theory Usage
  imports Catalogue Disk_Info "HOL-Library.Multiset" "HOL-Library.List_Lexorder" "HOL-Library.Char_ord"
begin

text \<open>
  Where the space goes inside a guest (\<open>src/src/lib/ops/usage.h\<close>, \<open>usage.cpp\<close>): the sizes of the
  catalogue's places, which of them may be added up, and the breakdown by directory. Only \<open>df\<close>,
  \<open>getent\<close> and \<open>du\<close> are run. The catalogue is an argument. \<open>std::ranges::sort\<close> is not stable, so the
  order it gives to equal sizes is a parameter: \<open>sorts_by\<close> says what a sort is.
\<close>

section \<open>Data\<close>

record usage_entry =
  ue_path :: string
  ue_label :: string
  ue_bytes :: u64
  ue_safe :: bool
  ue_note :: string
  contains_others :: bool

record usage_directory =
  ud_path :: string
  ud_bytes :: u64
  ud_depth :: nat
  attributed_bytes :: u64
  attributed_to :: string

record usage_report =
  ur_distribution :: string
  ur_guest_used :: u64
  ur_guest_free :: u64
  ur_entries :: "usage_entry list"
  ur_counted :: u64
  ur_directories :: "usage_directory list"
  ur_notes :: "string list"

record usage_options =
  uo_top :: nat
  uo_by_directory :: bool
  uo_depth :: nat
  uo_timeout :: int

record 'w usage_operation =
  us_host :: "'w IWslHost"
  us_distro :: distro
  us_options :: usage_options
  us_catalogue :: "cache_entry list"
  us_sort_entries :: "usage_entry list \<Rightarrow> usage_entry list"
  us_sort_directories :: "usage_directory list \<Rightarrow> usage_directory list"

definition empty_usage :: usage_report where
  "empty_usage =
     \<lparr>ur_distribution = [], ur_guest_used = 0, ur_guest_free = 0, ur_entries = [], ur_counted = 0,
      ur_directories = [], ur_notes = []\<rparr>"

definition usage_note :: "string \<Rightarrow> usage_report \<Rightarrow> usage_report" where
  "usage_note n r = r\<lparr>ur_notes := ur_notes r @ [n]\<rparr>"

section \<open>Reading what the guest prints\<close>

definition guest_du :: string where "guest_du = ''/usr/bin/du''"
definition guest_getent :: string where "guest_getent = ''/usr/bin/getent''"

definition is_a_real_home :: "string \<Rightarrow> bool" where
  "is_a_real_home home \<longleftrightarrow> starts_with home ''/home/'' \<or> starts_with home ''/root''"

definition lines_of :: "string \<Rightarrow> string list" where
  "lines_of content = filter (\<lambda>l. l \<noteq> []) (map drop_carriage_return (split_on (CHR 0x0A) content))"

text \<open>\<open>before_tab\<close>, \<open>after_tab\<close>: the line around its first tab.\<close>

definition before_tab :: "string \<Rightarrow> string" where
  "before_tab line = takeWhile (\<lambda>c. c \<noteq> CHR 0x09) line"

definition after_tab :: "string \<Rightarrow> string" where
  "after_tab line = tl (dropWhile (\<lambda>c. c \<noteq> CHR 0x09) line)"

definition parse_du_line :: "string \<Rightarrow> u64 option" where
  "parse_du_line line =
     (if CHR 0x09 \<notin> set line \<or> before_tab line = [] then None else whole_number (before_tab line))"

definition path_depth :: "string \<Rightarrow> nat" where
  "path_depth p = (if p = ''/'' then 0 else length (filter (\<lambda>c. c = CHR ''/'') p))"

definition du_path :: "string \<Rightarrow> string" where
  "du_path line =
     (let p = after_tab line in if length p > 1 \<and> ends_with p ''/'' then butlast p else p)"

definition du_directory :: "string \<Rightarrow> usage_directory option" where
  "du_directory line =
     (case parse_du_line line of
        None \<Rightarrow> None
      | Some n \<Rightarrow>
          Some \<lparr>ud_path = du_path line, ud_bytes = n, ud_depth = path_depth (du_path line),
                attributed_bytes = 0, attributed_to = []\<rparr>)"

definition parse_du_listing :: "string \<Rightarrow> usage_directory list" where
  "parse_du_listing content = List.map_filter du_directory (lines_of content)"

definition home_of :: "string \<Rightarrow> string option" where
  "home_of line =
     (let fields = split_on (CHR '':'') line in
      if length fields \<le> 5 then None
      else if fields ! 5 = [] \<or> \<not> is_a_real_home (fields ! 5) then None
      else Some (fields ! 5))"

text \<open>A \<open>std::set\<close> of strings, in its order.\<close>

definition home_directories :: "string \<Rightarrow> string list" where
  "home_directories passwd = remdups_adj (sort (List.map_filter home_of (lines_of passwd)))"

section \<open>What may be added up\<close>

definition mark_nesting :: "usage_entry list \<Rightarrow> usage_entry list" where
  "mark_nesting es =
     map (\<lambda>outer. outer\<lparr>contains_others := list_ex (\<lambda>inner. path_contains (ue_path outer) (ue_path inner)) es\<rparr>) es"

definition inside_another :: "usage_entry list \<Rightarrow> usage_entry \<Rightarrow> bool" where
  "inside_another es e \<longleftrightarrow> list_ex (\<lambda>outer. path_contains (ue_path outer) (ue_path e)) es"

definition account_for_nesting :: "usage_report \<Rightarrow> usage_report" where
  "account_for_nesting r =
     (let es = mark_nesting (ur_entries r) in
      r\<lparr>ur_entries := es,
        ur_counted := foldl (\<lambda>total e. if inside_another es e then total else total + ue_bytes e)
                        (ur_counted r) es\<rparr>)"

definition within :: "string \<Rightarrow> usage_entry \<Rightarrow> bool" where
  "within dir e \<longleftrightarrow> ue_path e = dir \<or> path_contains dir (ue_path e)"

text \<open>One entry of the loop of \<open>attribute\<close>; the state is the largest size so far and the directory.\<close>

definition attribute_entry ::
  "usage_entry list \<Rightarrow> u64 \<times> usage_directory \<Rightarrow> usage_entry \<Rightarrow> u64 \<times> usage_directory" where
  "attribute_entry es = (\<lambda>(largest, d) e.
     (if \<not> within (ud_path d) e then (largest, d)
      else if list_ex (\<lambda>outer. within (ud_path d) outer \<and> path_contains (ue_path outer) (ue_path e)) es
        then (largest, d)
      else
        (let d' = d\<lparr>attributed_bytes := attributed_bytes d + ue_bytes e\<rparr> in
         if ue_bytes e > largest then (ue_bytes e, d'\<lparr>attributed_to := ue_label e\<rparr>) else (largest, d'))))"

definition attribute :: "usage_entry list \<Rightarrow> usage_directory \<Rightarrow> usage_directory" where
  "attribute es d = snd (foldl (attribute_entry es) (0, d) es)"

section \<open>Measuring\<close>

text \<open>The progress callback of the caller: each call is kept as a status event.\<close>

definition tell :: "string \<Rightarrow> ('w, 'm) run_state_scheme \<Rightarrow> unit \<times> ('w, 'm) run_state_scheme" where
  "tell t = notify (Sink_status t)"

definition in_guest ::
  "'w usage_operation \<Rightarrow> string list \<Rightarrow> ('w, 'm) run_state_scheme \<Rightarrow>
     (error + wsl_command_result) \<times> ('w, 'm) run_state_scheme" where
  "in_guest u argv =
     on_world (run_as_root (us_host u) (distro_name (us_distro u)) argv (uo_timeout (us_options u)))"

definition read_totals ::
  "'w usage_operation \<Rightarrow> usage_report \<Rightarrow> ('w, 'm) run_state_scheme \<Rightarrow>
     (error + usage_report) \<times> ('w, 'm) run_state_scheme" where
  "read_totals u r =
     attempt (in_guest u [guest_df, ''-B1'', ''/'']) (\<lambda>df.
     ret (Inr
       (case parse_df (standard_output df) of
          None \<Rightarrow> usage_note ''could not read df output; the totals are unknown'' r
        | Some x \<Rightarrow> r\<lparr>ur_guest_used := usage_used x, ur_guest_free := usage_available x\<rparr>)))"

definition homes_of ::
  "'w usage_operation \<Rightarrow> usage_report \<Rightarrow> ('w, 'm) run_state_scheme \<Rightarrow>
     (string list \<times> usage_report) \<times> ('w, 'm) run_state_scheme" where
  "homes_of u r =
     call (in_guest u [guest_getent, ''passwd'']) (\<lambda>passwd.
     (let homes = (case passwd of
                     Inl _ \<Rightarrow> []
                   | Inr p \<Rightarrow> if succeeded p then home_directories (standard_output p) else [])
      in if homes \<noteq> [] then ret (homes, r)
         else
           ret ([''/root''],
             usage_note (''could not list the guest'' @ CHR 0x27 #
               ''s users, so only /root was checked for per-user caches'') r)))"

definition measure_path ::
  "'w usage_operation \<Rightarrow> cache_entry \<Rightarrow> string \<Rightarrow> bool \<Rightarrow> ('w, 'm) run_state_scheme \<Rightarrow>
     (error + usage_entry option) \<times> ('w, 'm) run_state_scheme" where
  "measure_path u entry p per_user =
     attempt (in_guest u [guest_du, ''-sbx'', p]) (\<lambda>measured.
     ret (Inr
       (case parse_du_line (standard_output measured) of
          None \<Rightarrow> None
        | Some n \<Rightarrow>
            if n = 0 then None
            else
              Some \<lparr>ue_path = p,
                    ue_label = (if per_user then cache_label entry @ '' ('' @ p @ '')'' else cache_label entry),
                    ue_bytes = n, ue_safe = cache_safe entry, ue_note = cache_note entry,
                    contains_others = False\<rparr>)))"

definition paths_for :: "cache_entry \<Rightarrow> string list \<Rightarrow> string list" where
  "paths_for entry homes =
     (if \<not> is_per_user entry then [cache_path entry]
      else map (\<lambda>home. home @ drop 1 (cache_path entry)) homes)"

text \<open>The two loops of \<open>measure\<close>: the paths of one place, and the places.\<close>

fun measure_paths ::
  "'w usage_operation \<Rightarrow> cache_entry \<Rightarrow> bool \<Rightarrow> string list \<Rightarrow> usage_report \<Rightarrow>
     ('w, 'm) run_state_scheme \<Rightarrow> (error + usage_report) \<times> ('w, 'm) run_state_scheme" where
  "measure_paths u entry per_user [] r = ret (Inr r)"
| "measure_paths u entry per_user (p # ps) r =
     call (tell p) (\<lambda>_.
     attempt (measure_path u entry p per_user) (\<lambda>found.
     measure_paths u entry per_user ps
       (case found of None \<Rightarrow> r | Some e \<Rightarrow> r\<lparr>ur_entries := ur_entries r @ [e]\<rparr>)))"

fun measure_places ::
  "'w usage_operation \<Rightarrow> string list \<Rightarrow> cache_entry list \<Rightarrow> usage_report \<Rightarrow>
     ('w, 'm) run_state_scheme \<Rightarrow> (error + usage_report) \<times> ('w, 'm) run_state_scheme" where
  "measure_places u homes [] r = ret (Inr r)"
| "measure_places u homes (entry # entries) r =
     (let paths = paths_for entry homes in
      attempt (measure_paths u entry (length paths > 1) paths r) (\<lambda>r'.
      measure_places u homes entries r'))"

definition truncated :: "nat \<Rightarrow> 'a list \<Rightarrow> 'a list" where
  "truncated n xs = (if n \<noteq> 0 \<and> length xs > n then take n xs else xs)"

text \<open>The entries sorted, marked, added up and cut to \<open>--top\<close>.\<close>

definition ranked :: "'w usage_operation \<Rightarrow> usage_report \<Rightarrow> usage_report" where
  "ranked u r =
     (let r = account_for_nesting (r\<lparr>ur_entries := us_sort_entries u (ur_entries r)\<rparr>)
      in r\<lparr>ur_entries := truncated (uo_top (us_options u)) (ur_entries r)\<rparr>)"

definition breakdown ::
  "'w usage_operation \<Rightarrow> usage_entry list \<Rightarrow> usage_directory list \<Rightarrow> usage_directory list" where
  "breakdown u es found =
     truncated (uo_top (us_options u))
       (us_sort_directories u (map (attribute es) (filter (\<lambda>d. ud_depth d \<noteq> 0) found)))"

definition measure_directories ::
  "'w usage_operation \<Rightarrow> usage_report \<Rightarrow> ('w, 'm) run_state_scheme \<Rightarrow>
     (error + usage_report) \<times> ('w, 'm) run_state_scheme" where
  "measure_directories u r =
     call (tell ''walking the filesystem by directory'') (\<lambda>_.
     attempt (in_guest u [guest_du, ''-bx'', ''-d'', show_nat (uo_depth (us_options u)), ''/'']) (\<lambda>measured.
     (let r1 = (if succeeded measured then r
                else usage_note ''du could not read every directory; some may be missing or undercounted'' r);
          found = parse_du_listing (standard_output measured)
      in if found = [] then ret (Inr (usage_note ''du reported no directories; the breakdown is empty'' r1))
         else
           ret (Inr (r1\<lparr>ur_directories := breakdown u (ur_entries r1) found\<rparr>)))))"

definition measure_usage ::
  "'w usage_operation \<Rightarrow> ('w, 'm) run_state_scheme \<Rightarrow>
     (error + usage_report) \<times> ('w, 'm) run_state_scheme" where
  "measure_usage u =
     (let d = us_distro u in
      if \<not> is_wsl2 d then
        ret (fail Preflight (distro_name d @ '' is a WSL1 distribution and has no virtual disk'')
          (''convert it with `wsl --set-version '' @ distro_name d @ '' 2`, then try again''))
      else
        call (tell ''reading the filesystem totals'') (\<lambda>_.
        attempt (read_totals u (empty_usage\<lparr>ur_distribution := distro_name d\<rparr>)) (\<lambda>r.
        call (homes_of u r) (\<lambda>(homes, r).
        attempt (measure_places u homes (us_catalogue u) r) (\<lambda>r.
        if uo_by_directory (us_options u) then measure_directories u (ranked u r)
        else ret (Inr (ranked u r)))))))"

section \<open>Nothing is counted twice\<close>

lemma foldl_sum_unless:
  "foldl (\<lambda>t e. if P e then t else t + f e) (a :: u64) es =
     a + sum_list (map f (filter (\<lambda>e. \<not> P e) es))"
  by (induction es arbitrary: a) (simp_all add: add.assoc)

lemma mark_nesting_simps [simp]:
  "map ue_path (mark_nesting es) = map ue_path es"
  "map ue_bytes (mark_nesting es) = map ue_bytes es"
  by (simp_all add: mark_nesting_def comp_def)

lemma inside_another_mark [simp]: "inside_another (mark_nesting es) e = inside_another es e"
  by (simp add: inside_another_def mark_nesting_def list_ex_iff)

text \<open>Among the entries that hold a path, the one with the shortest path holds them all.\<close>

lemma outermost:
  assumes "e \<in> set es"
  shows "\<exists>t \<in> set es. \<not> inside_another es t \<and> within (ue_path t) e"
  using assms
proof (induction "length (ue_path e)" arbitrary: e rule: less_induct)
  case less
  show ?case
  proof (cases "inside_another es e")
    case True
    then obtain o1 where o1: "o1 \<in> set es" "path_contains (ue_path o1) (ue_path e)"
      by (auto simp: inside_another_def list_ex_iff)
    from less(1)[OF path_contains_length[OF o1(2)] o1(1)] obtain t where
      "t \<in> set es" "\<not> inside_another es t" "within (ue_path t) o1" by blast
    with o1(2) show ?thesis by (auto simp: within_def intro: path_contains_trans)
  next
    case False
    with less(2) show ?thesis by (auto simp: within_def)
  qed
qed

text \<open>The total of a report adds each place once. It is the sum of the entries that lie in no other
  entry; no two of these are nested; and every entry is one of them, by its path, or lies in one.\<close>

theorem counted_counts_once:
  assumes "outer = filter (\<lambda>e. \<not> inside_another (ur_entries r) e) (ur_entries r)"
  shows "ur_counted (account_for_nesting r) = ur_counted r + sum_list (map ue_bytes outer) \<and>
    (\<forall>a \<in> set outer. \<forall>b \<in> set outer. \<not> path_contains (ue_path a) (ue_path b)) \<and>
    (\<forall>e \<in> set (ur_entries r). \<exists>t \<in> set outer. within (ue_path t) e)"
proof (intro conjI ballI)
  have "sum_list (map ue_bytes (filter (\<lambda>e. \<not> inside_another es e) (mark_nesting es))) =
      sum_list (map ue_bytes (filter (\<lambda>e. \<not> inside_another es e) es))" for es
    by (simp add: mark_nesting_def filter_map comp_def inside_another_def)
  then show "ur_counted (account_for_nesting r) = ur_counted r + sum_list (map ue_bytes outer)"
    by (simp add: account_for_nesting_def Let_def foldl_sum_unless assms)
next
  fix a b assume "a \<in> set outer" "b \<in> set outer"
  then show "\<not> path_contains (ue_path a) (ue_path b)"
    by (auto simp: assms inside_another_def list_ex_iff)
next
  fix e assume "e \<in> set (ur_entries r)"
  from outermost[OF this] show "\<exists>t \<in> set outer. within (ue_path t) e" by (auto simp: assms)
qed

text \<open>The same for a directory: what the catalogue accounts for in it.\<close>

definition nested_within :: "usage_entry list \<Rightarrow> string \<Rightarrow> usage_entry \<Rightarrow> bool" where
  "nested_within es dir e \<longleftrightarrow>
     list_ex (\<lambda>outer. within dir outer \<and> path_contains (ue_path outer) (ue_path e)) es"

lemma attribute_fold:
  "ud_path (snd (foldl (attribute_entry es) (l, d) xs)) = ud_path d \<and>
   attributed_bytes (snd (foldl (attribute_entry es) (l, d) xs)) =
     attributed_bytes d +
     sum_list (map ue_bytes (filter (\<lambda>e. within (ud_path d) e \<and> \<not> nested_within es (ud_path d) e) xs))"
  by (induction xs arbitrary: l d)
     (auto simp: attribute_entry_def Let_def nested_within_def add.assoc)

lemma attribute_keeps [simp]:
  "ud_path (attribute es d) = ud_path d" "ud_bytes (attribute es d) = ud_bytes d"
proof -
  show "ud_path (attribute es d) = ud_path d" by (simp add: attribute_def attribute_fold)
  have "ud_bytes (snd (foldl (attribute_entry es) (l, d) xs)) = ud_bytes d" for l xs
    by (induction xs arbitrary: l d) (auto simp: attribute_entry_def Let_def)
  then show "ud_bytes (attribute es d) = ud_bytes d" by (simp add: attribute_def)
qed

lemma attributed_once:
  "attributed_bytes (attribute es d) =
     attributed_bytes d +
     sum_list (map ue_bytes (filter (\<lambda>e. within (ud_path d) e \<and> \<not> nested_within es (ud_path d) e) es))"
  by (simp add: attribute_def attribute_fold)

section \<open>What a report is\<close>

text \<open>A sort by size, biggest first; the order of equal sizes is its own.\<close>

definition sorts_by :: "('a \<Rightarrow> u64) \<Rightarrow> ('a list \<Rightarrow> 'a list) \<Rightarrow> bool" where
  "sorts_by key f \<longleftrightarrow>
     (\<forall>xs. mset (f xs) = mset xs \<and> sorted_wrt (\<lambda>a b. key b \<le> key a) (f xs))"

lemma sorts_by_set: "sorts_by key f \<Longrightarrow> set (f xs) = set xs"
  by (metis mset_eq_setD sorts_by_def)

definition biggest_first :: "('a \<Rightarrow> u64) \<Rightarrow> 'a list \<Rightarrow> 'a list" where
  "biggest_first key xs = rev (sort_key key xs)"

lemma biggest_first_sorts: "sorts_by key (biggest_first key)"
proof -
  have "sorted_wrt (\<lambda>a b. key a \<le> key b) (sort_key key xs)" for xs
    using sorted_sort_key[of key xs] by (simp add: sorted_map)
  then show ?thesis by (auto simp: sorts_by_def biggest_first_def sorted_wrt_rev)
qed

definition well_ordered :: "nat \<Rightarrow> usage_report \<Rightarrow> bool" where
  "well_ordered n r \<longleftrightarrow>
     sorted_wrt (\<lambda>a b. ue_bytes b \<le> ue_bytes a) (ur_entries r) \<and>
     sorted_wrt (\<lambda>a b. ud_bytes b \<le> ud_bytes a) (ur_directories r) \<and>
     (\<forall>e \<in> set (ur_entries r). ue_bytes e \<noteq> 0) \<and>
     (\<forall>d \<in> set (ur_directories r). ud_depth d \<noteq> 0) \<and>
     (n \<noteq> 0 \<longrightarrow> length (ur_entries r) \<le> n \<and> length (ur_directories r) \<le> n)"

lemma truncated_simps:
  "set (truncated n xs) \<subseteq> set xs" "n \<noteq> 0 \<Longrightarrow> length (truncated n xs) \<le> n"
  "sorted_wrt P xs \<Longrightarrow> sorted_wrt P (truncated n xs)"
  by (auto simp: truncated_def sorted_wrt_take dest: in_set_takeD)

lemma measure_paths_entries:
  assumes "measure_paths u entry per_user ps r s = (Inr r', s')"
  shows "ur_directories r' = ur_directories r \<and>
    (\<exists>new. ur_entries r' = ur_entries r @ new \<and> (\<forall>e \<in> set new. ue_bytes e \<noteq> 0))"
  using assms
proof (induction ps arbitrary: r s)
  case (Cons p ps)
  from Cons.prems obtain found s1 s2 where
    m: "measure_path u entry p per_user s1 = (Inr found, s2)" and
    rest: "measure_paths u entry per_user ps
      (case found of None \<Rightarrow> r | Some e \<Rightarrow> r\<lparr>ur_entries := ur_entries r @ [e]\<rparr>) s2 = (Inr r', s')"
    by (auto simp: call_def tell_def notify_def attempt_Inr_iff)
  from m have "\<forall>e. found = Some e \<longrightarrow> ue_bytes e \<noteq> 0"
    by (auto simp: measure_path_def attempt_Inr_iff split: option.splits if_splits)
  with Cons.IH[OF rest] show ?case by (fastforce split: option.splits)
qed simp

lemma measure_places_entries:
  assumes "measure_places u homes entries r s = (Inr r', s')"
  shows "ur_directories r' = ur_directories r \<and>
    (\<exists>new. ur_entries r' = ur_entries r @ new \<and> (\<forall>e \<in> set new. ue_bytes e \<noteq> 0))"
  using assms
proof (induction entries arbitrary: r s)
  case (Cons entry entries)
  from Cons.prems obtain r1 s1 where
    one: "measure_paths u entry (length (paths_for entry homes) > 1) (paths_for entry homes) r s = (Inr r1, s1)" and
    rest: "measure_places u homes entries r1 s1 = (Inr r', s')"
    by (auto simp: Let_def attempt_Inr_iff)
  from measure_paths_entries[OF one] Cons.IH[OF rest] show ?case by fastforce
qed simp

lemma account_keeps:
  "ur_directories (account_for_nesting r) = ur_directories r"
  "map ue_bytes (ur_entries (account_for_nesting r)) = map ue_bytes (ur_entries r)"
  by (simp_all add: account_for_nesting_def Let_def)

lemma sorted_bytes_map:
  "sorted_wrt (\<lambda>a b. ue_bytes b \<le> ue_bytes a) es \<longleftrightarrow> sorted_wrt (\<lambda>a b. b \<le> a) (map ue_bytes es)"
  by (simp add: sorted_wrt_map)

lemma set_bytes_map: "(\<forall>e \<in> set es. ue_bytes e \<noteq> 0) \<longleftrightarrow> 0 \<notin> set (map ue_bytes es)"
  by auto

lemma measure_usage_Inr:
  assumes "measure_usage u s = (Inr r, s')"
  obtains r0 r1 r2 homes s1 s2 s3 s4 where
    "read_totals u (empty_usage\<lparr>ur_distribution := distro_name (us_distro u)\<rparr>) s1 = (Inr r0, s2)"
    "homes_of u r0 s2 = ((homes, r1), s3)"
    "measure_places u homes (us_catalogue u) r1 s3 = (Inr r2, s4)"
    "(if uo_by_directory (us_options u) then measure_directories u (ranked u r2)
      else ret (Inr (ranked u r2))) s4 = (Inr r, s')"
proof -
  from assms obtain s1 r0 s2 where t:
      "read_totals u (empty_usage\<lparr>ur_distribution := distro_name (us_distro u)\<rparr>) s1 = (Inr r0, s2)"
    and k: "call (homes_of u r0) (\<lambda>(homes, r).
        attempt (measure_places u homes (us_catalogue u) r) (\<lambda>r.
        if uo_by_directory (us_options u) then measure_directories u (ranked u r)
        else ret (Inr (ranked u r)))) s2 = (Inr r, s')"
    by (auto simp: measure_usage_def Let_def fail_def call_iff attempt_Inr_iff split: if_splits)
  obtain homes r1 s3 where h: "homes_of u r0 s2 = ((homes, r1), s3)" by (metis surj_pair)
  with k show thesis by (auto simp: call_def attempt_Inr_iff intro: that[OF t h])
qed

lemma ranked_ordered:
  assumes "sorts_by ue_bytes (us_sort_entries u)"
    and "\<forall>e \<in> set (ur_entries r). ue_bytes e \<noteq> 0" and "ur_directories r = []"
  shows "well_ordered (uo_top (us_options u)) (ranked u r)"
proof -
  let ?q = "account_for_nesting (r\<lparr>ur_entries := us_sort_entries u (ur_entries r)\<rparr>)"
  have bytes: "map ue_bytes (ur_entries ?q) = map ue_bytes (us_sort_entries u (ur_entries r))"
    by (simp add: account_keeps)
  have "sorted_wrt (\<lambda>a b. ue_bytes b \<le> ue_bytes a) (ur_entries ?q)"
    using assms(1) unfolding sorted_bytes_map bytes by (simp add: sorts_by_def sorted_wrt_map)
  moreover have "\<forall>e \<in> set (ur_entries ?q). ue_bytes e \<noteq> 0"
    using assms(2) sorts_by_set[OF assms(1)] unfolding set_bytes_map bytes by simp
  ultimately show ?thesis
    using assms(3) truncated_simps(1)[of _ "ur_entries ?q"] truncated_simps(2,3)
    by (auto simp: well_ordered_def ranked_def Let_def account_keeps)
qed

lemma measure_directories_ordered:
  assumes "sorts_by ud_bytes (us_sort_directories u)"
    and "well_ordered (uo_top (us_options u)) q" and "measure_directories u q s = (Inr r, s')"
  shows "well_ordered (uo_top (us_options u)) r"
proof -
  from assms(3) have "ur_entries r = ur_entries q \<and> (ur_directories r = ur_directories q \<or>
      (\<exists>es found. ur_directories r = breakdown u es found))"
    by (auto simp: measure_directories_def call_def tell_def notify_def attempt_Inr_iff Let_def
        usage_note_def split: if_splits) blast+
  then show ?thesis
  proof (elim conjE disjE exE)
    fix es found
    let ?ds = "us_sort_directories u (map (attribute es) (filter (\<lambda>d. ud_depth d \<noteq> 0) found))"
    assume "ur_entries r = ur_entries q" "ur_directories r = breakdown u es found"
    then have r: "ur_entries r = ur_entries q" "ur_directories r = truncated (uo_top (us_options u)) ?ds"
      by (simp_all add: breakdown_def)
    have depth: "ud_depth (attribute es d) = ud_depth d" for d
    proof -
      have "ud_depth (snd (foldl (attribute_entry es) (l, d) xs)) = ud_depth d" for l xs
        by (induction xs arbitrary: l d) (auto simp: attribute_entry_def Let_def)
      then show ?thesis by (simp add: attribute_def)
    qed
    have "set ?ds = set (map (attribute es) (filter (\<lambda>d. ud_depth d \<noteq> 0) found))"
      by (rule sorts_by_set[OF assms(1)])
    then have "\<forall>d \<in> set ?ds. ud_depth d \<noteq> 0" using depth by auto
    then have "\<forall>d \<in> set (ur_directories r). ud_depth d \<noteq> 0"
      unfolding r using truncated_simps(1)[of "uo_top (us_options u)" ?ds] by blast
    moreover have "sorted_wrt (\<lambda>a b. ud_bytes b \<le> ud_bytes a) (ur_directories r)"
      using assms(1) unfolding r sorts_by_def by (intro truncated_simps(3)) blast
    moreover have "uo_top (us_options u) \<noteq> 0 \<longrightarrow> length (ur_directories r) \<le> uo_top (us_options u)"
      unfolding r by (simp add: truncated_simps(2))
    ultimately show ?thesis using assms(2) r(1) by (simp add: well_ordered_def)
  qed (use assms(2) in \<open>simp add: well_ordered_def\<close>)
qed


text \<open>Whatever the guest prints, a usage run gives a report.\<close>

lemma in_guest_answers:
  assumes "\<And>argv w. \<exists>a w'. run_as_root (us_host u) g argv t w = (Inr a, w')"
    and "g = distro_name (us_distro u)" and "t = uo_timeout (us_options u)"
  shows "\<exists>a s'. in_guest u argv s = (Inr a, s')"
  using assms(1)[of argv "world s"] unfolding in_guest_def on_world_def assms(2,3) by auto

lemma measure_usage_returns:
  assumes "is_wsl2 (us_distro u)"
    and "\<And>argv w. \<exists>a w'. run_as_root (us_host u) (distro_name (us_distro u)) argv
           (uo_timeout (us_options u)) w = (Inr a, w')"
  shows "\<exists>r s'. measure_usage u s = (Inr r, s')"
proof -
  have g: "\<exists>a s'. in_guest u argv s = (Inr a, s')" for argv and s :: "('a, 'b) run_state_scheme"
    using in_guest_answers[OF assms(2) refl refl] .
  have path: "\<exists>x s'. measure_path u entry p b s = (Inr x, s')" for entry p b and s :: "('a, 'b) run_state_scheme"
    using g[of "[guest_du, ''-sbx'', p]" s] by (auto simp: measure_path_def attempt_def)
  have paths: "\<exists>x s'. measure_paths u entry b ps r s = (Inr x, s')" for entry b ps r and s :: "('a, 'b) run_state_scheme"
  proof (induction ps arbitrary: r s)
    case (Cons p ps)
    obtain s1 where t: "tell p s = ((), s1)" by (simp add: tell_def notify_def)
    obtain x s2 where "measure_path u entry p b s1 = (Inr x, s2)" using path by blast
    with t Cons.IH show ?case by (auto simp: call_def attempt_def)
  qed simp
  have places: "\<exists>x s'. measure_places u homes es r s = (Inr x, s')" for homes es r and s :: "('a, 'b) run_state_scheme"
  proof (induction es arbitrary: r s)
    case (Cons e es)
    obtain x s1 where "measure_paths u e (length (paths_for e homes) > 1) (paths_for e homes) r s = (Inr x, s1)"
      using paths by blast
    with Cons.IH show ?case by (simp add: attempt_def Let_def)
  qed simp
  have totals: "\<exists>x s'. read_totals u r s = (Inr x, s')" for r and s :: "('a, 'b) run_state_scheme"
    using g[of "[guest_df, ''-B1'', ''/'']" s] by (auto simp: read_totals_def attempt_def)
  have dirs: "\<exists>x s'. measure_directories u r s = (Inr x, s')" for r and s :: "('a, 'b) run_state_scheme"
  proof -
    obtain s1 where t: "tell ''walking the filesystem by directory'' s = ((), s1)" by (simp add: tell_def notify_def)
    obtain a s2 where "in_guest u [guest_du, ''-bx'', ''-d'', show_nat (uo_depth (us_options u)), ''/''] s1 = (Inr a, s2)"
      using g by blast
    with t show ?thesis by (auto simp: measure_directories_def call_def attempt_def Let_def)
  qed
  obtain s1 where t: "tell ''reading the filesystem totals'' s = ((), s1)" by (simp add: tell_def notify_def)
  obtain r0 s2 where r0: "read_totals u (empty_usage\<lparr>ur_distribution := distro_name (us_distro u)\<rparr>) s1 = (Inr r0, s2)"
    using totals by blast
  obtain homes r1 s3 where h: "homes_of u r0 s2 = ((homes, r1), s3)" by (metis surj_pair)
  obtain r2 s4 where p: "measure_places u homes (us_catalogue u) r1 s3 = (Inr r2, s4)" using places by blast
  from t r0 h p assms(1) dirs[of "ranked u r2" s4] show ?thesis
    by (auto simp: measure_usage_def Let_def call_def attempt_def)
qed

text \<open>Nothing a guest prints, and no exit code, makes a usage run fail: when the host can run commands
  in a WSL2 guest, there is a report.\<close>

theorem usage_survives_any_output:
  assumes "is_wsl2 (us_distro u)"
    and "\<And>argv w. \<exists>a w'. run_as_root (us_host u) (distro_name (us_distro u)) argv
           (uo_timeout (us_options u)) w = (Inr a, w')"
  shows "\<exists>r s'. measure_usage u s = (Inr r, s')"
  using assms by (rule measure_usage_returns)

text \<open>What a usage run asks of a guest.\<close>

definition with_host :: "'w IWslHost \<Rightarrow> 'w usage_operation \<Rightarrow> 'w usage_operation" where
  "with_host h u = u\<lparr>us_host := h\<rparr>"

lemma with_host_simps [simp]:
  "us_distro (with_host h u) = us_distro u" "us_options (with_host h u) = us_options u"
  "us_catalogue (with_host h u) = us_catalogue u" "us_host (with_host h u) = h"
  "us_sort_entries (with_host h u) = us_sort_entries u"
  "us_sort_directories (with_host h u) = us_sort_directories u"
  by (simp_all add: with_host_def)

definition reads_alike :: "'w usage_operation \<Rightarrow> 'w IWslHost \<Rightarrow> 'w IWslHost \<Rightarrow> bool" where
  "reads_alike u h h' \<longleftrightarrow>
     (\<forall>args. \<forall>program \<in> {guest_df, guest_getent, guest_du}.
        run_as_root h (distro_name (us_distro u)) (program # args) (uo_timeout (us_options u)) =
        run_as_root h' (distro_name (us_distro u)) (program # args) (uo_timeout (us_options u)))"

lemma in_guest_alike:
  assumes "reads_alike u h h'" and "program \<in> {guest_df, guest_getent, guest_du}"
  shows "in_guest (with_host h u) (program # args) = in_guest (with_host h' u) (program # args)"
  using assms by (auto simp: in_guest_def reads_alike_def)

lemma measure_paths_alike:
  fixes r :: usage_report
  assumes "reads_alike u h h'"
  shows "measure_paths (with_host h u) e b ps r =
    (measure_paths (with_host h' u) e b ps r :: ('w, 'm) run_state_scheme \<Rightarrow> _)"
proof -
  have "measure_path (with_host h u) e p b =
      (measure_path (with_host h' u) e p b :: ('w, 'm) run_state_scheme \<Rightarrow> _)" for p
    by (simp add: measure_path_def in_guest_alike[OF assms])
  then show ?thesis by (induction ps arbitrary: r) simp_all
qed

lemma measure_places_alike:
  assumes "reads_alike u h h'"
  shows "measure_places (with_host h u) homes es r =
    (measure_places (with_host h' u) homes es r :: ('w, 'm) run_state_scheme \<Rightarrow> _)"
proof (induction es arbitrary: r)
  case (Cons e es)
  have "measure_places (with_host h u) homes es =
      (measure_places (with_host h' u) homes es :: usage_report \<Rightarrow> ('w, 'm) run_state_scheme \<Rightarrow> _)"
    by (rule ext) (rule Cons.IH)
  then show ?case by (simp add: measure_paths_alike[OF assms])
qed simp

text \<open>C38: a usage run only reads: it runs nothing in the guest but \<open>df\<close>, \<open>getent\<close> and \<open>du\<close>, and uses no
  other method of the host: two hosts that answer these alike give the same report and the same state.\<close>

theorem usage_only_reads:
  assumes "\<forall>args. \<forall>program \<in> {''/bin/df'', ''/usr/bin/getent'', ''/usr/bin/du''}.
      run_as_root h (distro_name (us_distro u)) (program # args) (uo_timeout (us_options u)) =
      run_as_root h' (distro_name (us_distro u)) (program # args) (uo_timeout (us_options u))"
  shows "measure_usage (u\<lparr>us_host := h\<rparr>) s = measure_usage (u\<lparr>us_host := h'\<rparr>) s"
proof -
  have alike: "reads_alike u h h'"
    using assms by (simp add: reads_alike_def guest_df_def guest_getent_def guest_du_def)
  have ranked: "ranked (with_host h u) = ranked (with_host h' u)" by (simp add: fun_eq_iff ranked_def)
  have breakdown: "breakdown (with_host h u) = breakdown (with_host h' u)"
    by (simp add: fun_eq_iff breakdown_def)
  have "measure_usage (with_host h u) s = measure_usage (with_host h' u) s"
    by (simp add: measure_usage_def read_totals_def homes_of_def measure_directories_def
        in_guest_alike[OF alike] measure_places_alike[OF alike] ranked breakdown cong: if_cong)
  then show ?thesis by (simp add: with_host_def)
qed

section \<open>Witnesses\<close>

text \<open>A guest where every command prints \<open>5\<close>, a tab and a path.\<close>

definition measured_machine :: fake_machine where
  "measured_machine = sample_machine\<lparr>fake_answers := (\<lambda>argv.
     \<lparr>exit_code = 0, standard_output = ''5'' @ CHR 0x09 # ''/a'', standard_error = []\<rparr>)\<rparr>"

definition small_catalogue :: "cache_entry list" where
  "small_catalogue =
     [\<lparr>cache_path = ''/a'', cache_label = ''A'', cache_safe = True, cache_note = []\<rparr>,
      \<lparr>cache_path = ''/a/b'', cache_label = ''B'', cache_safe = True, cache_note = []\<rparr>]"

definition talking_host :: "fake_machine IWslHost" where
  "talking_host = fake_host\<lparr>run_as_root := (\<lambda>g argv t m. (Inr (fake_answers m argv), m))\<rparr>"

definition sample_usage :: "nat \<Rightarrow> fake_machine usage_operation" where
  "sample_usage n =
     \<lparr>us_host = talking_host, us_distro = hd (distros sample_listing),
      us_options = \<lparr>uo_top = n, uo_by_directory = True, uo_depth = 2, uo_timeout = 1\<rparr>,
      us_catalogue = small_catalogue, us_sort_entries = biggest_first ue_bytes,
      us_sort_directories = biggest_first ud_bytes\<rparr>"

definition usage_start :: "fake_machine run_state" where
  "usage_start = \<lparr>world = measured_machine, sink = []\<rparr>"

lemma sample_usage_returns: "\<exists>r s'. measure_usage (sample_usage 1) usage_start = (Inr r, s')"
  by (rule measure_usage_returns) (simp_all add: sample_usage_def talking_host_def sample_listing_def is_wsl2_def)


theorem counted_counts_once_witness:
  "ur_counted (account_for_nesting (empty_usage\<lparr>ur_entries :=
      [\<lparr>ue_path = ''/a'', ue_label = [], ue_bytes = 5, ue_safe = True, ue_note = [], contains_others = False\<rparr>,
       \<lparr>ue_path = ''/a/b'', ue_label = [], ue_bytes = 3, ue_safe = True, ue_note = [], contains_others = False\<rparr>]\<rparr>)) = 5"
  (is "ur_counted (account_for_nesting ?r) = 5")
proof -
  have "map ue_bytes (filter (\<lambda>e. \<not> inside_another (ur_entries ?r) e) (ur_entries ?r)) = [5]"
    by code_simp
  with counted_counts_once[OF refl, of ?r] show ?thesis by (simp add: empty_usage_def)
qed

theorem usage_survives_any_output_witness:
  "\<exists>r s'. measure_usage (sample_usage 0\<lparr>us_host := fake_host\<lparr>run_as_root :=
     (\<lambda>g argv t m. (Inr \<lparr>exit_code = 127, standard_output = ''?'', standard_error = []\<rparr>, m))\<rparr>\<rparr>) usage_start = (Inr r, s')"
  by (rule usage_survives_any_output) (simp_all add: sample_usage_def sample_listing_def is_wsl2_def)

theorem usage_only_reads_witness:
  "measure_usage (sample_usage 0\<lparr>us_host := fake_host\<rparr>) usage_start =
   measure_usage (sample_usage 0\<lparr>us_host := fake_host\<lparr>shutdown_wsl := (\<lambda>m. (Inr (), sample_machine))\<rparr>\<rparr>) usage_start"
  by (rule usage_only_reads) simp

text \<open>\<open>--top\<close> cuts the entries before the breakdown is attributed to them, so the bytes of an entry below
  the cut are shown as unaccounted for in its directory.\<close>

lemma top_hides_attribution:
  "map attributed_bytes (map (attribute es) ds) = [3] \<and>
   map attributed_bytes (map (attribute (truncated 1 es)) ds) = [0]"
  if "es = [\<lparr>ue_path = ''/a'', ue_label = [], ue_bytes = 5, ue_safe = True, ue_note = [], contains_others = False\<rparr>,
       \<lparr>ue_path = ''/b'', ue_label = [], ue_bytes = 3, ue_safe = True, ue_note = [], contains_others = False\<rparr>]"
    and "ds = [\<lparr>ud_path = ''/b'', ud_bytes = 9, ud_depth = 1, attributed_bytes = 0, attributed_to = []\<rparr>]"
  unfolding that by code_simp

end
