(* ===== verification/Win32.thy ===== *)
theory Win32
  imports Wsl_Output Interfaces Win_Path
begin

text \<open>
  The Win32 calls of the platform layer (\<open>src/src/lib/platform/win32_api.h\<close>), the translation of their
  error codes (\<open>win32_error.cpp\<close>) and the guards that close handles (\<open>scoped_handle.h\<close>). Windows is not
  part of the repository: the table \<open>Win32Api\<close>, which the code already calls through, is the record
  \<open>win32\<close>, a parameter of everything in the platform theories. Each field has the call's inputs as
  arguments and its return value and output buffers as results, over the world. Buffers are lists; a
  count that goes with a buffer is a result of its own, since a call may report one that does not fit.
\<close>

section \<open>The table\<close>

type_synonym dword = u32

text \<open>A handle is an address; the API has two values for "none".\<close>

type_synonym handle = u64

definition null_handle :: handle where
  "null_handle = 0"

definition invalid_handle_value :: handle where
  "invalid_handle_value = - 1"

record find_data =
  fd_attributes :: dword
  fd_size_high :: dword
  fd_size_low :: dword
  fd_name :: wstr

record disk_size_info =
  ds_virtual_size :: u64
  ds_physical_size :: u64
  ds_block_size :: dword
  ds_sector_size :: dword

record virtual_disk_progress =
  vp_status :: dword
  vp_current :: u64
  vp_completion :: u64

record 'w win32 =
  get_last_error :: "'w \<Rightarrow> dword \<times> 'w"
  get_compressed_file_size :: "wstr \<Rightarrow> 'w \<Rightarrow> (dword \<times> dword) \<times> 'w"
  get_file_attributes :: "wstr \<Rightarrow> 'w \<Rightarrow> dword \<times> 'w"
  get_file_attributes_ex :: "wstr \<Rightarrow> 'w \<Rightarrow> (bool \<times> dword \<times> dword) \<times> 'w"
  get_disk_free_space_ex :: "wstr \<Rightarrow> 'w \<Rightarrow> (bool \<times> u64 \<times> u64) \<times> 'w"
  get_volume_information :: "wstr \<Rightarrow> nat \<Rightarrow> 'w \<Rightarrow> (bool \<times> wstr) \<times> 'w"
  get_volume_path_name :: "wstr \<Rightarrow> nat \<Rightarrow> 'w \<Rightarrow> (bool \<times> wstr) \<times> 'w"
  find_first_file_ex :: "wstr \<Rightarrow> 'w \<Rightarrow> (handle \<times> find_data) \<times> 'w"
  find_next_file :: "handle \<Rightarrow> 'w \<Rightarrow> (bool \<times> find_data) \<times> 'w"
  find_close :: "handle \<Rightarrow> 'w \<Rightarrow> bool \<times> 'w"
  create_file :: "wstr \<Rightarrow> dword \<Rightarrow> dword \<Rightarrow> dword \<Rightarrow> 'w \<Rightarrow> handle \<times> 'w"
  query_allocated_ranges :: "handle \<Rightarrow> u64 \<Rightarrow> u64 \<Rightarrow> nat \<Rightarrow> 'w \<Rightarrow> (bool \<times> (u64 \<times> u64) list) \<times> 'w"
  set_sparse :: "handle \<Rightarrow> 'w \<Rightarrow> bool \<times> 'w"
  delete_file :: "wstr \<Rightarrow> 'w \<Rightarrow> bool \<times> 'w"
  expand_environment_strings :: "wstr \<Rightarrow> dword option \<Rightarrow> 'w \<Rightarrow> (dword \<times> wstr) \<times> 'w"
  sleep :: "dword \<Rightarrow> 'w \<Rightarrow> 'w"
  reg_open_key_ex :: "handle \<Rightarrow> wstr \<Rightarrow> dword \<Rightarrow> 'w \<Rightarrow> (dword \<times> handle) \<times> 'w"
  reg_close_key :: "handle \<Rightarrow> 'w \<Rightarrow> dword \<times> 'w"
  reg_enum_key_ex :: "handle \<Rightarrow> dword \<Rightarrow> nat \<Rightarrow> 'w \<Rightarrow> (dword \<times> wstr) \<times> 'w"
  reg_query_value_ex :: "handle \<Rightarrow> wstr \<Rightarrow> dword option \<Rightarrow> 'w \<Rightarrow> (dword \<times> dword \<times> string \<times> dword) \<times> 'w"
  reg_set_value_ex :: "handle \<Rightarrow> wstr \<Rightarrow> dword \<Rightarrow> string \<Rightarrow> 'w \<Rightarrow> dword \<times> 'w"
  open_virtual_disk :: "wstr \<Rightarrow> 'w \<Rightarrow> (dword \<times> handle) \<times> 'w"
  get_virtual_disk_size :: "handle \<Rightarrow> 'w \<Rightarrow> (dword \<times> disk_size_info) \<times> 'w"
  get_virtual_disk_parent :: "handle \<Rightarrow> dword \<Rightarrow> 'w \<Rightarrow> (dword \<times> dword \<times> wstr) \<times> 'w"
  compact_virtual_disk :: "handle \<Rightarrow> handle \<Rightarrow> 'w \<Rightarrow> dword \<times> 'w"
  get_virtual_disk_operation_progress :: "handle \<Rightarrow> 'w \<Rightarrow> (dword \<times> virtual_disk_progress) \<times> 'w"
  create_virtual_disk :: "wstr \<Rightarrow> u64 \<Rightarrow> 'w \<Rightarrow> (dword \<times> handle) \<times> 'w"
  create_process :: "wstr \<Rightarrow> bool \<Rightarrow> dword \<Rightarrow> (handle \<times> handle \<times> handle) option \<Rightarrow> 'w \<Rightarrow> (bool \<times> handle \<times> handle) \<times> 'w"
  create_pipe :: "'w \<Rightarrow> (bool \<times> handle \<times> handle) \<times> 'w"
  set_handle_information :: "handle \<Rightarrow> 'w \<Rightarrow> bool \<times> 'w"
  read_file :: "handle \<Rightarrow> nat \<Rightarrow> 'w \<Rightarrow> (bool \<times> string) \<times> 'w"
  write_file :: "handle \<Rightarrow> string \<Rightarrow> 'w \<Rightarrow> (bool \<times> dword) \<times> 'w"
  set_file_pointer_ex :: "handle \<Rightarrow> u64 \<Rightarrow> 'w \<Rightarrow> bool \<times> 'w"
  set_end_of_file :: "handle \<Rightarrow> 'w \<Rightarrow> bool \<times> 'w"
  move_file_ex :: "wstr \<Rightarrow> wstr \<Rightarrow> dword \<Rightarrow> 'w \<Rightarrow> bool \<times> 'w"
  create_directory :: "wstr \<Rightarrow> 'w \<Rightarrow> bool \<times> 'w"
  peek_named_pipe :: "handle \<Rightarrow> 'w \<Rightarrow> (bool \<times> dword) \<times> 'w"
  get_exit_code_process :: "handle \<Rightarrow> 'w \<Rightarrow> (bool \<times> dword) \<times> 'w"
  terminate_process :: "handle \<Rightarrow> dword \<Rightarrow> 'w \<Rightarrow> bool \<times> 'w"
  close_handle :: "handle \<Rightarrow> 'w \<Rightarrow> bool \<times> 'w"
  create_event :: "'w \<Rightarrow> handle \<times> 'w"
  wait_for_single_object :: "handle \<Rightarrow> dword \<Rightarrow> 'w \<Rightarrow> dword \<times> 'w"
  cancel_io_ex :: "handle \<Rightarrow> 'w \<Rightarrow> bool \<times> 'w"

section \<open>Codes\<close>

definition ERROR_SUCCESS :: dword where "ERROR_SUCCESS = 0"
definition ERROR_FILE_NOT_FOUND :: dword where "ERROR_FILE_NOT_FOUND = 2"
definition ERROR_PATH_NOT_FOUND :: dword where "ERROR_PATH_NOT_FOUND = 3"
definition ERROR_ACCESS_DENIED :: dword where "ERROR_ACCESS_DENIED = 5"
definition ERROR_INVALID_DRIVE :: dword where "ERROR_INVALID_DRIVE = 15"
definition ERROR_NO_MORE_FILES :: dword where "ERROR_NO_MORE_FILES = 18"
definition ERROR_NOT_READY :: dword where "ERROR_NOT_READY = 21"
definition ERROR_SHARING_VIOLATION :: dword where "ERROR_SHARING_VIOLATION = 32"
definition ERROR_LOCK_VIOLATION :: dword where "ERROR_LOCK_VIOLATION = 33"
definition ERROR_NOT_SUPPORTED :: dword where "ERROR_NOT_SUPPORTED = 50"
definition ERROR_BAD_NETPATH :: dword where "ERROR_BAD_NETPATH = 53"
definition ERROR_BAD_NET_NAME :: dword where "ERROR_BAD_NET_NAME = 67"
definition ERROR_DISK_FULL :: dword where "ERROR_DISK_FULL = 112"
definition ERROR_INSUFFICIENT_BUFFER :: dword where "ERROR_INSUFFICIENT_BUFFER = 122"
definition ERROR_INVALID_NAME :: dword where "ERROR_INVALID_NAME = 123"
definition ERROR_ALREADY_EXISTS :: dword where "ERROR_ALREADY_EXISTS = 183"
definition ERROR_MORE_DATA :: dword where "ERROR_MORE_DATA = 234"
definition ERROR_NO_MORE_ITEMS :: dword where "ERROR_NO_MORE_ITEMS = 259"
definition ERROR_IO_PENDING :: dword where "ERROR_IO_PENDING = 997"

lemmas win32_codes =
  ERROR_SUCCESS_def ERROR_FILE_NOT_FOUND_def ERROR_PATH_NOT_FOUND_def ERROR_ACCESS_DENIED_def
  ERROR_INVALID_DRIVE_def ERROR_NO_MORE_FILES_def ERROR_NOT_READY_def ERROR_SHARING_VIOLATION_def
  ERROR_LOCK_VIOLATION_def ERROR_NOT_SUPPORTED_def ERROR_BAD_NETPATH_def ERROR_BAD_NET_NAME_def
  ERROR_DISK_FULL_def ERROR_INSUFFICIENT_BUFFER_def ERROR_INVALID_NAME_def ERROR_ALREADY_EXISTS_def
  ERROR_MORE_DATA_def ERROR_NO_MORE_ITEMS_def ERROR_IO_PENDING_def

definition INVALID_FILE_ATTRIBUTES :: dword where "INVALID_FILE_ATTRIBUTES = - 1"
definition INVALID_FILE_SIZE :: dword where "INVALID_FILE_SIZE = - 1"
definition WAIT_OBJECT_0 :: dword where "WAIT_OBJECT_0 = 0"
definition WAIT_FAILED :: dword where "WAIT_FAILED = - 1"
definition INFINITE :: dword where "INFINITE = - 1"

section \<open>Errors\<close>

definition win32_error_name :: "dword \<Rightarrow> string" where
  "win32_error_name code =
     (if code = ERROR_FILE_NOT_FOUND then ''file not found''
      else if code = ERROR_PATH_NOT_FOUND then ''path not found''
      else if code = ERROR_ACCESS_DENIED then ''access denied''
      else if code = ERROR_INVALID_DRIVE then ''invalid drive''
      else if code = ERROR_NOT_READY then ''device not ready''
      else if code = ERROR_SHARING_VIOLATION then ''file is in use by another process''
      else if code = ERROR_LOCK_VIOLATION then ''file region is locked''
      else if code = ERROR_DISK_FULL then ''disk full''
      else if code = ERROR_NOT_SUPPORTED then ''operation not supported on this volume''
      else ''unexpected Win32 error'')"

definition error_from_win32 :: "dword \<Rightarrow> string \<Rightarrow> error" where
  "error_from_win32 code doing =
     (let message =
        ''failed to '' @ doing @ '': '' @ win32_error_name code @ '' (Win32 error '' @ show_word code @ '')'' in
      if code = ERROR_FILE_NOT_FOUND \<or> code = ERROR_PATH_NOT_FOUND then
        mk_error Preflight message ''check that the path exists and is spelled correctly''
      else if code = ERROR_ACCESS_DENIED then
        mk_error NeedsElevation message ''re-run from an elevated prompt, or pass --elevate''
      else if code = ERROR_SHARING_VIOLATION \<or> code = ERROR_LOCK_VIOLATION then
        mk_error DistroBusy message
          ''close whatever is using the file; `wsldisk lock` names the process''
      else if code = ERROR_INVALID_DRIVE \<or> code = ERROR_NOT_READY then
        mk_error Preflight message ''check that the drive is present and ready''
      else if code = ERROR_DISK_FULL then
        mk_error Preflight message ''free space on the target volume and retry''
      else mk_error Generic message [])"

text \<open>\<open>std::unexpected(error_from_win32(win32().get_last_error(), ...))\<close>.\<close>

definition last_error :: "'w win32 \<Rightarrow> string \<Rightarrow> 'w \<Rightarrow> (error + 'a) \<times> 'w" where
  "last_error api doing w = (case get_last_error api w of (code, w') \<Rightarrow> (Inl (error_from_win32 code doing), w'))"

section \<open>Strings and handles\<close>

text \<open>What a call sees of a string it is handed by \<open>c_str\<close>, and what the code sees of one in a buffer.\<close>

definition c_str :: "wstr \<Rightarrow> wstr" where
  "c_str t = takeWhile (\<lambda>u. u \<noteq> 0) t"

text \<open>\<open>describe\<close> and \<open>ascii_narrow\<close>, the same loop in two files.\<close>

definition ascii_narrow :: "wstr \<Rightarrow> string" where
  "ascii_narrow t = map (\<lambda>u. if u < 0x80 then char_of (unat u) else CHR ''?'') t"

text \<open>\<open>ScopedHandle\<close>: the body runs, and whatever it returns the handle is closed after it.\<close>

definition close_scoped :: "'w win32 \<Rightarrow> handle \<Rightarrow> 'w \<Rightarrow> 'w" where
  "close_scoped api h w =
     (if h \<noteq> null_handle \<and> h \<noteq> invalid_handle_value then snd (close_handle api h w) else w)"

definition closing :: "'w win32 \<Rightarrow> handle \<Rightarrow> ('w \<Rightarrow> 'a \<times> 'w) \<Rightarrow> 'w \<Rightarrow> 'a \<times> 'w" where
  "closing api h body w = (case body w of (x, w') \<Rightarrow> (x, close_scoped api h w'))"

text \<open>The category of an error is a function of its code alone, and only the codes that name a cause get
  one.\<close>

lemma error_from_win32_code:
  "err_code (error_from_win32 code doing) =
     (if code \<in> {ERROR_FILE_NOT_FOUND, ERROR_PATH_NOT_FOUND, ERROR_INVALID_DRIVE, ERROR_NOT_READY,
        ERROR_DISK_FULL} then Preflight
      else if code = ERROR_ACCESS_DENIED then NeedsElevation
      else if code \<in> {ERROR_SHARING_VIOLATION, ERROR_LOCK_VIOLATION} then DistroBusy
      else Generic)"
  by (simp add: error_from_win32_def Let_def win32_codes)

section \<open>A table that refuses\<close>

text \<open>Every call fails and changes nothing: the base of the tables the witnesses use.\<close>

definition refusing_api :: "'w win32" where
  "refusing_api =
     \<lparr>get_last_error = (\<lambda>w. (ERROR_NOT_SUPPORTED, w)),
      get_compressed_file_size = (\<lambda>_ w. ((INVALID_FILE_SIZE, 0), w)),
      get_file_attributes = (\<lambda>_ w. (INVALID_FILE_ATTRIBUTES, w)),
      get_file_attributes_ex = (\<lambda>_ w. ((False, 0, 0), w)),
      get_disk_free_space_ex = (\<lambda>_ w. ((False, 0, 0), w)),
      get_volume_information = (\<lambda>_ _ w. ((False, []), w)),
      get_volume_path_name = (\<lambda>_ _ w. ((False, []), w)),
      find_first_file_ex = (\<lambda>_ w. ((invalid_handle_value, \<lparr>fd_attributes = 0, fd_size_high = 0, fd_size_low = 0, fd_name = []\<rparr>), w)),
      find_next_file = (\<lambda>_ w. ((False, \<lparr>fd_attributes = 0, fd_size_high = 0, fd_size_low = 0, fd_name = []\<rparr>), w)),
      find_close = (\<lambda>_ w. (False, w)),
      create_file = (\<lambda>_ _ _ _ w. (invalid_handle_value, w)),
      query_allocated_ranges = (\<lambda>_ _ _ _ w. ((False, []), w)),
      set_sparse = (\<lambda>_ w. (False, w)),
      delete_file = (\<lambda>_ w. (False, w)),
      expand_environment_strings = (\<lambda>_ _ w. ((0, []), w)),
      sleep = (\<lambda>_ w. w),
      reg_open_key_ex = (\<lambda>_ _ _ w. ((ERROR_NOT_SUPPORTED, null_handle), w)),
      reg_close_key = (\<lambda>_ w. (ERROR_NOT_SUPPORTED, w)),
      reg_enum_key_ex = (\<lambda>_ _ _ w. ((ERROR_NOT_SUPPORTED, []), w)),
      reg_query_value_ex = (\<lambda>_ _ _ w. ((ERROR_NOT_SUPPORTED, 0, [], 0), w)),
      reg_set_value_ex = (\<lambda>_ _ _ _ w. (ERROR_NOT_SUPPORTED, w)),
      open_virtual_disk = (\<lambda>_ w. ((ERROR_NOT_SUPPORTED, null_handle), w)),
      get_virtual_disk_size = (\<lambda>_ w. ((ERROR_NOT_SUPPORTED, \<lparr>ds_virtual_size = 0, ds_physical_size = 0, ds_block_size = 0, ds_sector_size = 0\<rparr>), w)),
      get_virtual_disk_parent = (\<lambda>_ _ w. ((ERROR_NOT_SUPPORTED, 0, []), w)),
      compact_virtual_disk = (\<lambda>_ _ w. (ERROR_NOT_SUPPORTED, w)),
      get_virtual_disk_operation_progress = (\<lambda>_ w. ((ERROR_NOT_SUPPORTED, \<lparr>vp_status = 0, vp_current = 0, vp_completion = 0\<rparr>), w)),
      create_virtual_disk = (\<lambda>_ _ w. ((ERROR_NOT_SUPPORTED, null_handle), w)),
      create_process = (\<lambda>_ _ _ _ w. ((False, null_handle, null_handle), w)),
      create_pipe = (\<lambda>w. ((False, null_handle, null_handle), w)),
      set_handle_information = (\<lambda>_ w. (False, w)),
      read_file = (\<lambda>_ _ w. ((False, []), w)),
      write_file = (\<lambda>_ _ w. ((False, 0), w)),
      set_file_pointer_ex = (\<lambda>_ _ w. (False, w)),
      set_end_of_file = (\<lambda>_ w. (False, w)),
      move_file_ex = (\<lambda>_ _ _ w. (False, w)),
      create_directory = (\<lambda>_ w. (False, w)),
      peek_named_pipe = (\<lambda>_ w. ((False, 0), w)),
      get_exit_code_process = (\<lambda>_ w. ((False, 0), w)),
      terminate_process = (\<lambda>_ _ w. (False, w)),
      close_handle = (\<lambda>_ w. (False, w)),
      create_event = (\<lambda>w. (null_handle, w)),
      wait_for_single_object = (\<lambda>_ _ w. (WAIT_FAILED, w)),
      cancel_io_ex = (\<lambda>_ w. (False, w))\<rparr>"

end
