(* ===== verification/Win32_Registry.thy ===== *)
theory Win32_Registry
  imports Win32 Contracts
begin

text \<open>
  The registry through the Win32 table (\<open>src/src/lib/platform/registry.cpp\<close>): every method opens its
  key, does one thing with it and closes it again. A value is bytes in the registry and 16-bit units
  in the code. The enumeration of subkeys ends when the table says so; its loop is a partial
  function, and it is proved to end for a table that behaves as the API is documented to.
\<close>

section \<open>The methods\<close>

definition max_key_name_length :: nat where
  "max_key_name_length = 256"

definition KEY_READ :: dword where "KEY_READ = 0x20019"
definition KEY_SET_VALUE :: dword where "KEY_SET_VALUE = 2"
definition REG_SZ :: dword where "REG_SZ = 1"
definition REG_EXPAND_SZ :: dword where "REG_EXPAND_SZ = 2"
definition REG_DWORD :: dword where "REG_DWORD = 4"

definition trim_trailing_nuls :: "wstr \<Rightarrow> wstr" where
  "trim_trailing_nuls t = rev (dropWhile (\<lambda>u. u = 0) (rev t))"

text \<open>\<open>ScopedKey\<close>.\<close>

definition close_key :: "'w win32 \<Rightarrow> handle \<Rightarrow> 'w \<Rightarrow> 'w" where
  "close_key api h w = (if h \<noteq> null_handle then snd (reg_close_key api h w) else w)"

definition with_key ::
  "'w win32 \<Rightarrow> handle \<Rightarrow> wstr \<Rightarrow> dword \<Rightarrow> string \<Rightarrow> (handle \<Rightarrow> 'w \<Rightarrow> (error + 'a) \<times> 'w) \<Rightarrow> 'w \<Rightarrow> (error + 'a) \<times> 'w"
  where
  "with_key api root key access doing body w =
     (case reg_open_key_ex api root (c_str key) access w of
        ((opened, h), w1) \<Rightarrow>
          (case (if opened \<noteq> ERROR_SUCCESS then (Inl (error_from_win32 opened doing), w1) else body h w1) of
             (r, w2) \<Rightarrow> (r, close_key api h w2)))"

partial_function (option) enumerate_from ::
  "'w win32 \<Rightarrow> handle \<Rightarrow> string \<Rightarrow> dword \<Rightarrow> wstr list \<Rightarrow> 'w \<Rightarrow> ((error + wstr list) \<times> 'w) option" where
  "enumerate_from api h doing index names w =
     (case reg_enum_key_ex api h index max_key_name_length w of
        ((code, name), w') \<Rightarrow>
          if code = ERROR_NO_MORE_ITEMS then Some (Inr names, w')
          else if code \<noteq> ERROR_SUCCESS then Some (Inl (error_from_win32 code doing), w')
          else enumerate_from api h doing (index + 1) (names @ [name]) w')"

declare enumerate_from.simps [code]

definition registry_subkeys ::
  "'w win32 \<Rightarrow> handle \<Rightarrow> wstr \<Rightarrow> 'w \<Rightarrow> ((error + wstr list) \<times> 'w) option" where
  "registry_subkeys api root key w =
     (case reg_open_key_ex api root (c_str key) KEY_READ w of
        ((opened, h), w1) \<Rightarrow>
          if opened \<noteq> ERROR_SUCCESS then
            Some (Inl (error_from_win32 opened (''open the registry key '' @ ascii_narrow key)), close_key api h w1)
          else
            map_option (\<lambda>(r, w2). (r, close_key api h w2))
              (enumerate_from api h (''enumerate the subkeys of '' @ ascii_narrow key) 0 [] w1))"

definition not_the_type :: "string \<Rightarrow> wstr \<Rightarrow> wstr \<Rightarrow> dword \<Rightarrow> error + 'a" where
  "not_the_type expected key v type =
     fail Generic
       (ascii_narrow v @ '' in '' @ ascii_narrow key @ '' is not a '' @ expected @
        '' (registry type '' @ show_word type @ '')'')
       ''the WSL registry layout has changed; please report this with `wsl --version`''"

definition read_doing :: "wstr \<Rightarrow> wstr \<Rightarrow> string" where
  "read_doing key v = ''read '' @ ascii_narrow v @ '' from '' @ ascii_narrow key"

text \<open>A buffer of \<open>n\<close> zero units after a call has put bytes into it. An odd count of bytes is rounded
  down to units, and the call is still told the odd count.\<close>

definition filled :: "nat \<Rightarrow> string \<Rightarrow> wstr" where
  "filled n bytes = units_of_bytes (take (2 * n) (bytes @ replicate (2 * n) (CHR 0x00)))"

definition registry_read_string ::
  "'w win32 \<Rightarrow> handle \<Rightarrow> wstr \<Rightarrow> wstr \<Rightarrow> 'w \<Rightarrow> (error + wstr option) \<times> 'w" where
  "registry_read_string api root key v =
     with_key api root key KEY_READ (''open the registry key '' @ ascii_narrow key) (\<lambda>h w.
       case reg_query_value_ex api h (c_str v) None w of
         ((sized, type, _, bytes), w1) \<Rightarrow>
           if sized = ERROR_FILE_NOT_FOUND then (Inr None, w1)
           else if sized \<noteq> ERROR_SUCCESS then (Inl (error_from_win32 sized (read_doing key v)), w1)
           else if type \<noteq> REG_SZ \<and> type \<noteq> REG_EXPAND_SZ then (not_the_type ''string'' key v type, w1)
           else
             (case reg_query_value_ex api h (c_str v) (Some bytes) w1 of
                ((got, _, content, _), w2) \<Rightarrow>
                  if got \<noteq> ERROR_SUCCESS then (Inl (error_from_win32 got (read_doing key v)), w2)
                  else (Inr (Some (trim_trailing_nuls (filled (unat bytes div 2) content))), w2)))"

text \<open>Four bytes as a number, the least significant first; the buffer starts as zeros.\<close>

definition dword_of_bytes :: "string \<Rightarrow> dword" where
  "dword_of_bytes bytes =
     (case filled 2 bytes of [low, high] \<Rightarrow> ucast low + push_bit 16 (ucast high) | _ \<Rightarrow> 0)"

definition registry_read_dword ::
  "'w win32 \<Rightarrow> handle \<Rightarrow> wstr \<Rightarrow> wstr \<Rightarrow> 'w \<Rightarrow> (error + u32 option) \<times> 'w" where
  "registry_read_dword api root key v =
     with_key api root key KEY_READ (''open the registry key '' @ ascii_narrow key) (\<lambda>h w.
       case reg_query_value_ex api h (c_str v) (Some 4) w of
         ((got, type, content, _), w1) \<Rightarrow>
           if got = ERROR_FILE_NOT_FOUND then (Inr None, w1)
           else if got \<noteq> ERROR_SUCCESS then (Inl (error_from_win32 got (read_doing key v)), w1)
           else if type \<noteq> REG_DWORD then (not_the_type ''DWORD'' key v type, w1)
           else (Inr (Some (dword_of_bytes content)), w1))"

text \<open>The byte count is a \<open>DWORD\<close>: what the call stores is the first that many bytes of the payload,
  which for a text of two gigabytes is not all of it.\<close>

definition registry_payload :: "wstr \<Rightarrow> string" where
  "registry_payload d =
     take (unat (of_nat (2 * (length d + 1)) :: dword)) (utf16le_bytes (d @ [0]))"

definition registry_write_string ::
  "'w win32 \<Rightarrow> handle \<Rightarrow> wstr \<Rightarrow> wstr \<Rightarrow> wstr \<Rightarrow> 'w \<Rightarrow> status \<times> 'w" where
  "registry_write_string api root key v d =
     with_key api root key KEY_SET_VALUE (''open the registry key '' @ ascii_narrow key @ '' for writing'') (\<lambda>h w.
       case reg_set_value_ex api h (c_str v) REG_SZ (registry_payload d) w of
         (written, w1) \<Rightarrow>
           if written \<noteq> ERROR_SUCCESS then
             (Inl (error_from_win32 written (''write '' @ ascii_narrow v @ '' to '' @ ascii_narrow key)), w1)
           else (Inr (), w1))"

text \<open>The class \<open>Win32Registry\<close>; where the enumeration does not return there is no result to speak of.\<close>

definition win32_registry :: "'w win32 \<Rightarrow> handle \<Rightarrow> 'w IRegistry" where
  "win32_registry api root =
     \<lparr>subkeys = (\<lambda>key w. the (registry_subkeys api root key w)),
      read_string = registry_read_string api root,
      read_dword = registry_read_dword api root,
      write_string = registry_write_string api root\<rparr>"


section \<open>The registry as documented\<close>

record reg_node =
  node_keys :: "wstr list"
  node_values :: "wstr \<Rightarrow> (dword \<times> string) option"

text \<open>\<open>store\<close> is what the keys hold and \<open>opened\<close> which key a handle is for. A call may fail for any
  reason it likes; what it says when it succeeds, and when it says that there is nothing, is true.\<close>

locale win32_registry_contract =
  fixes api :: "'w win32" and root :: handle
    and store :: "'w \<Rightarrow> wstr \<Rightarrow> reg_node option"
    and opened :: "'w \<Rightarrow> handle \<Rightarrow> wstr option"
  assumes open_reads: "reg_open_key_ex api root k a w = ((c, h), w') \<Longrightarrow> store w' = store w"
    and open_ok:
      "reg_open_key_ex api root k a w = ((ERROR_SUCCESS, h), w') \<Longrightarrow>
       opened w' h = Some k \<and> store w k \<noteq> None"
    and close_reads: "store (snd (reg_close_key api h w)) = store w"
    and enum_reads:
      "reg_enum_key_ex api h i room w = ((c, name), w') \<Longrightarrow> store w' = store w \<and> opened w' = opened w"
    and enum_name:
      "reg_enum_key_ex api h i room w = ((ERROR_SUCCESS, name), w') \<Longrightarrow> opened w h = Some k \<Longrightarrow>
       store w k = Some node \<Longrightarrow> unat i < length (node_keys node) \<and> name = node_keys node ! unat i"
    and enum_end:
      "reg_enum_key_ex api h i room w = ((ERROR_NO_MORE_ITEMS, name), w') \<Longrightarrow> opened w h = Some k \<Longrightarrow>
       store w k = Some node \<Longrightarrow> length (node_keys node) \<le> unat i"
    and enum_last: "reg_enum_key_ex api h (- 1) room w = ((c, name), w') \<Longrightarrow> c \<noteq> ERROR_SUCCESS"
    and query_reads:
      "reg_query_value_ex api h v cap w = (answer, w') \<Longrightarrow> store w' = store w \<and> opened w' = opened w"
    and query_absent:
      "reg_query_value_ex api h v cap w = ((ERROR_FILE_NOT_FOUND, t, b, n), w') \<Longrightarrow>
       opened w h = Some k \<Longrightarrow> store w k = Some node \<Longrightarrow> node_values node v = None"
    and query_ok:
      "reg_query_value_ex api h v cap w = ((ERROR_SUCCESS, t, b, n), w') \<Longrightarrow>
       opened w h = Some k \<Longrightarrow> store w k = Some node \<Longrightarrow>
       \<exists>data. node_values node v = Some (t, data) \<and> unat n = length data \<and> (cap \<noteq> None \<longrightarrow> b = data)"
    and set_ok:
      "reg_set_value_ex api h v t b w = (ERROR_SUCCESS, w') \<Longrightarrow>
       opened w h = Some k \<Longrightarrow> store w k = Some node \<Longrightarrow>
       store w' = (store w)(k \<mapsto> node\<lparr>node_values := (node_values node)(v \<mapsto> (t, b))\<rparr>)"
    and set_fails:
      "reg_set_value_ex api h v t b w = (c, w') \<Longrightarrow> c \<noteq> ERROR_SUCCESS \<Longrightarrow> store w' = store w"
begin

lemma close_key_reads [simp]: "store (close_key api h w) = store w"
  by (simp add: close_key_def close_reads)

text \<open>A method that opens a key and reads keeps the store; one that succeeds ran its body on the open
  key.\<close>

lemma with_key_reads:
  assumes "with_key api root k a doing body w = (r, w')"
    and "\<And>h w r w'. body h w = (r, w') \<Longrightarrow> store w' = store w"
  shows "store w' = store w"
  using assms by (fastforce simp: with_key_def split: prod.splits if_splits dest: open_reads)

lemma with_key_ok:
  assumes "with_key api root k a doing body w = (Inr x, w')"
  obtains h node w1 w2 where "opened w1 h = Some (c_str k)" "store w (c_str k) = Some node"
    "store w1 = store w" "body h w1 = (Inr x, w2)" "store w' = store w2"
  using assms open_ok open_reads
  by (fastforce simp: with_key_def split: prod.splits if_splits)

lemma enumerate_from_names:
  assumes "opened w h = Some k" and "store w k = Some node"
    and "names = take (unat i) (node_keys node)" and "unat i \<le> length (node_keys node)"
  shows "\<exists>r w'. enumerate_from api h doing i names w = Some (r, w') \<and> store w' = store w \<and>
           (\<forall>found. r = Inr found \<longrightarrow> found = node_keys node)"
  using assms
proof (induction "length (node_keys node) - unat i" arbitrary: i names w)
  case n: (0 i names w)
  obtain c name w1 where e: "reg_enum_key_ex api h i max_key_name_length w = ((c, name), w1)"
    by (metis surj_pair)
  have "c \<noteq> ERROR_SUCCESS" using enum_name[of h i _ w name w1 k node] e n by auto
  with e n enum_reads[OF e] show ?case by (subst enumerate_from.simps) auto
next
  case (Suc m i names w)
  obtain c name w1 where e: "reg_enum_key_ex api h i max_key_name_length w = ((c, name), w1)"
    by (metis surj_pair)
  note same = enum_reads[OF e]
  have i: "unat i < length (node_keys node)" using Suc.hyps(2) by simp
  show ?case
  proof (cases "c = ERROR_SUCCESS")
    case True
    then have "i \<noteq> - 1" using enum_last e by blast
    then have "1 + i \<noteq> 0" by (metis add.commute eq_neg_iff_add_eq_0)
    then have up: "unat (i + 1) = unat i + 1" using unatSuc[of i] by (simp add: add.commute)
    have nm: "name = node_keys node ! unat i" using True enum_name e Suc.prems(1,2) by blast
    have "\<exists>r w'. enumerate_from api h doing (i + 1) (names @ [name]) w1 = Some (r, w') \<and> store w' = store w1 \<and>
            (\<forall>found. r = Inr found \<longrightarrow> found = node_keys node)"
      using Suc.hyps(2) same Suc.prems i up nm
      by (intro Suc.hyps(1)) (auto simp: take_Suc_conv_app_nth)
    with e True same show ?thesis by (subst enumerate_from.simps) (simp add: win32_codes)
  next
    case False
    have "c \<noteq> ERROR_NO_MORE_ITEMS" using enum_end e Suc.prems(1,2) i by fastforce
    with e False same show ?thesis by (subst enumerate_from.simps) simp
  qed
qed

lemma subkeys_exact:
  "\<exists>r w'. registry_subkeys api root k w = Some (r, w') \<and> store w' = store w \<and>
     (\<forall>found. r = Inr found \<longrightarrow> map_option node_keys (store w (c_str k)) = Some found)"
proof -
  obtain c h w1 where e: "reg_open_key_ex api root (c_str k) KEY_READ w = ((c, h), w1)"
    by (metis surj_pair)
  show ?thesis
  proof (cases "c = ERROR_SUCCESS")
    case True
    with e obtain node where n: "opened w1 h = Some (c_str k)" "store w (c_str k) = Some node"
      using open_ok by blast
    with open_reads[OF e] have "store w1 (c_str k) = Some node" by simp
    from enumerate_from_names[OF n(1) this, of "[]" 0 "''enumerate the subkeys of '' @ ascii_narrow k"]
    show ?thesis using e True n open_reads[OF e] by (auto simp: registry_subkeys_def)
  next
    case False
    with e open_reads[OF e] show ?thesis by (simp add: registry_subkeys_def)
  qed
qed

lemma read_string_keeps: "registry_read_string api root k v w = (r, w') \<Longrightarrow> store w' = store w"
  unfolding registry_read_string_def
  by (erule with_key_reads) (auto simp: not_the_type_def split: prod.splits if_splits dest!: query_reads)

lemma read_dword_keeps: "registry_read_dword api root k v w = (r, w') \<Longrightarrow> store w' = store w"
  unfolding registry_read_dword_def
  by (erule with_key_reads) (auto simp: not_the_type_def split: prod.splits if_splits dest!: query_reads)

lemma write_string_stores:
  assumes "registry_write_string api root k v d w = (Inr u, w')"
  obtains node where "store w (c_str k) = Some node"
    "store w' = (store w)(c_str k \<mapsto>
       node\<lparr>node_values := (node_values node)(c_str v \<mapsto> (REG_SZ, registry_payload d))\<rparr>)"
proof -
  from assms obtain h node w1 w2 where b: "opened w1 h = Some (c_str k)" "store w (c_str k) = Some node"
    "store w1 = store w" "store w' = store w2"
    "(case reg_set_value_ex api h (c_str v) REG_SZ (registry_payload d) w1 of
       (written, w1) \<Rightarrow>
         if written \<noteq> ERROR_SUCCESS then
           (Inl (error_from_win32 written (''write '' @ ascii_narrow v @ '' to '' @ ascii_narrow k)), w1)
         else (Inr (), w1)) = (Inr u, w2)"
    unfolding registry_write_string_def by (rule with_key_ok) blast
  then have "reg_set_value_ex api h (c_str v) REG_SZ (registry_payload d) w1 = (ERROR_SUCCESS, w2)"
    by (auto split: prod.splits if_splits)
  from set_ok[OF this b(1)] b(2-4) that show thesis by simp
qed

lemma write_string_fails_keeps:
  "registry_write_string api root k v d w = (Inl e, w') \<Longrightarrow> store w' = store w"
  unfolding registry_write_string_def with_key_def
  by (auto split: prod.splits if_splits dest!: open_reads set_fails)

lemma read_string_reads_value:
  assumes "registry_read_string api root k v w = (Inr x, w')"
  shows "\<exists>node. store w (c_str k) = Some node \<and>
     (case x of None \<Rightarrow> node_values node (c_str v) = None
      | Some d \<Rightarrow> \<exists>t data. node_values node (c_str v) = Some (t, data) \<and> t \<in> {REG_SZ, REG_EXPAND_SZ} \<and>
          d = trim_trailing_nuls (units_of_bytes (take (2 * (length data div 2)) data)))"
proof -
  let ?q = "\<lambda>h w.
       case reg_query_value_ex api h (c_str v) None w of
         ((sized, type, _, bytes), w1) \<Rightarrow>
           if sized = ERROR_FILE_NOT_FOUND then (Inr None, w1)
           else if sized \<noteq> ERROR_SUCCESS then (Inl (error_from_win32 sized (read_doing k v)), w1)
           else if type \<noteq> REG_SZ \<and> type \<noteq> REG_EXPAND_SZ then (not_the_type ''string'' k v type, w1)
           else
             (case reg_query_value_ex api h (c_str v) (Some bytes) w1 of
                ((got, _, content, _), w2) \<Rightarrow>
                  if got \<noteq> ERROR_SUCCESS then (Inl (error_from_win32 got (read_doing k v)), w2)
                  else (Inr (Some (trim_trailing_nuls (filled (unat bytes div 2) content))), w2))"
  from assms obtain h node w1 w2 where b: "opened w1 h = Some (c_str k)" "store w (c_str k) = Some node"
    "store w1 = store w" "?q h w1 = (Inr x, w2)"
    unfolding registry_read_string_def by (rule with_key_ok) blast
  obtain c t bs n w3 where q: "reg_query_value_ex api h (c_str v) None w1 = ((c, t, bs, n), w3)"
    by (metis surj_pair)
  obtain c' t' bs' n' w4 where q': "reg_query_value_ex api h (c_str v) (Some n) w3 = ((c', t', bs', n'), w4)"
    by (metis surj_pair)
  note same = query_reads[OF q]
  have nd: "store w1 (c_str k) = Some node" using b by simp
  show ?thesis
  proof (cases "c = ERROR_FILE_NOT_FOUND")
    case True
    with q query_absent[OF _ b(1) nd] b(2,4) show ?thesis by (auto simp: win32_codes)
  next
    case False
    with q b(4) have c: "c = ERROR_SUCCESS" and t: "t \<in> {REG_SZ, REG_EXPAND_SZ}"
      by (auto simp: not_the_type_def split: if_splits)
    with q q' b(4) False have c': "c' = ERROR_SUCCESS"
      and x: "x = Some (trim_trailing_nuls (filled (unat n div 2) bs'))"
      by (auto split: if_splits)
    from query_ok[OF q[unfolded c] b(1) nd] obtain data
      where d: "node_values node (c_str v) = Some (t, data)" "unat n = length data" by auto
    from query_ok[OF q'[unfolded c']] same b(1) nd d have "bs' = data" by auto
    with x t d b(2) show ?thesis by (auto simp: filled_def)
  qed
qed

end

sublocale win32_registry_contract \<subseteq> reads: registry_reader "win32_registry api root" store
proof
  fix k w names w'
  assume "subkeys (win32_registry api root) k w = (names, w')"
  then show "store w' = store w" using subkeys_exact[of k w] by (auto simp: win32_registry_def)
qed (auto simp: win32_registry_def dest: read_string_keeps read_dword_keeps)


section \<open>Properties\<close>

lemma trim_trailing_nuls_id: "d = [] \<or> last d \<noteq> 0 \<Longrightarrow> trim_trailing_nuls (d @ [0]) = d"
  by (cases "rev d") (auto simp: trim_trailing_nuls_def hd_rev dropWhile_hd)

lemma length_utf16le_bytes [simp]: "length (utf16le_bytes t) = 2 * length t"
  by (induction t) (auto simp: utf16le_bytes_def byte_pair_def)

lemma registry_payload_whole:
  assumes "2 * (length d + 1) < 2 ^ 32"
  shows "registry_payload d = utf16le_bytes (d @ [0])"
proof -
  have "unat (of_nat (2 * (length d + 1)) :: dword) = 2 * (length d + 1)"
    using assms by (subst unat_of_nat) (simp add: mod_less)
  then show ?thesis by (simp add: registry_payload_def)
qed

text \<open>C39: what \<open>write_string\<close> writes \<open>read_string\<close> reads back, and the write changes nothing else; the
  value is a \<open>REG_SZ\<close> after it, whatever it was before.\<close>

theorem registry_write_read:
  assumes "win32_registry_contract api root store opened"
    and "write_string (win32_registry api root) k v d w = (Inr (), w1)"
    and "read_string (win32_registry api root) k v w1 = (Inr x, w2)"
    and "d = [] \<or> last d \<noteq> 0" and "2 * (length d + 1) < 2 ^ 32"
  shows "x = Some d \<and> store w2 = store w1 \<and>
    (\<exists>node. store w (c_str k) = Some node \<and>
      store w1 = (store w)(c_str k \<mapsto>
        node\<lparr>node_values := (node_values node)(c_str v \<mapsto> (REG_SZ, utf16le_bytes (d @ [0])))\<rparr>))"
proof -
  have r: "registry_read_string api root k v w1 = (Inr x, w2)" using assms(3) by (simp add: win32_registry_def)
  have "registry_write_string api root k v d w = (Inr (), w1)" using assms(2) by (simp add: win32_registry_def)
  then obtain node where n: "store w (c_str k) = Some node"
    "store w1 = (store w)(c_str k \<mapsto>
       node\<lparr>node_values := (node_values node)(c_str v \<mapsto> (REG_SZ, utf16le_bytes (d @ [0])))\<rparr>)"
    using assms(5) by (auto simp: registry_payload_whole elim: win32_registry_contract.write_string_stores[OF assms(1)])
  have "x = Some d"
    using win32_registry_contract.read_string_reads_value[OF assms(1) r] n(2) assms(4) by (auto simp: trim_trailing_nuls_id split: option.splits)
  with n win32_registry_contract.read_string_keeps[OF assms(1) r] show ?thesis by blast
qed

text \<open>Enumerating the subkeys of a key comes to an end, and the names are those of the key, each
  once and in the order of the registry.\<close>

theorem registry_subkeys_returns:
  assumes "win32_registry_contract api root store opened"
  shows "\<exists>r w'. registry_subkeys api root k w = Some (r, w') \<and> store w' = store w \<and>
     (\<forall>found. r = Inr found \<longrightarrow> map_option node_keys (store w (c_str k)) = Some found)"
  by (rule win32_registry_contract.subkeys_exact[OF assms])

section \<open>A registry in memory\<close>

record win_registry =
  wr_store :: "wstr \<Rightarrow> reg_node option"
  wr_open :: "handle \<Rightarrow> wstr option"

definition wr_node :: "win_registry \<Rightarrow> handle \<Rightarrow> reg_node" where
  "wr_node w h = the (wr_store w (the (wr_open w h)))"

definition memory_registry :: "win_registry win32" where
  "memory_registry = refusing_api
     \<lparr>reg_open_key_ex := (\<lambda>root k access w.
        if wr_store w k = None then ((ERROR_FILE_NOT_FOUND, null_handle), w)
        else ((ERROR_SUCCESS, 1), w\<lparr>wr_open := (wr_open w)(1 \<mapsto> k)\<rparr>)),
      reg_close_key := (\<lambda>h w. (ERROR_SUCCESS, w\<lparr>wr_open := (wr_open w)(h := None)\<rparr>)),
      reg_enum_key_ex := (\<lambda>h i room w.
        ((if i = - 1 then (ERROR_NOT_SUPPORTED, [])
          else if unat i < length (node_keys (wr_node w h))
          then (ERROR_SUCCESS, node_keys (wr_node w h) ! unat i) else (ERROR_NO_MORE_ITEMS, [])), w)),
      reg_query_value_ex := (\<lambda>h v cap w.
        ((case node_values (wr_node w h) v of
            None \<Rightarrow> (ERROR_FILE_NOT_FOUND, 0, [], 0)
          | Some (t, data) \<Rightarrow>
              if unat (of_nat (length data) :: dword) \<noteq> length data then (ERROR_NOT_SUPPORTED, 0, [], 0)
              else (case cap of
                 None \<Rightarrow> (ERROR_SUCCESS, t, [], of_nat (length data))
               | Some room \<Rightarrow>
                   if unat room < length data then (ERROR_MORE_DATA, t, [], of_nat (length data))
                   else (ERROR_SUCCESS, t, data, of_nat (length data)))), w)),
      reg_set_value_ex := (\<lambda>h v t data w.
        case wr_open w h of
          None \<Rightarrow> (ERROR_ACCESS_DENIED, w)
        | Some k \<Rightarrow> (ERROR_SUCCESS, w\<lparr>wr_store := (wr_store w)(k \<mapsto>
            (wr_node w h)\<lparr>node_values := (node_values (wr_node w h))(v \<mapsto> (t, data))\<rparr>)\<rparr>))\<rparr>"

interpretation memory_registry: win32_registry_contract memory_registry root wr_store wr_open
proof
qed (auto simp: memory_registry_def wr_node_def win32_codes unat_of_nat
    split: if_splits option.splits prod.splits)

definition sample_store :: "wstr \<Rightarrow> reg_node option" where
  "sample_store k =
     (if k = [0x4B] then
        Some \<lparr>node_keys = [[0x41], [0x42]],
          node_values = (\<lambda>v. if v = [0x56] then Some (REG_EXPAND_SZ, utf16le_bytes [0x25, 0]) else None)\<rparr>
      else None)"

definition sample_registry :: win_registry where
  "sample_registry = \<lparr>wr_store = sample_store, wr_open = (\<lambda>_. None)\<rparr>"

theorem registry_write_read_witness:
  "\<exists>w1 w2. write_string (win32_registry memory_registry 9) [0x4B] [0x56] [0x43, 0x44] sample_registry = (Inr (), w1) \<and>
     read_string (win32_registry memory_registry 9) [0x4B] [0x56] w1 = (Inr (Some [0x43, 0x44]), w2) \<and>
     wr_store w2 = wr_store w1"
proof -
  let ?r = "win32_registry memory_registry 9"
  let ?k = "[0x4B] :: wstr" and ?v = "[0x56] :: wstr" and ?d = "[0x43, 0x44] :: wstr"
  obtain w1 where w: "write_string ?r ?k ?v ?d sample_registry = (Inr (), w1)" and w1: "w1 = snd (write_string ?r ?k ?v ?d sample_registry)"
  proof -
    have "fst (write_string ?r ?k ?v ?d sample_registry) = Inr ()" by code_simp
    with that show thesis by (metis prod.collapse)
  qed
  have "(case fst (read_string ?r ?k ?v (snd (write_string ?r ?k ?v ?d sample_registry))) of Inl _ \<Rightarrow> False | Inr _ \<Rightarrow> True)" by code_simp
  then obtain x w2 where r: "read_string ?r ?k ?v w1 = (Inr x, w2)"
    unfolding w1 by (metis (no_types, lifting) obj_sumE old.sum.simps(5) prod.collapse)
  from registry_write_read[OF memory_registry.win32_registry_contract_axioms w r] w r show ?thesis by simp
qed

theorem registry_subkeys_returns_witness:
  "\<exists>w'. registry_subkeys memory_registry 9 [0x4B] sample_registry = Some (Inr [[0x41], [0x42]], w') \<and>
     wr_store w' = wr_store sample_registry"
proof -
  obtain r w' where r: "registry_subkeys memory_registry 9 [0x4B] sample_registry = Some (r, w')"
    "wr_store w' = wr_store sample_registry"
    "\<forall>found. r = Inr found \<longrightarrow> map_option node_keys (wr_store sample_registry (c_str [0x4B])) = Some found"
    using registry_subkeys_returns[OF memory_registry.win32_registry_contract_axioms, of 9 "[0x4B]" sample_registry] by blast
  have "(case registry_subkeys memory_registry 9 [0x4B] sample_registry of Some (Inr _, _) \<Rightarrow> True | _ \<Rightarrow> False)"
    by code_simp
  with r(1) obtain found where f: "r = Inr found" by (auto split: sum.splits)
  with r(3) have "found = [[0x41], [0x42]]" by (simp add: sample_registry_def sample_store_def c_str_def)
  with r f show ?thesis by simp
qed
end
