(* ===== verification/Win32_Filesystem.thy ===== *)
theory Win32_Filesystem
  imports Win32 Contracts Orphans
begin

text \<open>
  The filesystem queries through the Win32 table (\<open>src/src/lib/platform/filesystem.cpp\<close>): existence,
  sizes, the volume, listings, locks, text files and directories. \<open>narrow\<close> is \<open>path::string\<close>;
  \<open>std::towlower\<close>, in the C locale the program runs in, is \<open>lower_unit\<close>. Copying is in theory \<open>Win32_Copy\<close>, which also assembles the class.
  The listing and the reading of a text file end when the table says so: partial functions.
\<close>

section \<open>Constants\<close>

definition FILE_ATTRIBUTE_DIRECTORY :: dword where "FILE_ATTRIBUTE_DIRECTORY = 0x10"
definition FILE_ATTRIBUTE_SPARSE_FILE :: dword where "FILE_ATTRIBUTE_SPARSE_FILE = 0x200"
definition GENERIC_READ :: dword where "GENERIC_READ = 0x80000000"
definition GENERIC_WRITE :: dword where "GENERIC_WRITE = 0x40000000"
definition FILE_SHARE_READ :: dword where "FILE_SHARE_READ = 1"
definition FILE_SHARE_ALL :: dword where "FILE_SHARE_ALL = 7"
definition CREATE_NEW :: dword where "CREATE_NEW = 1"
definition CREATE_ALWAYS :: dword where "CREATE_ALWAYS = 2"
definition OPEN_EXISTING :: dword where "OPEN_EXISTING = 3"

text \<open>\<open>MAX_PATH + 1\<close>, the room in the buffers for volume names.\<close>

definition volume_name_room :: nat where
  "volume_name_room = 261"

section \<open>One call each\<close>

definition combine :: "dword \<Rightarrow> dword \<Rightarrow> u64" where
  "combine high low = or (push_bit 32 (ucast high)) (ucast low)"

definition fs_exists :: "'w win32 \<Rightarrow> path \<Rightarrow> 'w \<Rightarrow> bool \<times> 'w" where
  "fs_exists api p w =
     (case get_file_attributes api (c_str p) w of
        (attributes, w1) \<Rightarrow>
          if attributes \<noteq> INVALID_FILE_ATTRIBUTES then (True, w1)
          else
            (case get_last_error api w1 of
               (code, w2) \<Rightarrow>
                 (code \<notin> {ERROR_FILE_NOT_FOUND, ERROR_PATH_NOT_FOUND, ERROR_INVALID_NAME,
                    ERROR_BAD_NETPATH, ERROR_BAD_NET_NAME}, w2)))"

definition fs_file_size :: "'w win32 \<Rightarrow> (path \<Rightarrow> string) \<Rightarrow> path \<Rightarrow> 'w \<Rightarrow> (error + u64) \<times> 'w" where
  "fs_file_size api narrow p w =
     (case get_file_attributes_ex api (c_str p) w of
        ((ok, high, low), w1) \<Rightarrow>
          if \<not> ok then last_error api (''read the size of '' @ narrow p) w1
          else (Inr (combine high low), w1))"

definition fs_file_size_on_disk :: "'w win32 \<Rightarrow> (path \<Rightarrow> string) \<Rightarrow> path \<Rightarrow> 'w \<Rightarrow> (error + u64) \<times> 'w" where
  "fs_file_size_on_disk api narrow p w =
     (case get_compressed_file_size api (c_str p) w of
        ((low, high), w1) \<Rightarrow>
          if low = INVALID_FILE_SIZE then
            (case get_last_error api w1 of
               (code, w2) \<Rightarrow>
                 if code \<noteq> ERROR_SUCCESS
                 then (Inl (error_from_win32 code (''read the on-disk size of '' @ narrow p)), w2)
                 else (Inr (combine high low), w2))
          else (Inr (combine high low), w1))"

definition fs_is_sparse :: "'w win32 \<Rightarrow> (path \<Rightarrow> string) \<Rightarrow> path \<Rightarrow> 'w \<Rightarrow> (error + bool) \<times> 'w" where
  "fs_is_sparse api narrow p w =
     (case get_file_attributes api (c_str p) w of
        (attributes, w1) \<Rightarrow>
          if attributes = INVALID_FILE_ATTRIBUTES then last_error api (''read the attributes of '' @ narrow p) w1
          else (Inr (and attributes FILE_ATTRIBUTE_SPARSE_FILE \<noteq> 0), w1))"

text \<open>\<open>root_of\<close>, which \<open>volume_info\<close> repeats.\<close>

definition volume_root :: "'w win32 \<Rightarrow> (path \<Rightarrow> string) \<Rightarrow> path \<Rightarrow> 'w \<Rightarrow> (error + wstr) \<times> 'w" where
  "volume_root api narrow p w =
     (case get_volume_path_name api (c_str p) volume_name_room w of
        ((ok, root), w1) \<Rightarrow>
          if \<not> ok then last_error api (''resolve the volume holding '' @ narrow p) w1
          else (Inr (c_str root), w1))"

definition fs_volume_info :: "'w win32 \<Rightarrow> (path \<Rightarrow> string) \<Rightarrow> path \<Rightarrow> 'w \<Rightarrow> (error + volume_info) \<times> 'w" where
  "fs_volume_info api narrow p =
     attempt (volume_root api narrow p) (\<lambda>root w1.
       case get_disk_free_space_ex api root w1 of
         ((ok, free, bytes), w2) \<Rightarrow>
           if \<not> ok then last_error api (''read free space on '' @ ascii_narrow root) w2
           else
             (case get_volume_information api root volume_name_room w2 of
                ((named, name), w3) \<Rightarrow>
                  if \<not> named then last_error api (''read volume information for '' @ ascii_narrow root) w3
                  else
                    (Inr \<lparr>filesystem_name = ascii_narrow (c_str name), total_bytes = bytes, free_bytes = free\<rparr>, w3)))"

definition fs_is_locked :: "'w win32 \<Rightarrow> (path \<Rightarrow> string) \<Rightarrow> path \<Rightarrow> 'w \<Rightarrow> (error + bool) \<times> 'w" where
  "fs_is_locked api narrow p w =
     (case create_file api (c_str p) GENERIC_READ 0 OPEN_EXISTING w of
        (h, w1) \<Rightarrow>
          if h \<noteq> invalid_handle_value then (Inr False, close_scoped api h w1)
          else
            (case get_last_error api w1 of
               (code, w2) \<Rightarrow>
                 if code = ERROR_SHARING_VIOLATION \<or> code = ERROR_LOCK_VIOLATION then (Inr True, w2)
                 else (Inl (error_from_win32 code (''check whether '' @ narrow p @ '' is in use'')), w2)))"

definition fs_rename :: "'w win32 \<Rightarrow> (path \<Rightarrow> string) \<Rightarrow> path \<Rightarrow> path \<Rightarrow> 'w \<Rightarrow> status \<times> 'w" where
  "fs_rename api narrow p q w =
     (case move_file_ex api (c_str p) (c_str q) 0 w of
        (ok, w1) \<Rightarrow> if \<not> ok then last_error api (''rename '' @ narrow p @ '' to '' @ narrow q) w1 else (Inr (), w1))"

definition fs_same_volume ::
  "'w win32 \<Rightarrow> (path \<Rightarrow> string) \<Rightarrow> path \<Rightarrow> path \<Rightarrow> 'w \<Rightarrow> (error + bool) \<times> 'w" where
  "fs_same_volume api narrow p q =
     attempt (volume_root api narrow p) (\<lambda>first.
       attempt (volume_root api narrow q) (\<lambda>second.
         ret (Inr (map lower_unit first = map lower_unit second))))"

definition fs_remove :: "'w win32 \<Rightarrow> (path \<Rightarrow> string) \<Rightarrow> path \<Rightarrow> 'w \<Rightarrow> status \<times> 'w" where
  "fs_remove api narrow p w =
     (case delete_file api (c_str p) w of
        (ok, w1) \<Rightarrow> if \<not> ok then last_error api (''delete '' @ narrow p) w1 else (Inr (), w1))"

text \<open>The buffer of the second call has the room the first asked for, and is then cut, or padded, to
  what the second reports.\<close>

definition fs_expand_environment :: "'w win32 \<Rightarrow> (path \<Rightarrow> string) \<Rightarrow> path \<Rightarrow> 'w \<Rightarrow> (error + path) \<times> 'w" where
  "fs_expand_environment api narrow p w =
     (case expand_environment_strings api (c_str p) None w of
        ((needed, _), w1) \<Rightarrow>
          if needed = 0 then last_error api (''expand '' @ narrow p) w1
          else
            (case expand_environment_strings api (c_str p) (Some needed) w1 of
               ((written, content), w2) \<Rightarrow>
                 if written = 0 then last_error api (''expand '' @ narrow p) w2
                 else
                   (let room = unat needed; buffer = take room (content @ replicate room 0);
                        kept = unat (written - 1)
                    in (Inr (take kept (buffer @ replicate kept 0)), w2))))"

section \<open>Listing a directory\<close>

definition close_find :: "'w win32 \<Rightarrow> handle \<Rightarrow> 'w \<Rightarrow> 'w" where
  "close_find api h w = (if h \<noteq> invalid_handle_value then snd (find_close api h w) else w)"

definition is_directory_entry :: "find_data \<Rightarrow> bool" where
  "is_directory_entry found \<longleftrightarrow> and (fd_attributes found) FILE_ATTRIBUTE_DIRECTORY \<noteq> 0"

definition listed :: "path \<Rightarrow> find_data \<Rightarrow> directory_entry list" where
  "listed dir found =
     (let name = c_str (fd_name found) in
      if name \<noteq> [dot] \<and> name \<noteq> [dot, dot] then
        [\<lparr>entry_path = append_path dir name,
          entry_size = (if is_directory_entry found then 0 else combine (fd_size_high found) (fd_size_low found)),
          entry_is_directory = is_directory_entry found\<rparr>]
      else [])"

partial_function (option) list_from ::
  "'w win32 \<Rightarrow> path \<Rightarrow> handle \<Rightarrow> find_data \<Rightarrow> directory_entry list \<Rightarrow> 'w \<Rightarrow> (directory_entry list \<times> 'w) option" where
  "list_from api dir search found entries w =
     (case find_next_file api search w of
        ((another, found'), w') \<Rightarrow>
          if another then list_from api dir search found' (entries @ listed dir found) w'
          else Some (entries @ listed dir found, w'))"

declare list_from.simps [code]

definition fs_list_directory ::
  "'w win32 \<Rightarrow> (path \<Rightarrow> string) \<Rightarrow> path \<Rightarrow> wstr \<Rightarrow> 'w \<Rightarrow> ((error + directory_entry list) \<times> 'w) option" where
  "fs_list_directory api narrow dir pat w =
     (case find_first_file_ex api (c_str (append_path dir pat)) w of
        ((search, found), w1) \<Rightarrow>
          if search = invalid_handle_value then
            (case get_last_error api w1 of
               (code, w2) \<Rightarrow>
                 if code = ERROR_FILE_NOT_FOUND \<or> code = ERROR_NO_MORE_FILES then Some (Inr [], w2)
                 else Some (Inl (error_from_win32 code (''list '' @ narrow dir)), w2))
          else
            map_option (\<lambda>(entries, w2).
              case get_last_error api w2 of
                (code, w3) \<Rightarrow>
                  (if code \<noteq> ERROR_NO_MORE_FILES then Inl (error_from_win32 code (''finish listing '' @ narrow dir))
                   else Inr entries,
                   close_find api search w3))
              (list_from api dir search found [] w1))"

section \<open>Text files\<close>

definition text_chunk :: nat where
  "text_chunk = 4096"

partial_function (option) read_text_from ::
  "'w win32 \<Rightarrow> string \<Rightarrow> handle \<Rightarrow> string \<Rightarrow> 'w \<Rightarrow> ((error + string) \<times> 'w) option" where
  "read_text_from api doing h contents w =
     (case read_file api h text_chunk w of
        ((ok, bytes), w') \<Rightarrow>
          if \<not> ok then Some (last_error api doing w')
          else if bytes = [] then Some (Inr contents, w')
          else read_text_from api doing h (contents @ bytes) w')"

declare read_text_from.simps [code]

definition fs_read_text_file ::
  "'w win32 \<Rightarrow> (path \<Rightarrow> string) \<Rightarrow> path \<Rightarrow> 'w \<Rightarrow> ((error + string) \<times> 'w) option" where
  "fs_read_text_file api narrow p w =
     (case create_file api (c_str p) GENERIC_READ FILE_SHARE_READ OPEN_EXISTING w of
        (h, w1) \<Rightarrow>
          if h = invalid_handle_value then Some (last_error api (''open '' @ narrow p) w1)
          else
            map_option (\<lambda>(r, w2). (r, close_scoped api h w2))
              (read_text_from api (''read '' @ narrow p) h [] w1))"

text \<open>The count handed to the call is a \<open>DWORD\<close>; the count compared with the answer is not.\<close>

definition fs_write_text_file ::
  "'w win32 \<Rightarrow> (path \<Rightarrow> string) \<Rightarrow> path \<Rightarrow> string \<Rightarrow> 'w \<Rightarrow> status \<times> 'w" where
  "fs_write_text_file api narrow p contents w =
     (case create_file api (c_str p) GENERIC_WRITE 0 CREATE_ALWAYS w of
        (h, w1) \<Rightarrow>
          if h = invalid_handle_value then last_error api (''create '' @ narrow p) w1
          else
            closing api h (\<lambda>w1.
              case write_file api h (take (unat (of_nat (length contents) :: dword)) contents) w1 of
                ((ok, written), w2) \<Rightarrow>
                  if \<not> ok then last_error api (''write '' @ narrow p) w2
                  else if unat written \<noteq> length contents then
                    (fail Partial (narrow p @ '' was only partly written'')
                       ''check there is free space on the volume and try again'', w2)
                  else (Inr (), w2)) w1)"

section \<open>Directories\<close>

text \<open>The path and its parents, the deepest first, without the root.\<close>

lemma length_parent_path: "relative_part p \<noteq> [] \<Longrightarrow> length (parent_path p) < length p"
proof -
  assume r: "relative_part p \<noteq> []"
  have shorter: "length (dropWhile is_slash (dropWhile (\<lambda>c. \<not> is_slash c) (x # xs))) < length (x # xs)" for x xs
    by (cases "is_slash x") (auto simp: le_imp_less_Suc[OF order_trans[OF length_dropWhile_le length_dropWhile_le]]
        le_imp_less_Suc[OF length_dropWhile_le])
  obtain x xs where "rev (relative_part p) = x # xs" using r by (cases "rev (relative_part p)") auto
  with shorter[of x xs] have
    "length (dropWhile is_slash (dropWhile (\<lambda>c. \<not> is_slash c) (rev (relative_part p)))) < length (relative_part p)"
    by (metis length_rev)
  moreover have "length p = length (root_path p) + length (relative_part p)"
    by (simp add: root_path_def relative_part_def flip: length_append)
  ultimately show ?thesis by (simp add: parent_path_def)
qed

function directory_levels :: "path \<Rightarrow> path list" where
  "directory_levels level =
     (if level = [] \<or> relative_part level = [] then []
      else if parent_path level = [] then [level]
      else level # directory_levels (parent_path level))"
  by pat_completeness auto
termination
  by (relation "measure length") (auto simp: length_parent_path)

declare directory_levels.simps [simp del]

fun create_levels :: "'w win32 \<Rightarrow> (path \<Rightarrow> string) \<Rightarrow> path list \<Rightarrow> 'w \<Rightarrow> status \<times> 'w" where
  "create_levels api narrow [] w = (Inr (), w)"
| "create_levels api narrow (level # rest) w =
     (case create_directory api (c_str level) w of
        (ok, w1) \<Rightarrow>
          if ok then create_levels api narrow rest w1
          else
            (case get_last_error api w1 of
               (code, w2) \<Rightarrow>
                 if code \<noteq> ERROR_ALREADY_EXISTS then (Inl (error_from_win32 code (''create '' @ narrow level)), w2)
                 else create_levels api narrow rest w2))"

definition fs_create_directories :: "'w win32 \<Rightarrow> (path \<Rightarrow> string) \<Rightarrow> path \<Rightarrow> 'w \<Rightarrow> status \<times> 'w" where
  "fs_create_directories api narrow p = create_levels api narrow (rev (directory_levels p))"

end
