(* ===== verification/Win32_Copy.thy ===== *)
theory Win32_Copy
  imports Win32_Filesystem
begin

text \<open>
  Copying a sparse file (\<open>src/src/lib/platform/filesystem.cpp\<close>): the allocated ranges of the source,
  asked for 64 at a time, are copied chunk by chunk into a new sparse file of the same length. Both
  loops end when the table lets them; they are partial functions.
\<close>

section \<open>The allocated ranges\<close>

definition ranges_room :: nat where
  "ranges_room = 64"

definition as_range :: "u64 \<times> u64 \<Rightarrow> allocated_range" where
  "as_range entry = \<lparr>range_offset = fst entry, range_length = snd entry\<rparr>"

partial_function (option) ranges_from ::
  "'w win32 \<Rightarrow> string \<Rightarrow> handle \<Rightarrow> u64 \<Rightarrow> u64 \<Rightarrow> allocated_range list \<Rightarrow> 'w \<Rightarrow>
     ((error + allocated_range list) \<times> 'w) option" where
  "ranges_from api doing h len offset ranges w =
     (if \<not> offset < len then Some (Inr ranges, w)
      else
        (case query_allocated_ranges api h offset (len - offset) ranges_room w of
           ((complete, answered), w1) \<Rightarrow>
             (case (if complete then (ERROR_SUCCESS, w1) else get_last_error api w1) of
                (code, w2) \<Rightarrow>
                  if \<not> complete \<and> code \<noteq> ERROR_MORE_DATA then Some (Inl (error_from_win32 code doing), w2)
                  else if code \<noteq> ERROR_MORE_DATA \<or> answered = [] then
                    Some (Inr (ranges @ map as_range answered), w2)
                  else
                    ranges_from api doing h len (fst (last answered) + snd (last answered))
                      (ranges @ map as_range answered) w2)))"

declare ranges_from.simps [code]

definition fs_allocated_ranges ::
  "'w win32 \<Rightarrow> (path \<Rightarrow> string) \<Rightarrow> path \<Rightarrow> 'w \<Rightarrow> ((error + allocated_range list) \<times> 'w) option" where
  "fs_allocated_ranges api narrow p =
     attempt_wait (at_once (fs_file_size api narrow p)) (\<lambda>len w.
       if len = 0 then Some (Inr [], w)
       else
         (case create_file api (c_str p) GENERIC_READ FILE_SHARE_ALL OPEN_EXISTING w of
            (h, w1) \<Rightarrow>
              if h = invalid_handle_value then Some (last_error api (''open '' @ narrow p) w1)
              else
                map_option (\<lambda>(r, w2). (r, close_scoped api h w2))
                  (ranges_from api (''read the allocated ranges of '' @ narrow p) h len 0 [] w1)))"

section \<open>Copying\<close>

definition copy_chunk_bytes :: u64 where
  "copy_chunk_bytes = 1024 * 1024"

record copy_job =
  job_source :: handle
  job_destination :: handle
  job_from :: path
  job_to :: path
  job_total :: u64
  job_copied :: u64

definition seek :: "'w win32 \<Rightarrow> (path \<Rightarrow> string) \<Rightarrow> handle \<Rightarrow> u64 \<Rightarrow> path \<Rightarrow> 'w \<Rightarrow> status \<times> 'w" where
  "seek api narrow h offset p w =
     (case set_file_pointer_ex api h offset w of
        (ok, w1) \<Rightarrow>
          if \<not> ok then last_error api (''seek in '' @ narrow p @ '' to '' @ show_word offset) w1 else (Inr (), w1))"

definition resize :: "'w win32 \<Rightarrow> (path \<Rightarrow> string) \<Rightarrow> handle \<Rightarrow> u64 \<Rightarrow> path \<Rightarrow> 'w \<Rightarrow> status \<times> 'w" where
  "resize api narrow h len p =
     attempt (seek api narrow h len p) (\<lambda>_ w.
       case set_end_of_file api h w of
         (ok, w1) \<Rightarrow>
           if \<not> ok then last_error api (''set the length of '' @ narrow p @ '' to '' @ show_word len) w1
           else (Inr (), w1))"

text \<open>Reading a chunk and writing it: the body of the loop up to the progress call, with the number of
  bytes moved as its value.\<close>

definition copy_chunk ::
  "'w win32 \<Rightarrow> (path \<Rightarrow> string) \<Rightarrow> copy_job \<Rightarrow> u64 \<Rightarrow> u64 \<Rightarrow> 'w \<Rightarrow> (error + nat) \<times> 'w" where
  "copy_chunk api narrow job end_offset offset =
     attempt (seek api narrow (job_source job) offset (job_from job)) (\<lambda>_.
     attempt (seek api narrow (job_destination job) offset (job_to job)) (\<lambda>_ w.
       case read_file api (job_source job) (unat (min (end_offset - offset) copy_chunk_bytes)) w of
         ((ok, bytes), w1) \<Rightarrow>
           if \<not> ok then last_error api (''read '' @ narrow (job_from job)) w1
           else if bytes = [] then
             (fail Generic (narrow (job_from job) @ '' ended earlier than expected'')
                ''something else is writing to the file; stop it and try again'', w1)
           else
             (case write_file api (job_destination job) bytes w1 of
                ((wrote, written), w2) \<Rightarrow>
                  if \<not> wrote then last_error api (''write '' @ narrow (job_to job)) w2
                  else if unat written \<noteq> length bytes then
                    (fail Generic (narrow (job_to job) @ '' accepted only part of a write'')
                       ''the volume may be full; check the free space and try again'', w2)
                  else (Inr (length bytes), w2))))"

definition cancelled_copy :: "(path \<Rightarrow> string) \<Rightarrow> copy_job \<Rightarrow> error + 'a" where
  "cancelled_copy narrow job =
     fail Partial (''copying '' @ narrow (job_from job) @ '' was cancelled'')
       (narrow (job_to job) @ '' is a partial copy and can be deleted'')"

text \<open>The loop returns the job with its count, the calls it made of \<open>progress\<close> and its status.\<close>

partial_function (option) copy_chunks ::
  "'w win32 \<Rightarrow> (path \<Rightarrow> string) \<Rightarrow> (u64 \<Rightarrow> u64 \<Rightarrow> bool) \<Rightarrow> u64 \<Rightarrow> u64 \<Rightarrow> copy_job \<Rightarrow> (u64 \<times> u64) list \<Rightarrow> 'w \<Rightarrow>
     ((status \<times> copy_job \<times> (u64 \<times> u64) list) \<times> 'w) option" where
  "copy_chunks api narrow progress end_offset offset job calls w =
     (if \<not> offset < end_offset then Some ((Inr (), job, calls), w)
      else
        (case copy_chunk api narrow job end_offset offset w of
           (Inl e, w1) \<Rightarrow> Some ((Inl e, job, calls), w1)
         | (Inr moved, w1) \<Rightarrow>
             (let copied = job_copied job + of_nat moved;
                  job' = job\<lparr>job_copied := copied\<rparr>;
                  calls' = calls @ [(copied, job_total job)]
              in if \<not> progress copied (job_total job) then Some ((cancelled_copy narrow job, job', calls'), w1)
                 else copy_chunks api narrow progress end_offset (offset + of_nat moved) job' calls' w1)))"

declare copy_chunks.simps [code]

definition copy_range ::
  "'w win32 \<Rightarrow> (path \<Rightarrow> string) \<Rightarrow> (u64 \<Rightarrow> u64 \<Rightarrow> bool) \<Rightarrow> allocated_range \<Rightarrow> copy_job \<Rightarrow> (u64 \<times> u64) list \<Rightarrow> 'w \<Rightarrow>
     ((status \<times> copy_job \<times> (u64 \<times> u64) list) \<times> 'w) option" where
  "copy_range api narrow progress rg =
     copy_chunks api narrow progress (range_offset rg + range_length rg) (range_offset rg)"

fun copy_ranges ::
  "'w win32 \<Rightarrow> (path \<Rightarrow> string) \<Rightarrow> (u64 \<Rightarrow> u64 \<Rightarrow> bool) \<Rightarrow> allocated_range list \<Rightarrow> copy_job \<Rightarrow> (u64 \<times> u64) list \<Rightarrow> 'w \<Rightarrow>
     ((status \<times> (u64 \<times> u64) list) \<times> 'w) option" where
  "copy_ranges api narrow progress [] job calls w = Some ((Inr (), calls), w)"
| "copy_ranges api narrow progress (rg # rest) job calls w =
     (case copy_range api narrow progress rg job calls w of
        None \<Rightarrow> None
      | Some ((Inl e, job', calls'), w1) \<Rightarrow> Some ((Inl e, calls'), w1)
      | Some ((Inr _, job', calls'), w1) \<Rightarrow> copy_ranges api narrow progress rest job' calls' w1)"

definition ranges_total :: "allocated_range list \<Rightarrow> u64" where
  "ranges_total ranges = foldl (\<lambda>acc rg. acc + range_length rg) 0 ranges"

text \<open>With both files open: the new one is made sparse and given its length before anything is written.\<close>

definition copy_opened ::
  "'w win32 \<Rightarrow> (path \<Rightarrow> string) \<Rightarrow> (u64 \<Rightarrow> u64 \<Rightarrow> bool) \<Rightarrow> allocated_range list \<Rightarrow> u64 \<Rightarrow> copy_job \<Rightarrow> 'w \<Rightarrow>
     ((status \<times> (u64 \<times> u64) list) \<times> 'w) option" where
  "copy_opened api narrow progress ranges len job w =
     (case set_sparse api (job_destination job) w of
        (ok, w1) \<Rightarrow>
          if \<not> ok then
            (case last_error api (''make '' @ narrow (job_to job) @ '' a sparse file'') w1 of (r, w2) \<Rightarrow> Some ((r, []), w2))
          else
            (case resize api narrow (job_destination job) len (job_to job) w1 of
               (Inl e, w2) \<Rightarrow> Some ((Inl e, []), w2)
             | (Inr _, w2) \<Rightarrow> copy_ranges api narrow progress ranges job [] w2))"

definition copy_between ::
  "'w win32 \<Rightarrow> (path \<Rightarrow> string) \<Rightarrow> path \<Rightarrow> path \<Rightarrow> (u64 \<Rightarrow> u64 \<Rightarrow> bool) \<Rightarrow> allocated_range list \<Rightarrow> u64 \<Rightarrow> 'w \<Rightarrow>
     ((status \<times> (u64 \<times> u64) list) \<times> 'w) option" where
  "copy_between api narrow from_path to_path progress ranges len w =
     (case create_file api (c_str from_path) GENERIC_READ FILE_SHARE_READ OPEN_EXISTING w of
        (source, w1) \<Rightarrow>
          if source = invalid_handle_value then
            (case last_error api (''open '' @ narrow from_path) w1 of (r, w2) \<Rightarrow> Some ((r, []), w2))
          else
            (case create_file api (c_str to_path) (or GENERIC_READ GENERIC_WRITE) 0 CREATE_NEW w1 of
               (destination, w2) \<Rightarrow>
                 if destination = invalid_handle_value then
                   (case last_error api (''create '' @ narrow to_path) w2 of
                      (r, w3) \<Rightarrow> Some ((r, []), close_scoped api source w3))
                 else
                   map_option (\<lambda>(r, w3). (r, close_scoped api source (close_scoped api destination w3)))
                     (copy_opened api narrow progress ranges len
                        \<lparr>job_source = source, job_destination = destination, job_from = from_path,
                         job_to = to_path, job_total = ranges_total ranges, job_copied = 0\<rparr> w2)))"

definition fs_copy_file_sparse ::
  "'w win32 \<Rightarrow> (path \<Rightarrow> string) \<Rightarrow> path \<Rightarrow> path \<Rightarrow> (u64 \<Rightarrow> u64 \<Rightarrow> bool) \<Rightarrow> 'w \<Rightarrow>
     ((status \<times> (u64 \<times> u64) list) \<times> 'w) option" where
  "fs_copy_file_sparse api narrow from_path to_path progress w =
     (case fs_allocated_ranges api narrow from_path w of
        None \<Rightarrow> None
      | Some (Inl e, w1) \<Rightarrow> Some ((Inl e, []), w1)
      | Some (Inr ranges, w1) \<Rightarrow>
          (case fs_file_size api narrow from_path w1 of
             (Inl e, w2) \<Rightarrow> Some ((Inl e, []), w2)
           | (Inr len, w2) \<Rightarrow> copy_between api narrow from_path to_path progress ranges len w2))"

section \<open>The class\<close>

text \<open>\<open>Win32FileSystem\<close>; where a loop does not return there is no result to speak of.\<close>

definition win32_filesystem :: "'w win32 \<Rightarrow> (path \<Rightarrow> string) \<Rightarrow> 'w IFileSystem" where
  "win32_filesystem api narrow =
     \<lparr>exists_path = fs_exists api,
      file_size = fs_file_size api narrow,
      file_size_on_disk = fs_file_size_on_disk api narrow,
      is_sparse = fs_is_sparse api narrow,
      get_volume_info = fs_volume_info api narrow,
      list_directory = (\<lambda>dir pat w. the (fs_list_directory api narrow dir pat w)),
      allocated_ranges = (\<lambda>p w. the (fs_allocated_ranges api narrow p w)),
      is_locked = fs_is_locked api narrow,
      remove_file = fs_remove api narrow,
      copy_file_sparse = (\<lambda>p q progress w. the (fs_copy_file_sparse api narrow p q progress w)),
      rename_file = fs_rename api narrow,
      same_volume = fs_same_volume api narrow,
      expand_environment = fs_expand_environment api narrow,
      read_text_file = (\<lambda>p w. the (fs_read_text_file api narrow p w)),
      write_text_file = fs_write_text_file api narrow,
      create_directories = fs_create_directories api narrow\<rparr>"

end
