(* ===== verification/Win32_Files.thy ===== *)
theory Win32_Files
  imports Win32_Copy
begin

text \<open>
  What the file calls of the Win32 table are documented to do, as a contract over the bytes of every
  file and the position of every handle, and what the code makes of it: the ranges cover the data, a
  copy is the original byte for byte, and the class \<open>Win32FileSystem\<close> keeps the contract of
  theory \<open>Contracts\<close> that the operations are proved against. A table in memory provides it.
\<close>

section \<open>Files as documented\<close>

text \<open>Writing bytes at a position, and giving a file a length; what was never written reads as zeros.\<close>

definition put_bytes :: "nat \<Rightarrow> string \<Rightarrow> string \<Rightarrow> string" where
  "put_bytes n bytes s = take n (s @ replicate (n - length s) (CHR 0x00)) @ bytes @ drop (n + length bytes) s"

definition with_length :: "nat \<Rightarrow> string \<Rightarrow> string" where
  "with_length n s = take n (s @ replicate n (CHR 0x00))"

text \<open>Every byte of \<open>s\<close> from \<open>n\<close> to \<open>m\<close> that is not zero lies in a range.\<close>

definition ranges_cover :: "(u64 \<times> u64) set \<Rightarrow> string \<Rightarrow> nat \<Rightarrow> nat \<Rightarrow> bool" where
  "ranges_cover ranges s n m \<longleftrightarrow>
     (\<forall>i. n \<le> i \<longrightarrow> i < m \<longrightarrow> i < length s \<longrightarrow> s ! i \<noteq> CHR 0x00 \<longrightarrow>
        (\<exists>(start, len) \<in> ranges. unat start \<le> i \<and> i < unat start + unat len))"

definition ranges_within :: "(u64 \<times> u64) set \<Rightarrow> nat \<Rightarrow> nat \<Rightarrow> bool" where
  "ranges_within ranges n m \<longleftrightarrow>
     (\<forall>(start, len) \<in> ranges. n \<le> unat start \<and> unat start + unat len \<le> m \<and> 0 < len)"

lemma length_put_bytes: "n + length bytes \<le> length t \<Longrightarrow> length (put_bytes n bytes t) = length t"
  by (simp add: put_bytes_def)

lemma nth_put_bytes:
  "n + length bytes \<le> length t \<Longrightarrow> i < length t \<Longrightarrow>
   put_bytes n bytes t ! i = (if n \<le> i \<and> i < n + length bytes then bytes ! (i - n) else t ! i)"
  by (auto simp: put_bytes_def nth_append min_def)

text \<open>\<open>t\<close> is \<open>s\<close> on the positions of \<open>A\<close> and zeros elsewhere.\<close>

definition copied_on :: "nat set \<Rightarrow> string \<Rightarrow> string \<Rightarrow> bool" where
  "copied_on A s t \<longleftrightarrow>
     length t = length s \<and> (\<forall>i < length s. t ! i = (if i \<in> A then s ! i else CHR 0x00))"

lemma copied_on_chunk:
  assumes "copied_on A s t" and "bytes = take (length bytes) (drop n s)" and "n + length bytes \<le> length s"
  shows "copied_on (A \<union> {n ..< n + length bytes}) s (put_bytes n bytes t)"
proof -
  have "bytes ! (i - n) = s ! i" if "n \<le> i" "i < n + length bytes" for i
  proof -
    have "bytes ! (i - n) = take (length bytes) (drop n s) ! (i - n)" using assms(2) by simp
    also have "\<dots> = s ! i" using that assms(3) by simp
    finally show ?thesis .
  qed
  with assms show ?thesis by (auto simp: copied_on_def length_put_bytes nth_put_bytes)
qed

text \<open>\<open>content\<close> is the bytes of each file and \<open>at\<close> the file and position of each handle. The laws are
  those of a machine on which no other program changes files meanwhile.\<close>

locale win32_file_contract =
  fixes api :: "'w win32"
    and content :: "'w \<Rightarrow> 'k \<Rightarrow> string option"
    and at :: "'w \<Rightarrow> handle \<Rightarrow> ('k \<times> nat) option"
    and key :: "wstr \<Rightarrow> 'k"
  assumes error_reads: "get_last_error api w = (code, w') \<Longrightarrow> content w' = content w \<and> at w' = at w"
    and attributes_read: "get_file_attributes api p w = (code, w') \<Longrightarrow> content w' = content w"
    and attributes_absent:
      "get_file_attributes api p w = (INVALID_FILE_ATTRIBUTES, w1) \<Longrightarrow> get_last_error api w1 = (code, w2) \<Longrightarrow>
       code \<in> {ERROR_FILE_NOT_FOUND, ERROR_PATH_NOT_FOUND, ERROR_INVALID_NAME, ERROR_BAD_NETPATH,
         ERROR_BAD_NET_NAME} \<Longrightarrow> content w (key p) = None"
    and attributes_ex_read:
      "get_file_attributes_ex api p w = ((ok, high, low), w') \<Longrightarrow> content w' = content w \<and> at w' = at w"
    and attributes_ex_size:
      "get_file_attributes_ex api p w = ((True, high, low), w') \<Longrightarrow>
       \<exists>s. content w (key p) = Some s \<and> length s = unat (combine high low)"
    and compressed_reads: "get_compressed_file_size api p w = (halves, w') \<Longrightarrow> content w' = content w"
    and volume_path_reads: "get_volume_path_name api p room w = (root, w') \<Longrightarrow> content w' = content w"
    and free_space_reads: "get_disk_free_space_ex api p w = (space, w') \<Longrightarrow> content w' = content w"
    and volume_reads: "get_volume_information api p room w = (root, w') \<Longrightarrow> content w' = content w"
    and open_ok:
      "create_file api p access share OPEN_EXISTING w = (h, w') \<Longrightarrow> h \<noteq> invalid_handle_value \<Longrightarrow>
       content w (key p) \<noteq> None \<and> content w' = content w \<and> at w h = None \<and> at w' = (at w)(h \<mapsto> (key p, 0))"
    and create_ok:
      "create_file api p access share CREATE_NEW w = (h, w') \<Longrightarrow> h \<noteq> invalid_handle_value \<Longrightarrow>
       content w (key p) = None \<and> content w' = (content w)(key p \<mapsto> []) \<and> at w h = None \<and>
       at w' = (at w)(h \<mapsto> (key p, 0))"
    and create_fails:
      "create_file api p access share how w = (invalid_handle_value, w') \<Longrightarrow> how \<noteq> CREATE_ALWAYS \<Longrightarrow>
       content w' = content w \<and> at w' = at w"
    and close_reads:
      "close_handle api h w = (ok, w') \<Longrightarrow> content w' = content w \<and> (\<forall>h'. h' \<noteq> h \<longrightarrow> at w' h' = at w h')"
    and query_reads:
      "query_allocated_ranges api h start len room w = (answer, w') \<Longrightarrow> content w' = content w \<and> at w' = at w"
    and query_complete:
      "query_allocated_ranges api h start len room w = ((True, found), w') \<Longrightarrow> at w h = Some (k, n) \<Longrightarrow>
       content w k = Some s \<Longrightarrow> unat start + unat len \<le> length s \<Longrightarrow>
       ranges_within (set found) (unat start) (unat start + unat len) \<and>
       ranges_cover (set found) s (unat start) (unat start + unat len)"
    and query_more:
      "query_allocated_ranges api h start len room w = ((False, found), w1) \<Longrightarrow>
       get_last_error api w1 = (ERROR_MORE_DATA, w2) \<Longrightarrow> at w h = Some (k, n) \<Longrightarrow>
       content w k = Some s \<Longrightarrow> unat start + unat len \<le> length s \<Longrightarrow>
       found \<noteq> [] \<and> ranges_within (set found) (unat start) (unat start + unat len) \<and>
       ranges_cover (set found) s (unat start) (unat (fst (last found)) + unat (snd (last found)))"
    and sparse_keeps: "set_sparse api h w = (ok, w') \<Longrightarrow> content w' = content w \<and> at w' = at w"
    and pointer_keeps:
      "set_file_pointer_ex api h pos w = (ok, w') \<Longrightarrow> at w h = Some (k, n) \<Longrightarrow>
       content w' = content w \<and> at w' = (at w)(h \<mapsto> (k, if ok then unat pos else n))"
    and end_of_file:
      "set_end_of_file api h w = (ok, w') \<Longrightarrow> at w h = Some (k, n) \<Longrightarrow> content w k = Some s \<Longrightarrow>
       at w' = at w \<and> (\<exists>t. content w' = (content w)(k \<mapsto> t) \<and> (ok \<longrightarrow> t = with_length n s))"
    and read_bytes:
      "read_file api h room w = ((ok, bytes), w') \<Longrightarrow> at w h = Some (k, n) \<Longrightarrow> content w k = Some s \<Longrightarrow>
       content w' = content w \<and> (\<exists>m. at w' = (at w)(h \<mapsto> (k, m))) \<and>
       (ok \<longrightarrow> length bytes \<le> room \<and> bytes = take (length bytes) (drop n s))"
    and write_bytes:
      "write_file api h bytes w = ((ok, written), w') \<Longrightarrow> at w h = Some (k, n) \<Longrightarrow> content w k = Some s \<Longrightarrow>
       (\<exists>m. at w' = (at w)(h \<mapsto> (k, m))) \<and>
       (\<exists>t. content w' = (content w)(k \<mapsto> t) \<and>
         (ok \<longrightarrow> unat written \<le> length bytes \<and> t = put_bytes n (take (unat written) bytes) s))"
    and delete_ok: "delete_file api p w = (True, w') \<Longrightarrow> content w' = (content w)(key p := None)"
    and delete_fails: "delete_file api p w = (False, w') \<Longrightarrow> content w' = content w"
    and move_ok:
      "move_file_ex api p q 0 w = (True, w') \<Longrightarrow>
       \<exists>d. content w (key p) = Some d \<and> (key p = key q \<or> content w (key q) = None) \<and>
           content w' = (content w)(key p := None, key q := Some d)"
    and move_fails: "move_file_ex api p q 0 w = (False, w') \<Longrightarrow> content w' = content w"
    and directory_keeps: "create_directory api p w = (ok, w') \<Longrightarrow> content w' = content w"
begin

lemma last_error_keeps [simp]:
  assumes "last_error api doing w = (r, w')"
  shows "content w' = content w" "at w' = at w" "\<exists>e. r = Inl e"
  using assms error_reads by (auto simp: last_error_def split: prod.splits)

lemma last_error_cases:
  obtains e w' where "last_error api doing w = (Inl e, w')" "content w' = content w" "at w' = at w"
  using error_reads by (cases "get_last_error api w") (auto simp: last_error_def)

lemma close_scoped_keeps [simp]: "content (close_scoped api h w) = content w"
  using close_reads[of h w] by (cases "close_handle api h w") (auto simp: close_scoped_def)

lemma close_scoped_at: "h' \<noteq> h \<Longrightarrow> at (close_scoped api h w) h' = at w h'"
  using close_reads[of h w] by (cases "close_handle api h w") (auto simp: close_scoped_def)

lemma file_size_keeps:
  assumes "fs_file_size api narrow p w = (r, w')"
  shows "content w' = content w" "at w' = at w"
    "r = Inr n \<Longrightarrow> \<exists>s. content w (key (c_str p)) = Some s \<and> length s = unat n"
  using assms attributes_ex_read attributes_ex_size
  by (auto simp: fs_file_size_def split: prod.splits if_splits dest: last_error_keeps)

lemma ranges_from_covers:
  assumes "at w h = Some (k, n)" and "content w k = Some s" and "length s = unat len"
    and "ranges_within ((\<lambda>r. (range_offset r, range_length r)) ` set ranges) 0 (length s)"
    and "ranges_cover ((\<lambda>r. (range_offset r, range_length r)) ` set ranges) s 0 (unat offset)"
    and "unat offset \<le> length s"
  shows "\<exists>r w'. ranges_from api doing h len offset ranges w = Some (r, w') \<and> content w' = content w \<and> at w' = at w \<and>
     (\<forall>found. r = Inr found \<longrightarrow>
        ranges_within ((\<lambda>r. (range_offset r, range_length r)) ` set found) 0 (length s) \<and>
        ranges_cover ((\<lambda>r. (range_offset r, range_length r)) ` set found) s 0 (length s))"
  using assms
proof (induction "length s - unat offset" arbitrary: offset ranges w rule: less_induct)
  case less
  let ?R = "\<lambda>rs. (\<lambda>r. (range_offset r, range_length r)) ` set rs"
  have R: "?R (ranges @ map as_range found) = ?R ranges \<union> set found" for found
    by (force simp: as_range_def)
  show ?case
  proof (cases "offset < len")
    case False
    then have "unat offset = length s" using less.prems(3,6) by (simp add: word_less_nat_alt)
    with False less.prems(4,5) show ?thesis by (subst ranges_from.simps) auto
  next
    case True
    obtain ok found w1 where q: "query_allocated_ranges api h offset (len - offset) ranges_room w = ((ok, found), w1)"
      by (metis surj_pair)
    obtain code w2 where e: "get_last_error api w1 = (code, w2)" by (metis surj_pair)
    have keep: "content w1 = content w" "at w1 = at w" "content w2 = content w" "at w2 = at w"
      using query_reads[OF q] error_reads[OF e] by auto
    have top: "unat offset + unat (len - offset) = length s"
      using True less.prems(3) by (simp add: unat_sub word_less_nat_alt less_imp_le)
    have grow: "ranges_within (?R (ranges @ map as_range found)) 0 (length s)"
      "ranges_cover (?R (ranges @ map as_range found)) s 0 m"
      if "ranges_within (set found) (unat offset) (length s)" "ranges_cover (set found) s (unat offset) m" for m
      using that less.prems(4,5) unfolding R ranges_within_def ranges_cover_def
      by (blast, metis (no_types, lifting) UnI1 UnI2 not_le_imp_less)
    show ?thesis
    proof (cases "ok \<or> code \<noteq> ERROR_MORE_DATA")
      case stop: True
      show ?thesis
      proof (cases ok)
        case done1: True
        with query_complete[OF _ less.prems(1,2), of offset "len - offset"] q top
        have "ranges_within (set found) (unat offset) (length s)" "ranges_cover (set found) s (unat offset) (length s)"
          by auto
        from grow[OF this] q keep done1 show ?thesis
          by (subst ranges_from.simps) (auto simp: True win32_codes)
      next
        case False
        with q e keep stop show ?thesis by (subst ranges_from.simps) (auto simp: True)
      qed
    next
      case False
      with query_more[of h offset "len - offset" _ w found w1 w2, OF _ _ less.prems(1,2)] q e top
      have more: "found \<noteq> []" "ranges_within (set found) (unat offset) (length s)"
        "ranges_cover (set found) s (unat offset) (unat (fst (last found)) + unat (snd (last found)))"
        by auto
      obtain a b where l: "last found = (a, b)" by (metis surj_pair)
      with more(1,2) have ab: "unat offset \<le> unat a" "unat a + unat b \<le> length s" "0 < b"
        using last_in_set[OF more(1)] by (auto simp: ranges_within_def)
      have "unat len < 2 ^ 64" by (rule order_less_le_trans[OF unsigned_less]) simp
      then have "unat a + unat b < 2 ^ 64" using ab(2) less.prems(3) by simp
      then have sum: "unat (a + b) = unat a + unat b" by (subst unat_add_lem[THEN iffD1]) simp_all
      have further: "unat offset < unat a + unat b" using ab(1,3) by (simp add: word_less_nat_alt)
      have "\<exists>r w'. ranges_from api doing h len (a + b) (ranges @ map as_range found) w2 = Some (r, w') \<and>
          content w' = content w2 \<and> at w' = at w2 \<and>
          (\<forall>found. r = Inr found \<longrightarrow> ranges_within (?R found) 0 (length s) \<and> ranges_cover (?R found) s 0 (length s))"
        using grow[OF more(2,3)] l sum ab(2) further keep less.prems(1-3)
        by (intro less.hyps) auto
      with q e keep False more(1) l show ?thesis by (subst ranges_from.simps) (simp add: True)
    qed
  qed
qed

lemma allocated_ranges_cover:
  "\<exists>r w'. fs_allocated_ranges api narrow p w = Some (r, w') \<and> content w' = content w \<and>
     (\<forall>h. at w h \<noteq> None \<longrightarrow> at w' h = at w h) \<and>
     (\<forall>found. r = Inr found \<longrightarrow> (\<exists>s. content w (key (c_str p)) = Some s \<and> 
        ranges_within ((\<lambda>r. (range_offset r, range_length r)) ` set found) 0 (length s) \<and>
        ranges_cover ((\<lambda>r. (range_offset r, range_length r)) ` set found) s 0 (length s)))"
proof -
  obtain size w1 where f: "fs_file_size api narrow p w = (size, w1)" by (metis surj_pair)
  note k1 = file_size_keeps(1,2)[OF f]
  show ?thesis
  proof (cases size)
    case (Inl e)
    with f k1 show ?thesis by (auto simp: fs_allocated_ranges_def attempt_wait_def at_once_def)
  next
    case (Inr len)
    from file_size_keeps(3)[OF f Inr] obtain s where s: "content w (key (c_str p)) = Some s" "length s = unat len" by auto
    obtain h w2 where c: "create_file api (c_str p) GENERIC_READ FILE_SHARE_ALL OPEN_EXISTING w1 = (h, w2)"
      by (metis surj_pair)
    show ?thesis
    proof (cases "len = 0")
      case True
      with f k1 Inr s show ?thesis
        by (auto simp: fs_allocated_ranges_def attempt_wait_def at_once_def ranges_within_def ranges_cover_def)
    next
      case nonzero: False
      show ?thesis
      proof (cases "h = invalid_handle_value")
        case True
        obtain e w3 where l: "last_error api (''open '' @ narrow p) w2 = (Inl e :: error + allocated_range list, w3)"
          "content w3 = content w2" "at w3 = at w2" by (rule last_error_cases)
        have "content w2 = content w1" "at w2 = at w1"
          using create_fails[of "c_str p" GENERIC_READ FILE_SHARE_ALL OPEN_EXISTING w1 w2] c True
          by (auto simp: OPEN_EXISTING_def CREATE_ALWAYS_def)
        with c True f k1 Inr nonzero l show ?thesis
          by (simp add: fs_allocated_ranges_def attempt_wait_def at_once_def)
      next
        case False
        note o = open_ok[OF c False]
        have "\<exists>r w'. ranges_from api (''read the allocated ranges of '' @ narrow p) h len 0 [] w2 = Some (r, w') \<and>
            content w' = content w2 \<and> at w' = at w2 \<and>
            (\<forall>found. r = Inr found \<longrightarrow>
              ranges_within ((\<lambda>r. (range_offset r, range_length r)) ` set found) 0 (length s) \<and>
              ranges_cover ((\<lambda>r. (range_offset r, range_length r)) ` set found) s 0 (length s))"
          by (rule ranges_from_covers) (use o k1 s in \<open>auto simp: ranges_within_def ranges_cover_def\<close>)
        then obtain r w3 where r: "ranges_from api (''read the allocated ranges of '' @ narrow p) h len 0 [] w2 = Some (r, w3)"
          "content w3 = content w2" "at w3 = at w2"
          "\<forall>found. r = Inr found \<longrightarrow>
              ranges_within ((\<lambda>r. (range_offset r, range_length r)) ` set found) 0 (length s) \<and>
              ranges_cover ((\<lambda>r. (range_offset r, range_length r)) ` set found) s 0 (length s)" by blast
        have "at (close_scoped api h w3) h' = at w h'" if "at w h' \<noteq> None" for h'
        proof -
          have "h' \<noteq> h" using that o k1 by auto
          with close_scoped_at[of h' h w3] r(3) o k1 show ?thesis by simp
        qed
        with r f k1 Inr nonzero c False o s show ?thesis
          by (auto simp: fs_allocated_ranges_def attempt_wait_def at_once_def)
      qed
    qed
  qed
qed

text \<open>The state of a copy: the source, its bytes, and the bytes of the new file so far.\<close>

definition copying :: "copy_job \<Rightarrow> ('k \<Rightarrow> string option) \<Rightarrow> 'k \<Rightarrow> 'k \<Rightarrow> string \<Rightarrow> 'w \<Rightarrow> string \<Rightarrow> bool" where
  "copying job files source target s w t \<longleftrightarrow>
     job_source job \<noteq> job_destination job \<and> source \<noteq> target \<and> files source = Some s \<and>
     content w = files(target \<mapsto> t) \<and>
     (\<exists>n. at w (job_source job) = Some (source, n)) \<and> (\<exists>n. at w (job_destination job) = Some (target, n))"

lemma seek_at:
  assumes "seek api narrow h pos p w = (r, w')" and "at w h = Some (k, n)"
  shows "content w' = content w" "\<exists>m. at w' = (at w)(h \<mapsto> (k, m))"
    "r = Inr u \<Longrightarrow> at w' = (at w)(h \<mapsto> (k, unat pos))"
proof -
  obtain ok w1 where p: "set_file_pointer_ex api h pos w = (ok, w1)" by (metis surj_pair)
  note k = pointer_keeps[OF p assms(2)]
  obtain e w2 where l: "last_error api (''seek in '' @ narrow p @ '' to '' @ show_word pos) w1 = (Inl e :: status, w2)"
    "content w2 = content w1" "at w2 = at w1" by (rule last_error_cases)
  from p k l assms(1) show "content w' = content w" "\<exists>m. at w' = (at w)(h \<mapsto> (k, m))"
    "r = Inr u \<Longrightarrow> at w' = (at w)(h \<mapsto> (k, unat pos))"
    by (auto simp: seek_def split: if_splits)
qed

lemma copy_chunk_copies:
  assumes "copying job files source target s w t" and "copy_chunk api narrow job fin offset w = (r, w')"
    and "offset < fin" and "unat fin \<le> length s"
  shows "\<exists>t'. copying job files source target s w' t' \<and>
    (\<forall>moved. r = Inr moved \<longrightarrow> 0 < moved \<and> unat offset + moved \<le> unat fin \<and>
       (\<forall>A. copied_on A s t \<longrightarrow> copied_on (A \<union> {unat offset ..< unat offset + moved}) s t'))"
proof -
  let ?src = "job_source job" and ?dst = "job_destination job"
  from assms(1) obtain n m where c: "?src \<noteq> ?dst" "source \<noteq> target" "files source = Some s"
    "content w = files(target \<mapsto> t)" "at w ?src = Some (source, n)" "at w ?dst = Some (target, m)"
    by (auto simp: copying_def)
  obtain r1 w1 where s1: "seek api narrow ?src offset (job_from job) w = (r1, w1)" by (metis surj_pair)
  note k1 = seek_at[OF s1 c(5)]
  have c1: "copying job files source target s w1 t" using k1(1,2) c by (auto simp: copying_def)
  show ?thesis
  proof (cases r1)
    case (Inl e)
    with assms(2) s1 c1 show ?thesis by (auto simp: copy_chunk_def attempt_def)
  next
    case (Inr u1)
    have d1: "at w1 ?dst = Some (target, m)" using k1(3)[OF Inr] c by simp
    obtain r2 w2 where s2: "seek api narrow ?dst offset (job_to job) w1 = (r2, w2)" by (metis surj_pair)
    note k2 = seek_at[OF s2 d1]
    have c2: "copying job files source target s w2 t" using k2(1,2) k1 c by (auto simp: copying_def)
    show ?thesis
    proof (cases r2)
      case (Inl e)
      with assms(2) s1 s2 c2 Inr show ?thesis by (auto simp: copy_chunk_def attempt_def)
    next
      case i2: (Inr u2)
      let ?room = "unat (min (fin - offset) copy_chunk_bytes)"
      obtain ok bytes w3 where rd: "read_file api ?src ?room w2 = ((ok, bytes), w3)" by (metis surj_pair)
      have src2: "at w2 ?src = Some (source, unat offset)" and dst2: "at w2 ?dst = Some (target, unat offset)"
        using k1(3)[OF Inr] k2(3)[OF i2] c(1) by auto
      have s2s: "content w2 source = Some s" using c2 c by (auto simp: copying_def)
      note k3 = read_bytes[OF rd src2 s2s]
      have c3: "copying job files source target s w3 t" using k3 c2 by (auto simp: copying_def)
      have dst3: "at w3 ?dst = Some (target, unat offset)" using k3 dst2 c(1) by auto
      have t3: "content w3 target = Some t" using c3 by (simp add: copying_def)
      show ?thesis
      proof (cases "ok \<and> bytes \<noteq> []")
        case False
        obtain e w4 where l: "last_error api (''read '' @ narrow (job_from job)) w3 = (Inl e :: error + nat, w4)"
          "content w4 = content w3" "at w4 = at w3" by (rule last_error_cases)
        then have "copying job files source target s w4 t" using c3 by (simp add: copying_def)
        with assms(2) s1 s2 rd Inr i2 False l c3 show ?thesis
          by (auto simp: copy_chunk_def attempt_def fail_def split: if_splits)
      next
        case True
        obtain wrote written w4 where wr: "write_file api ?dst bytes w3 = ((wrote, written), w4)" by (metis surj_pair)
        note k4 = write_bytes[OF wr dst3 t3]
        then obtain t' where t': "content w4 = (content w3)(target \<mapsto> t')"
          "wrote \<longrightarrow> unat written \<le> length bytes \<and> t' = put_bytes (unat offset) (take (unat written) bytes) t" by blast
        have c4: "copying job files source target s w4 t'" using k4 t' c3 by (auto simp: copying_def)
        obtain e w5 where l: "last_error api (''write '' @ narrow (job_to job)) w4 = (Inl e :: error + nat, w5)"
          "content w5 = content w4" "at w5 = at w4" by (rule last_error_cases)
        have c5: "copying job files source target s w5 t'" using l c4 by (simp add: copying_def)
        have run: "(r, w') = (if \<not> wrote then (Inl e, w5)
          else if unat written \<noteq> length bytes then
            (fail Generic (narrow (job_to job) @ '' accepted only part of a write'')
              ''the volume may be full; check the free space and try again'', w4)
          else (Inr (length bytes), w4))"
          using assms(2) s1 s2 rd wr Inr i2 True l by (auto simp: copy_chunk_def attempt_def split: if_splits)
        have room: "?room \<le> unat fin - unat offset"
          using assms(3) by (simp add: min_def unat_sub word_le_nat_alt word_less_nat_alt)
        have len: "unat offset + length bytes \<le> unat fin"
          using k3 True room assms(3) by (auto simp: word_less_nat_alt)
        have good: "copied_on (A \<union> {unat offset ..< unat offset + length bytes}) s t'"
          if "copied_on A s t" "wrote" "unat written = length bytes" for A
          using copied_on_chunk[OF that(1), of bytes "unat offset"] that t' k3 True len assms(4) by simp
        show ?thesis
          using run c4 c5 good len True by (auto simp: fail_def split: if_splits)
      qed
    qed
  qed
qed

lemma copying_copied [simp]:
  "copying (job\<lparr>job_copied := x\<rparr>) files source target s w t = copying job files source target s w t"
  by (simp add: copying_def)

lemma copy_chunks_copy:
  assumes "copying job files source target s w t" and "unat fin \<le> length s"
  shows "\<exists>r job' calls' w' t'.
    copy_chunks api narrow progress fin offset job calls w = Some ((r, job', calls'), w') \<and>
    copying job' files source target s w' t' \<and>
    (\<forall>A. r = Inr () \<longrightarrow> copied_on A s t \<longrightarrow> copied_on (A \<union> {unat offset ..< unat fin}) s t')"
  using assms
proof (induction "unat fin - unat offset" arbitrary: offset job calls w t rule: less_induct)
  case less
  show ?case
  proof (cases "offset < fin")
    case False
    with less.prems(1) show ?thesis
      by (subst copy_chunks.simps) (auto simp: word_less_nat_alt)
  next
    case True
    obtain r w1 where c: "copy_chunk api narrow job fin offset w = (r, w1)" by (metis surj_pair)
    from copy_chunk_copies[OF less.prems(1) c True less.prems(2)] obtain t1 where
      t1: "copying job files source target s w1 t1" and
      more: "\<And>moved. r = Inr moved \<Longrightarrow> 0 < moved \<and> unat offset + moved \<le> unat fin \<and>
        (\<forall>A. copied_on A s t \<longrightarrow> copied_on (A \<union> {unat offset ..< unat offset + moved}) s t1)"
      by auto
    show ?thesis
    proof (cases r)
      case (Inl e)
      with c t1 True show ?thesis by (subst copy_chunks.simps) auto
    next
      case (Inr moved)
      note m = more[OF Inr]
      let ?next = "offset + of_nat moved" and ?job = "job\<lparr>job_copied := job_copied job + of_nat moved\<rparr>"
      let ?calls = "calls @ [(job_copied job + of_nat moved, job_total job)]"
      have "unat fin < 2 ^ 64" by (rule order_less_le_trans[OF unsigned_less]) simp
      then have next_eq: "unat ?next = unat offset + moved" using m by (simp add: unat_word_ariths unat_of_nat)
      show ?thesis
      proof (cases "progress (job_copied job + of_nat moved) (job_total job)")
        case False
        with c Inr t1 True show ?thesis
          by (subst copy_chunks.simps) (auto simp: cancelled_copy_def Let_def)
      next
        case go: True
        have "\<exists>r job' calls' w' t'.
          copy_chunks api narrow progress fin ?next ?job ?calls w1 = Some ((r, job', calls'), w') \<and>
          copying job' files source target s w' t' \<and>
          (\<forall>A. r = Inr () \<longrightarrow> copied_on A s t1 \<longrightarrow> copied_on (A \<union> {unat ?next ..< unat fin}) s t')"
          using t1 m next_eq less.prems(2) by (intro less.hyps) auto
        then obtain r' job' calls' w' t' where rest:
          "copy_chunks api narrow progress fin ?next ?job ?calls w1 = Some ((r', job', calls'), w')"
          "copying job' files source target s w' t'"
          "\<And>A. r' = Inr () \<Longrightarrow> copied_on A s t1 \<Longrightarrow> copied_on (A \<union> {unat ?next ..< unat fin}) s t'" by blast
        have ivl: "A \<union> {unat offset ..< unat offset + moved} \<union> {unat offset + moved ..< unat fin}
            = A \<union> {unat offset ..< unat fin}" for A
          using m by auto
        have "copied_on (A \<union> {unat offset ..< unat fin}) s t'" if "r' = Inr ()" "copied_on A s t" for A
          using rest(3)[OF that(1), of "A \<union> {unat offset ..< unat offset + moved}"] m that(2) ivl next_eq by simp
        with c Inr True go rest(1,2) show ?thesis by (subst copy_chunks.simps) (auto simp: Let_def)
      qed
    qed
  qed
qed

definition spans :: "allocated_range list \<Rightarrow> nat set" where
  "spans ranges =
     (\<Union>rg \<in> set ranges. {unat (range_offset rg) ..< unat (range_offset rg) + unat (range_length rg)})"

lemma copy_ranges_copy:
  assumes "copying job files source target s w t" and "length s < 2 ^ 64"
    and "ranges_within ((\<lambda>r. (range_offset r, range_length r)) ` set ranges) 0 (length s)"
  shows "\<exists>r calls' w' t'.
    copy_ranges api narrow progress ranges job calls w = Some ((r, calls'), w') \<and>
    content w' = files(target \<mapsto> t') \<and>
    (\<forall>A. r = Inr () \<longrightarrow> copied_on A s t \<longrightarrow> copied_on (A \<union> spans ranges) s t')"
  using assms(1,3)
proof (induction ranges arbitrary: job calls w t)
  case Nil
  then have "content w = files(target \<mapsto> t)" by (auto simp: copying_def)
  then show ?case
    by (intro exI[of _ "Inr ()"] exI[of _ calls] exI[of _ w] exI[of _ t]) (simp add: spans_def)
next
  case (Cons rg ranges)
  let ?fin = "range_offset rg + range_length rg"
  have "unat (range_offset rg) + unat (range_length rg) \<le> length s"
    using Cons.prems(2) by (auto simp: ranges_within_def)
  then have fin: "unat ?fin = unat (range_offset rg) + unat (range_length rg)" "unat ?fin \<le> length s"
    using assms(2) by (simp_all add: unat_word_ariths)
  from copy_chunks_copy[OF Cons.prems(1) fin(2), of narrow progress "range_offset rg" calls]
  obtain r1 job1 calls1 w1 t1 where one:
    "copy_range api narrow progress rg job calls w = Some ((r1, job1, calls1), w1)"
    "copying job1 files source target s w1 t1"
    "\<And>A. r1 = Inr () \<Longrightarrow> copied_on A s t \<Longrightarrow> copied_on (A \<union> {unat (range_offset rg) ..< unat ?fin}) s t1"
    unfolding copy_range_def by blast
  show ?case
  proof (cases r1)
    case (Inl e)
    have "content w1 = files(target \<mapsto> t1)" using one(2) by (auto simp: copying_def)
    with one(1) Inl show ?thesis
      by (intro exI[of _ "Inl e"] exI[of _ calls1] exI[of _ w1] exI[of _ t1]) simp
  next
    case (Inr u)
    have "ranges_within ((\<lambda>r. (range_offset r, range_length r)) ` set ranges) 0 (length s)"
      using Cons.prems(2) by (auto simp: ranges_within_def)
    from Cons.IH[OF one(2) this, of calls1] obtain r calls' w' t' where rest:
      "copy_ranges api narrow progress ranges job1 calls1 w1 = Some ((r, calls'), w')"
      "content w' = files(target \<mapsto> t')"
      "\<And>A. r = Inr () \<Longrightarrow> copied_on A s t1 \<Longrightarrow> copied_on (A \<union> spans ranges) s t'"
      by blast
    have sp: "spans (rg # ranges) = {unat (range_offset rg) ..< unat ?fin} \<union> spans ranges"
      by (simp add: spans_def fin(1))
    have "copied_on (A \<union> spans (rg # ranges)) s t'" if "r = Inr ()" "copied_on A s t" for A
      using rest(3)[OF that(1) one(3)[OF _ that(2)]] Inr by (simp add: sp Un_assoc)
    with one(1) rest(1,2) Inr show ?thesis
      by (intro exI[of _ r] exI[of _ calls'] exI[of _ w'] exI[of _ t']) simp
  qed
qed

text \<open>Both files open: the new file, empty until now, becomes the source byte for byte, or the copy fails
  and it is anything.\<close>

lemma copied_on_all:
  assumes "copied_on A s t" and "A = spans ranges"
    and "ranges_cover ((\<lambda>r. (range_offset r, range_length r)) ` set ranges) s 0 (length s)"
  shows "t = s"
proof (rule nth_equalityI)
  show "length t = length s" using assms(1) by (simp add: copied_on_def)
  fix i assume "i < length t"
  then have i: "i < length s" using assms(1) by (simp add: copied_on_def)
  show "t ! i = s ! i"
  proof (cases "s ! i = CHR 0x00")
    case True
    with assms(1) i show ?thesis by (simp add: copied_on_def)
  next
    case False
    with assms(2,3) i have "i \<in> A" by (fastforce simp: ranges_cover_def spans_def)
    with assms(1) i show ?thesis by (simp add: copied_on_def)
  qed
qed

lemma copied_on_empty: "copied_on {} s (with_length (length s) [])"
  by (simp add: copied_on_def with_length_def)

lemma copy_opened_copies:
  assumes "copying job files source target s w []" and "length s = unat len"
    and "ranges_within ((\<lambda>r. (range_offset r, range_length r)) ` set ranges) 0 (length s)"
    and "ranges_cover ((\<lambda>r. (range_offset r, range_length r)) ` set ranges) s 0 (length s)"
  shows "\<exists>r calls w' t. copy_opened api narrow progress ranges len job w = Some ((r, calls), w') \<and>
    content w' = files(target \<mapsto> t) \<and> (r = Inr () \<longrightarrow> t = s)"
proof -
  let ?dst = "job_destination job"
  from assms(1) obtain n m where c: "job_source job \<noteq> ?dst" "source \<noteq> target" "files source = Some s"
    "content w = files(target \<mapsto> [])" "at w (job_source job) = Some (source, n)" "at w ?dst = Some (target, m)"
    by (auto simp: copying_def)
  have len: "length s < 2 ^ 64" unfolding assms(2) by (rule order_less_le_trans[OF unsigned_less]) simp
  obtain ok w1 where sp: "set_sparse api ?dst w = (ok, w1)" by (metis surj_pair)
  note k1 = sparse_keeps[OF sp]
  show ?thesis
  proof (cases ok)
    case False
    obtain e w2 where l: "last_error api (''make '' @ narrow (job_to job) @ '' a sparse file'') w1 = (Inl e :: status, w2)"
      "content w2 = content w1" "at w2 = at w1" by (rule last_error_cases)
    with sp k1 c(4) False show ?thesis
      by (intro exI[of _ "Inl e"] exI[of _ "[]"] exI[of _ w2] exI[of _ "[]"]) (simp add: copy_opened_def)
  next
    case True
    obtain r2 w2 where sk: "seek api narrow ?dst len (job_to job) w1 = (r2, w2)" by (metis surj_pair)
    have a1: "at w1 ?dst = Some (target, m)" using k1 c by simp
    note k2 = seek_at[OF sk a1]
    show ?thesis
    proof (cases r2)
      case (Inl e)
      with True sp sk k1 k2(1) c(4) show ?thesis
        by (intro exI[of _ "Inl e"] exI[of _ "[]"] exI[of _ w2] exI[of _ "[]"])
          (simp add: copy_opened_def resize_def attempt_def)
    next
      case (Inr u)
      obtain sized w3 where eo: "set_end_of_file api ?dst w2 = (sized, w3)" by (metis surj_pair)
      have a2: "at w2 ?dst = Some (target, unat len)" using k2(3)[OF Inr] by simp
      have t2: "content w2 target = Some []" using k2(1) k1 c(4) by simp
      from end_of_file[OF eo a2 t2] obtain t where t: "at w3 = at w2" "content w3 = (content w2)(target \<mapsto> t)"
        "sized \<longrightarrow> t = with_length (unat len) []" by blast
      have c3: "content w3 = files(target \<mapsto> t)" using t(2) k2(1) k1 c(4) by simp
      show ?thesis
      proof (cases sized)
        case False
        obtain e w4 where l: "last_error api (''set the length of '' @ narrow (job_to job) @ '' to '' @ show_word len) w3
            = (Inl e :: status, w4)" "content w4 = content w3" "at w4 = at w3" by (rule last_error_cases)
        with True sp sk eo Inr False c3 show ?thesis
          by (intro exI[of _ "Inl e"] exI[of _ "[]"] exI[of _ w4] exI[of _ t])
            (simp add: copy_opened_def resize_def attempt_def)
      next
        case done3: True
        have cj: "copying job files source target s w3 t"
          using c c3 t(1) k2(3)[OF Inr] k1 by (simp add: copying_def)
        have e: "copied_on {} s t" using t(3) done3 copied_on_empty[of s] assms(2) by simp
        from copy_ranges_copy[OF cj len assms(3), of narrow progress "[]"] obtain r calls' w' t' where rest:
          "copy_ranges api narrow progress ranges job [] w3 = Some ((r, calls'), w')"
          "content w' = files(target \<mapsto> t')"
          "\<And>A. r = Inr () \<Longrightarrow> copied_on A s t \<Longrightarrow> copied_on (A \<union> spans ranges) s t'" by blast
        have "t' = s" if "r = Inr ()"
          using rest(3)[OF that e] assms(4) by (intro copied_on_all) auto
        with True sp sk eo Inr done3 rest(1,2) show ?thesis
          by (intro exI[of _ r] exI[of _ calls'] exI[of _ w'] exI[of _ t'])
            (simp add: copy_opened_def resize_def attempt_def)
      qed
    qed
  qed
qed

lemma copy_file_copies:
  "\<exists>r calls w'. fs_copy_file_sparse api narrow p q progress w = Some ((r, calls), w') \<and>
     (r = Inr () \<longrightarrow>
       (\<exists>s. content w (key (c_str p)) = Some s \<and> content w (key (c_str q)) = None \<and>
          content w' = (content w)(key (c_str q) \<mapsto> s))) \<and>
     (r \<noteq> Inr () \<longrightarrow>
       content w' = content w \<or>
       content w (key (c_str q)) = None \<and> (\<exists>t. content w' = (content w)(key (c_str q) \<mapsto> t)))"
proof -
  from allocated_ranges_cover[of narrow p w] obtain r1 w1 where a:
    "fs_allocated_ranges api narrow p w = Some (r1, w1)" "content w1 = content w"
    "\<And>found. r1 = Inr found \<Longrightarrow> (\<exists>s. content w (key (c_str p)) = Some s \<and>
       ranges_within ((\<lambda>r. (range_offset r, range_length r)) ` set found) 0 (length s) \<and>
       ranges_cover ((\<lambda>r. (range_offset r, range_length r)) ` set found) s 0 (length s))" by blast
  show ?thesis
  proof (cases r1)
    case (Inl e)
    with a show ?thesis by (simp add: fs_copy_file_sparse_def)
  next
    case (Inr found)
    from a(3)[OF Inr] obtain s where s: "content w (key (c_str p)) = Some s"
      "ranges_within ((\<lambda>r. (range_offset r, range_length r)) ` set found) 0 (length s)"
      "ranges_cover ((\<lambda>r. (range_offset r, range_length r)) ` set found) s 0 (length s)" by blast
    obtain r2 w2 where f: "fs_file_size api narrow p w1 = (r2, w2)" by (metis surj_pair)
    note k2 = file_size_keeps(1,2)[OF f]
    show ?thesis
    proof (cases r2)
      case (Inl e)
      with a f Inr k2 show ?thesis by (simp add: fs_copy_file_sparse_def)
    next
      case i2: (Inr len)
      have len: "length s = unat len" using file_size_keeps(3)[OF f i2] a(2) s(1) by auto
      obtain src w3 where o: "create_file api (c_str p) GENERIC_READ FILE_SHARE_READ OPEN_EXISTING w2 = (src, w3)"
        by (metis surj_pair)
      show ?thesis
      proof (cases "src = invalid_handle_value")
        case True
        obtain e w4 where l: "last_error api (''open '' @ narrow p) w3 = (Inl e :: status, w4)"
          "content w4 = content w3" "at w4 = at w3" by (rule last_error_cases)
        have "content w3 = content w2" using create_fails[of "c_str p"] o True
          by (auto simp: OPEN_EXISTING_def CREATE_ALWAYS_def)
        with a f Inr i2 k2 o True l show ?thesis
          by (simp add: fs_copy_file_sparse_def copy_between_def)
      next
        case False
        note k3 = open_ok[OF o False]
        obtain dst w4 where n: "create_file api (c_str q) (or GENERIC_READ GENERIC_WRITE) 0 CREATE_NEW w3 = (dst, w4)"
          by (metis surj_pair)
        show ?thesis
        proof (cases "dst = invalid_handle_value")
          case True
          obtain e w5 where l: "last_error api (''create '' @ narrow q) w4 = (Inl e :: status, w5)"
            "content w5 = content w4" "at w5 = at w4" by (rule last_error_cases)
          have "content w4 = content w3" using create_fails[of "c_str q"] n True
            by (auto simp: CREATE_NEW_def CREATE_ALWAYS_def)
          with a f Inr i2 k2 k3 o False n True l show ?thesis
            by (simp add: fs_copy_file_sparse_def copy_between_def)
        next
          case d: False
          note k4 = create_ok[OF n d]
          let ?job = "\<lparr>job_source = src, job_destination = dst, job_from = p, job_to = q,
            job_total = ranges_total found, job_copied = 0\<rparr>"
          have none: "content w (key (c_str q)) = None" using k4 k3 k2 a(2) by simp
          have "copying ?job (content w) (key (c_str p)) (key (c_str q)) s w4 []"
            using k4 k3 k2 a(2) s(1) none by (auto simp: copying_def)
          from copy_opened_copies[OF this len s(2,3), of narrow progress] obtain r calls w' t where run:
            "copy_opened api narrow progress found len ?job w4 = Some ((r, calls), w')"
            "content w' = (content w)(key (c_str q) \<mapsto> t)" "r = Inr () \<longrightarrow> t = s" by blast
          let ?w = "close_scoped api src (close_scoped api dst w')"
          have "fs_copy_file_sparse api narrow p q progress w = Some ((r, calls), ?w)"
            using a(1) f Inr i2 o False n d run(1) by (simp add: fs_copy_file_sparse_def copy_between_def)
          moreover have "content ?w = (content w)(key (c_str q) \<mapsto> t)" using run(2) by simp
          ultimately show ?thesis using run(3) none s(1) by auto
        qed
      qed
    qed
  qed
qed

lemma error_reads_of: "last_error api doing w = (r, w') \<Longrightarrow> content w' = content w"
  using last_error_keeps by blast

lemma volume_root_reads: "volume_root api narrow p w = (r, w') \<Longrightarrow> content w' = content w"
  by (auto simp: volume_root_def split: prod.splits if_splits dest!: volume_path_reads error_reads_of)

lemma open_content: "create_file api p access share OPEN_EXISTING w = (h, w') \<Longrightarrow> content w' = content w"
  using open_ok create_fails by (cases "h = invalid_handle_value") (auto simp: OPEN_EXISTING_def CREATE_ALWAYS_def)

lemma is_locked_content: "fs_is_locked api narrow p w = (r, w') \<Longrightarrow> content w' = content w"
  by (auto simp: fs_is_locked_def split: prod.splits if_splits dest!: open_content error_reads)

lemma create_levels_keeps: "create_levels api narrow levels w = (r, w') \<Longrightarrow> content w' = content w"
proof (induction levels arbitrary: w)
  case (Cons level rest)
  then show ?case
    by (auto split: prod.splits if_splits dest!: directory_keeps error_reads)
qed simp

end

text \<open>The contract that the operations rely on holds of the class over such a table: what \<open>move\<close> assumes of
  a copy, a rename and a deletion is what the platform layer does.\<close>

sublocale win32_file_contract \<subseteq>
  implements: file_contract "win32_filesystem api narrow" content "\<lambda>p. key (c_str p)" for narrow
proof
  fix p q w w' and b b' :: bool and n :: "error + u64" and v :: "error + volume_info"
    and e :: error and sb l :: "error + bool" and r :: status and u :: unit and c f
  show "exists_path (win32_filesystem api narrow) p w = (b, w') \<Longrightarrow> content w' = content w"
    by (auto simp: win32_filesystem_def fs_exists_def split: prod.splits if_splits dest!: attributes_read error_reads)
  show "exists_path (win32_filesystem api narrow) p w = (False, w') \<Longrightarrow> content w (key (c_str p)) = None"
    using attributes_absent
    by (fastforce simp: win32_filesystem_def fs_exists_def split: prod.splits if_splits)
  show "file_size_on_disk (win32_filesystem api narrow) p w = (n, w') \<Longrightarrow> content w' = content w"
    by (auto simp: win32_filesystem_def fs_file_size_on_disk_def split: prod.splits if_splits
        dest!: compressed_reads error_reads)
  show "get_volume_info (win32_filesystem api narrow) p w = (v, w') \<Longrightarrow> content w' = content w"
    by (auto simp: win32_filesystem_def fs_volume_info_def attempt_def split: prod.splits if_splits sum.splits
        dest!: volume_root_reads free_space_reads volume_reads error_reads_of)
  show "same_volume (win32_filesystem api narrow) p q w = (sb, w') \<Longrightarrow> content w' = content w"
    by (auto simp: win32_filesystem_def fs_same_volume_def attempt_def split: prod.splits sum.splits
        dest!: volume_root_reads)
  show "is_locked (win32_filesystem api narrow) p w = (l, w') \<Longrightarrow> content w' = content w"
    using is_locked_content by (simp add: win32_filesystem_def)
  show "create_directories (win32_filesystem api narrow) p w = (r, w') \<Longrightarrow> content w' = content w"
    using create_levels_keeps by (simp add: win32_filesystem_def fs_create_directories_def)
  show "rename_file (win32_filesystem api narrow) p q w = (Inr u, w') \<Longrightarrow>
       \<exists>d. content w (key (c_str p)) = Some d \<and> (key (c_str p) = key (c_str q) \<or> content w (key (c_str q)) = None) \<and>
           content w' = (content w)(key (c_str p) := None, key (c_str q) := Some d)"
    using move_ok[of "c_str p" "c_str q" w] last_error_keeps(3)
    by (fastforce simp: win32_filesystem_def fs_rename_def split: prod.splits if_splits)
  show "rename_file (win32_filesystem api narrow) p q w = (Inl e, w') \<Longrightarrow> content w' = content w"
    by (auto simp: win32_filesystem_def fs_rename_def split: prod.splits if_splits dest!: move_fails error_reads_of)
  show "copy_file_sparse (win32_filesystem api narrow) p q f w = ((Inr u, c), w') \<Longrightarrow>
       \<exists>d. content w (key (c_str p)) = Some d \<and> content w (key (c_str q)) = None \<and>
           content w' = (content w)(key (c_str q) := Some d)"
    using copy_file_copies[of narrow p q f w] by (auto simp: win32_filesystem_def)
  show "copy_file_sparse (win32_filesystem api narrow) p q f w = ((Inl e, c), w') \<Longrightarrow>
       content w' = (content w)(key (c_str q) := content w' (key (c_str q)))"
    using copy_file_copies[of narrow p q f w] by (auto simp: win32_filesystem_def)
  show "remove_file (win32_filesystem api narrow) p w = (Inr u, w') \<Longrightarrow> content w' = (content w)(key (c_str p) := None)"
    using delete_ok last_error_keeps(3)
    by (fastforce simp: win32_filesystem_def fs_remove_def split: prod.splits if_splits)
  show "remove_file (win32_filesystem api narrow) p w = (Inl e, w') \<Longrightarrow> content w' = content w"
    by (auto simp: win32_filesystem_def fs_remove_def split: prod.splits if_splits dest!: delete_fails error_reads_of)
qed

text \<open>C3: copying a sparse file comes to an end, and when it reports success the new file is the old one
  byte for byte, every other file is as it was and the target was not there before; when it fails,
  nothing but the target can have changed, and an existing target has not.\<close>

theorem copy_is_identical:
  assumes "win32_file_contract api content at key"
  shows "\<exists>r calls w'. fs_copy_file_sparse api narrow p q progress w = Some ((r, calls), w') \<and>
     (r = Inr () \<longrightarrow>
       (\<exists>s. content w (key (c_str p)) = Some s \<and> content w (key (c_str q)) = None \<and>
          content w' = (content w)(key (c_str q) \<mapsto> s))) \<and>
     (r \<noteq> Inr () \<longrightarrow>
       content w' = content w \<or>
       content w (key (c_str q)) = None \<and> (\<exists>t. content w' = (content w)(key (c_str q) \<mapsto> t)))"
  by (rule win32_file_contract.copy_file_copies[OF assms])

section \<open>Files in memory\<close>

record win_files =
  wf_files :: "path \<Rightarrow> string option"
  wf_at :: "handle \<Rightarrow> (path \<times> nat) option"

definition wf_fresh :: "win_files \<Rightarrow> handle" where
  "wf_fresh w = (if wf_at w 1 = None then 1 else if wf_at w 2 = None then 2 else invalid_handle_value)"

definition wf_open :: "path \<Rightarrow> dword \<Rightarrow> win_files \<Rightarrow> handle \<times> win_files" where
  "wf_open p how w =
     (let h = wf_fresh w in
      if h = invalid_handle_value then (h, w)
      else if how = OPEN_EXISTING \<and> wf_files w p \<noteq> None then (h, w\<lparr>wf_at := (wf_at w)(h \<mapsto> (p, 0))\<rparr>)
      else if how = CREATE_NEW \<and> wf_files w p = None then
        (h, w\<lparr>wf_files := (wf_files w)(p \<mapsto> []), wf_at := (wf_at w)(h \<mapsto> (p, 0))\<rparr>)
      else (invalid_handle_value, w))"

text \<open>A call on a handle that is open on a file.\<close>

definition wf_on :: "handle \<Rightarrow> 'a \<Rightarrow> (path \<Rightarrow> nat \<Rightarrow> string \<Rightarrow> 'a \<times> win_files) \<Rightarrow> win_files \<Rightarrow> 'a \<times> win_files" where
  "wf_on h failed body w =
     (case wf_at w h of
        None \<Rightarrow> (failed, w)
      | Some (p, n) \<Rightarrow> (case wf_files w p of None \<Rightarrow> (failed, w) | Some s \<Rightarrow> body p n s))"

definition memory_files :: "win_files win32" where
  "memory_files = refusing_api
     \<lparr>get_last_error := (\<lambda>w. (ERROR_FILE_NOT_FOUND, w)),
      get_file_attributes := (\<lambda>p w. (if wf_files w p = None then INVALID_FILE_ATTRIBUTES else 0x20, w)),
      get_file_attributes_ex := (\<lambda>p w.
        case wf_files w p of
          None \<Rightarrow> ((False, 0, 0), w)
        | Some s \<Rightarrow>
            (let n = of_nat (length s) :: u64
             in if unat n \<noteq> length s then ((False, 0, 0), w)
                else ((True, ucast (drop_bit 32 n), ucast n), w))),
      create_file := (\<lambda>p access share how w. wf_open p how w),
      close_handle := (\<lambda>h w. (True, w\<lparr>wf_at := (wf_at w)(h := None)\<rparr>)),
      query_allocated_ranges := (\<lambda>h start len room w.
        wf_on h (True, []) (\<lambda>p n s. ((True, if len = 0 then [] else [(start, len)]), w)) w),
      set_sparse := (\<lambda>h w. (True, w)),
      set_file_pointer_ex := (\<lambda>h pos w.
        case wf_at w h of
          None \<Rightarrow> (False, w)
        | Some (p, n) \<Rightarrow> (True, w\<lparr>wf_at := (wf_at w)(h \<mapsto> (p, unat pos))\<rparr>)),
      set_end_of_file := (\<lambda>h w.
        wf_on h False (\<lambda>p n s. (True, w\<lparr>wf_files := (wf_files w)(p \<mapsto> with_length n s)\<rparr>)) w),
      read_file := (\<lambda>h room w.
        wf_on h (False, []) (\<lambda>p n s.
          let bytes = take room (drop n s)
          in ((True, bytes), w\<lparr>wf_at := (wf_at w)(h \<mapsto> (p, n + length bytes))\<rparr>)) w),
      write_file := (\<lambda>h bytes w.
        wf_on h (False, 0) (\<lambda>p n s.
          let count = of_nat (length bytes) :: dword; done_bytes = take (unat count) bytes
          in ((True, count),
              w\<lparr>wf_files := (wf_files w)(p \<mapsto> put_bytes n done_bytes s),
                wf_at := (wf_at w)(h \<mapsto> (p, n + length done_bytes))\<rparr>)) w),
      delete_file := (\<lambda>p w.
        if wf_files w p = None then (False, w) else (True, w\<lparr>wf_files := (wf_files w)(p := None)\<rparr>)),
      move_file_ex := (\<lambda>p q flags w.
        if wf_files w p \<noteq> None \<and> (p = q \<or> wf_files w q = None)
        then (True, w\<lparr>wf_files := (wf_files w)(p := None, q := wf_files w p)\<rparr>) else (False, w))\<rparr>"

lemma combine_halves: "combine (ucast (drop_bit 32 n)) (ucast n) = n"
  by (rule bit_eqI) (auto simp: combine_def bit_or_iff bit_push_bit_iff bit_ucast_iff bit_drop_bit_eq)

lemma unat_of_nat_le: "unat (of_nat n :: 'a::len word) \<le> n"
  by (simp add: unat_of_nat)

lemma take_min_drop: "take (min (length s - n) room) (drop n s) = take room (drop n s)"
  by (simp add: min_def)

lemma wf_open_cases:
  assumes "wf_open p how w = (h, w')" and "h \<noteq> invalid_handle_value"
  shows "wf_at w h = None \<and> wf_at w' = (wf_at w)(h \<mapsto> (p, 0)) \<and>
    (how = OPEN_EXISTING \<and> wf_files w p \<noteq> None \<and> wf_files w' = wf_files w \<or>
     how = CREATE_NEW \<and> wf_files w p = None \<and> wf_files w' = (wf_files w)(p \<mapsto> []))"
  using assms by (auto simp: wf_open_def wf_fresh_def Let_def split: if_splits)

lemma wf_open_refused: "wf_open p how w = (invalid_handle_value, w') \<Longrightarrow> w' = w"
  by (auto simp: wf_open_def wf_fresh_def Let_def split: if_splits)

interpretation memory_files: win32_file_contract memory_files wf_files wf_at id
proof
qed (auto simp: memory_files_def refusing_api_def wf_on_def combine_halves unat_of_nat_le INVALID_FILE_ATTRIBUTES_def
    ranges_within_def ranges_cover_def OPEN_EXISTING_def CREATE_NEW_def Let_def win32_codes fun_upd_idem word_gt_0 take_min_drop
    split: if_splits option.splits prod.splits dest: wf_open_cases wf_open_refused)

text \<open>A file whose first two bytes are text and whose third is a hole.\<close>

definition sample_files :: win_files where
  "sample_files =
     \<lparr>wf_files = (\<lambda>p. if p = [0x41] then Some [CHR ''x'', CHR ''y'', CHR 0x00] else None), wf_at = (\<lambda>_. None)\<rparr>"

theorem copy_is_identical_witness:
  "\<exists>calls w'. fs_copy_file_sparse memory_files (\<lambda>_. []) [0x41] [0x42] (\<lambda>_ _. True) sample_files = Some ((Inr (), calls), w') \<and>
     wf_files w' [0x42] = Some [CHR ''x'', CHR ''y'', CHR 0x00]"
proof -
  have run: "(case fs_copy_file_sparse memory_files (\<lambda>_. []) [0x41] [0x42] (\<lambda>_ _. True) sample_files of
      Some ((Inr _, _), _) \<Rightarrow> True | _ \<Rightarrow> False)"
    by code_simp
  from copy_is_identical[OF memory_files.win32_file_contract_axioms,
      of "\<lambda>_. []" "[0x41]" "[0x42]" "\<lambda>_ _. True" sample_files]
  obtain r calls w' where c: "fs_copy_file_sparse memory_files (\<lambda>_. []) [0x41] [0x42] (\<lambda>_ _. True) sample_files = Some ((r, calls), w')"
    "r = Inr () \<longrightarrow>
       (\<exists>s. wf_files sample_files (id (c_str [0x41])) = Some s \<and> wf_files sample_files (id (c_str [0x42])) = None \<and>
          wf_files w' = (wf_files sample_files)(id (c_str [0x42]) \<mapsto> s))" by blast
  from run c(1) have "r = Inr ()" by (auto split: sum.splits)
  with c show ?thesis by (auto simp: sample_files_def c_str_def)
qed

end
