(* ===== verification/Command_Line.thy ===== *)
theory Command_Line
  imports Win_Path
begin

text \<open>
  The command line of a child process (\<open>src/src/lib/platform/wsl_host.cpp\<close>, \<open>editor.cpp\<close>): Windows
  passes one string, and the child splits it into arguments by the rules \<open>CommandLineToArgvW\<close>
  documents. \<open>parse_command_line\<close> states those rules; quoting and parsing is the identity.
\<close>

section \<open>Quoting\<close>

definition double_quote :: u16 where "double_quote = 0x22"
definition blank :: u16 where "blank = 0x20"
definition tab :: u16 where "tab = 0x09"

definition needs_quotes :: "wstr \<Rightarrow> bool" where
  "needs_quotes argument \<longleftrightarrow>
     argument = [] \<or> (\<exists>c \<in> set argument. c \<in> {blank, tab, 0x0A, 0x0B, double_quote})"

text \<open>The loop over a quoted argument, \<open>n\<close> the backslashes it has just read.\<close>

fun escaped :: "nat \<Rightarrow> wstr \<Rightarrow> wstr" where
  "escaped n [] = replicate (n * 2) backslash"
| "escaped n (c # cs) =
     (if c = backslash then escaped (n + 1) cs
      else if c = double_quote then replicate (n * 2 + 1) backslash @ c # escaped 0 cs
      else replicate n backslash @ c # escaped 0 cs)"

definition quoted_argument :: "wstr \<Rightarrow> wstr" where
  "quoted_argument argument =
     (if \<not> needs_quotes argument then argument else double_quote # escaped 0 argument @ [double_quote])"

fun command_line_from :: "wstr \<Rightarrow> wstr list \<Rightarrow> wstr" where
  "command_line_from line [] = line"
| "command_line_from line (argument # rest) =
     command_line_from ((if line \<noteq> [] then line @ [blank] else line) @ quoted_argument argument) rest"

definition build_command_line :: "wstr list \<Rightarrow> wstr" where
  "build_command_line arguments = command_line_from [] arguments"

text \<open>The editor's own rule, for the file it is to open: a path holds no quote and does not end in a
  backslash.\<close>

definition quoted_file :: "wstr \<Rightarrow> wstr" where
  "quoted_file argument =
     (if blank \<notin> set argument then argument else double_quote # argument @ [double_quote])"

section \<open>The rules of \<open>CommandLineToArgvW\<close>\<close>

text \<open>An argument, from a state of quoting and a count of backslashes just read, with what is left of the
  line: \<open>2n\<close> backslashes and a quote are \<open>n\<close> backslashes and a change of state, one more and the quote is
  a character, and backslashes before anything else are themselves.\<close>

fun parse_argument :: "bool \<Rightarrow> nat \<Rightarrow> wstr \<Rightarrow> wstr \<times> wstr" where
  "parse_argument q n [] = (replicate n backslash, [])"
| "parse_argument q n (c # cs) =
     (if c = backslash then parse_argument q (n + 1) cs
      else if c = double_quote then
        (if even n then apfst ((@) (replicate (n div 2) backslash)) (parse_argument (\<not> q) 0 cs)
         else apfst ((@) (replicate (n div 2) backslash @ [double_quote])) (parse_argument q 0 cs))
      else if \<not> q \<and> (c = blank \<or> c = tab) then (replicate n backslash, c # cs)
      else apfst ((@) (replicate n backslash @ [c])) (parse_argument q 0 cs))"

lemma parse_argument_rest: "length (snd (parse_argument q n t)) \<le> length t"
  by (induction q n t rule: parse_argument.induct) auto

definition is_line_blank :: "u16 \<Rightarrow> bool" where
  "is_line_blank c \<longleftrightarrow> c = blank \<or> c = tab"

lemma parse_argument_progress:
  "\<not> is_line_blank c \<Longrightarrow> length (snd (parse_argument False 0 (c # cs))) < length (c # cs)"
  using parse_argument_rest[of False 1 cs] parse_argument_rest[of True 0 cs] parse_argument_rest[of False 0 cs]
  by (auto simp: is_line_blank_def less_Suc_eq_le)

lemma parse_argument_shrinks:
  assumes "dropWhile is_line_blank line = c # cs"
  shows "length (snd (parse_argument False 0 (c # cs))) < length line"
proof -
  have "\<not> is_line_blank c" using assms by (metis hd_dropWhile list.distinct(1) list.sel(1))
  moreover have "length (c # cs) \<le> length line" by (metis assms length_dropWhile_le)
  ultimately show ?thesis using parse_argument_progress by (metis less_le_trans)
qed

function parse_command_line :: "wstr \<Rightarrow> wstr list" where
  "parse_command_line line =
     (case dropWhile is_line_blank line of
        [] \<Rightarrow> []
      | c # cs \<Rightarrow>
          fst (parse_argument False 0 (c # cs)) # parse_command_line (snd (parse_argument False 0 (c # cs))))"
  by pat_completeness auto
termination
  by (relation "measure length") (auto simp del: parse_argument.simps dest: parse_argument_shrinks)

declare parse_command_line.simps [simp del]

section \<open>Quoting and parsing\<close>

lemmas command_line_codes = backslash_def double_quote_def blank_def tab_def

lemma parse_backslashes: "parse_argument q m (replicate k backslash @ t) = parse_argument q (m + k) t"
  by (induction k arbitrary: m) auto

lemma parse_escaped:
  "parse_argument True 0 (escaped n t @ double_quote # rest) =
     apfst ((@) (replicate n backslash @ t)) (parse_argument False 0 rest)"
proof (induction n t rule: escaped.induct)
  case (1 n)
  have "double_quote \<noteq> backslash" by (simp add: command_line_codes)
  then show ?case by (simp add: parse_backslashes)
next
  case (2 n c cs)
  have no: "double_quote \<noteq> backslash" by (simp add: command_line_codes)
  consider "c = backslash" | "c = double_quote" | "c \<noteq> backslash" "c \<noteq> double_quote" by blast
  then show ?case
  proof cases
    case 1
    with 2(1) show ?thesis by (simp add: replicate_app_Cons_same)
  next
    case 2
    with "2.IH"(2) no show ?thesis
      by (cases "parse_argument False 0 rest") (simp add: parse_backslashes)
  next
    case 3
    with "2.IH"(3) show ?thesis by (cases "parse_argument False 0 rest") (simp add: parse_backslashes)
  qed
qed

text \<open>What follows an argument is the end of the line or a blank.\<close>

definition at_blank :: "wstr \<Rightarrow> bool" where
  "at_blank rest \<longleftrightarrow> rest = [] \<or> hd rest = blank"

lemma parse_at_blank: "at_blank rest \<Longrightarrow> parse_argument False 0 rest = ([], rest)"
  by (cases rest) (auto simp: at_blank_def command_line_codes)

lemma parse_plain:
  assumes "\<forall>c \<in> set t. c \<noteq> blank \<and> c \<noteq> tab \<and> c \<noteq> double_quote" and "at_blank rest"
  shows "parse_argument False n (t @ rest) = (replicate n backslash @ t, rest)"
  using assms(1)
proof (induction t arbitrary: n)
  case Nil
  with assms(2) show ?case by (cases rest) (auto simp: at_blank_def command_line_codes)
next
  case (Cons c t)
  then show ?case
    by (cases "c = backslash") (simp_all add: replicate_app_Cons_same)
qed

lemma parse_quoted:
  assumes "at_blank rest"
  shows "parse_argument False 0 (quoted_argument a @ rest) = (a, rest)"
proof (cases "needs_quotes a")
  case True
  have no: "double_quote \<noteq> backslash" by (simp add: command_line_codes)
  have "parse_argument False 0 (double_quote # escaped 0 a @ double_quote # rest) = (a, rest)"
    using parse_escaped[of 0 a rest] no parse_at_blank[OF assms] by simp
  with True show ?thesis by (simp add: quoted_argument_def)
next
  case False
  then have "\<forall>c \<in> set a. c \<noteq> blank \<and> c \<noteq> tab \<and> c \<noteq> double_quote" by (auto simp: needs_quotes_def)
  from parse_plain[OF this assms, of 0] False show ?thesis by (simp add: quoted_argument_def)
qed

lemma quoted_argument_start: "\<exists>c cs. quoted_argument a = c # cs \<and> \<not> is_line_blank c"
proof (cases "needs_quotes a")
  case True
  then show ?thesis by (simp add: quoted_argument_def is_line_blank_def command_line_codes)
next
  case False
  then have "a \<noteq> []" "hd a \<noteq> blank" "hd a \<noteq> tab" by (auto simp: needs_quotes_def)
  with False show ?thesis by (cases a) (auto simp: quoted_argument_def is_line_blank_def)
qed

lemma command_line_from_append:
  "line \<noteq> [] \<Longrightarrow> command_line_from line args = line @ concat (map (\<lambda>a. blank # quoted_argument a) args)"
  by (induction args arbitrary: line) auto

lemma parse_next:
  assumes "at_blank rest" and "pre = [] \<or> pre = [blank]"
  shows "parse_command_line (pre @ quoted_argument a @ rest) = a # parse_command_line rest"
proof -
  obtain c cs where q: "quoted_argument a = c # cs" "\<not> is_line_blank c" using quoted_argument_start by blast
  have d: "dropWhile is_line_blank (pre @ quoted_argument a @ rest) = c # cs @ rest"
    using assms(2) q by (auto simp: is_line_blank_def)
  have "parse_argument False 0 (c # cs @ rest) = (a, rest)" using parse_quoted[OF assms(1), of a] q by simp
  then show ?thesis by (subst parse_command_line.simps) (simp add: d del: parse_argument.simps)
qed

lemma parse_command_line_empty: "parse_command_line [] = []"
  by (subst parse_command_line.simps) simp

lemma parse_built: "parse_command_line (concat (map (\<lambda>a. blank # quoted_argument a) args)) = args"
proof (induction args)
  case (Cons a args)
  have "at_blank (concat (map (\<lambda>a. blank # quoted_argument a) args))"
    by (cases args) (simp_all add: at_blank_def)
  from parse_next[OF this, of "[blank]" a] Cons show ?case by simp
qed (simp add: parse_command_line_empty)

text \<open>C13: whatever the arguments hold - blanks, quotes, backslashes, nothing - the child splits the command
  line built from them into exactly those arguments.\<close>

theorem command_line_roundtrip: "parse_command_line (build_command_line args) = args"
proof (cases args)
  case Nil
  then show ?thesis by (simp add: build_command_line_def parse_command_line_empty)
next
  case (Cons a rest)
  let ?rest = "concat (map (\<lambda>a. blank # quoted_argument a) rest)"
  have "build_command_line args = quoted_argument a @ ?rest"
    using quoted_argument_start[of a] Cons command_line_from_append by (auto simp: build_command_line_def)
  moreover have "at_blank ?rest" by (cases rest) (simp_all add: at_blank_def)
  ultimately show ?thesis using parse_next[of ?rest "[]" a] parse_built[of rest] Cons by simp
qed

text \<open>The editor's rule agrees with it on a file name: no quote, no tab, not empty, and no backslash at the
  end.\<close>

lemma escaped_plain:
  "double_quote \<notin> set t \<Longrightarrow> t \<noteq> [] \<Longrightarrow> last t \<noteq> backslash \<Longrightarrow> escaped n t = replicate n backslash @ t"
proof (induction t arbitrary: n)
  case (Cons c t)
  then show ?case
    by (cases "t = []") (auto simp: replicate_app_Cons_same)
qed simp

lemma quoted_file_agrees:
  assumes "t \<noteq> []" and "\<forall>c \<in> set t. c \<notin> {tab, 0x0A, 0x0B, double_quote}" and "last t \<noteq> backslash"
  shows "quoted_file t = quoted_argument t"
  using assms escaped_plain[of t 0] by (auto simp: quoted_file_def quoted_argument_def needs_quotes_def)

end
