(* ===== verification/Win32_Host.thy ===== *)
theory Win32_Host
  imports Win32 Command_Line Contracts
begin

text \<open>
  Running \<open>wsl.exe\<close> through the Win32 table (\<open>src/src/lib/platform/wsl_host.cpp\<close>): three pipes, a
  child process, a loop that drains its output and waits for it in slices, and the class
  \<open>WslExeHost\<close> on top; and the editor of \<open>editor.cpp\<close>. A pipe is drained until it is empty, which a
  child that keeps writing can put off for ever: partial functions, with the two things that can be
  said about them, when a run returns and how it does not.
\<close>

section \<open>Pipes\<close>

definition poll_slice_ms :: dword where "poll_slice_ms = 50"
definition read_chunk :: dword where "read_chunk = 8192"
definition CREATE_NO_WINDOW :: dword where "CREATE_NO_WINDOW = 0x08000000"

text \<open>\<open>make_pipe\<close> and the guards of the \<open>Pipe\<close> it fills: the body says whether it closed the write end
  itself, and what is left is closed after it, the write end first.\<close>

definition make_pipe :: "'w win32 \<Rightarrow> bool \<Rightarrow> 'w \<Rightarrow> (status \<times> handle \<times> handle) \<times> 'w" where
  "make_pipe api child_reads w =
     (case create_pipe api w of
        ((ok, r, wr), w1) \<Rightarrow>
          if \<not> ok then
            (case last_error api ''create a pipe for the wsl.exe output'' w1 of (e, w2) \<Rightarrow> ((e, r, wr), w2))
          else
            (case set_handle_information api (if child_reads then wr else r) w1 of
               (private, w2) \<Rightarrow>
                 if \<not> private then
                   (case last_error api ''configure the wsl.exe output pipe'' w2 of (e, w3) \<Rightarrow> ((e, r, wr), w3))
                 else ((Inr (), r, wr), w2)))"

definition with_pipe ::
  "'w win32 \<Rightarrow> bool \<Rightarrow> (handle \<Rightarrow> handle \<Rightarrow> 'w \<Rightarrow> (((error + 'a) \<times> bool) \<times> 'w) option) \<Rightarrow>
     'w \<Rightarrow> (((error + 'a) \<times> bool) \<times> 'w) option" where
  "with_pipe api child_reads body w =
     (case make_pipe api child_reads w of
        ((ready, r, wr), w1) \<Rightarrow>
          map_option (\<lambda>((result, closed), w2).
              ((result, closed), close_scoped api r (if closed then w2 else close_scoped api wr w2)))
            (case ready of
               Inl e \<Rightarrow> Some ((Inl e, False), w1)
             | Inr _ \<Rightarrow> body r wr w1))"

partial_function (option) drain :: "'w win32 \<Rightarrow> handle \<Rightarrow> string \<Rightarrow> 'w \<Rightarrow> (string \<times> 'w) option" where
  "drain api pipe so_far w =
     (case peek_named_pipe api pipe w of
        ((ok, available), w1) \<Rightarrow>
          if \<not> (ok \<and> 0 < available) then Some (so_far, w1)
          else
            (case read_file api pipe (unat (if available < read_chunk then available else read_chunk)) w1 of
               ((got, bytes), w2) \<Rightarrow>
                 if \<not> got \<or> bytes = [] then Some (so_far, w2)
                 else drain api pipe (so_far @ bytes) w2))"

declare drain.simps [code]

text \<open>Both streams, the output first.\<close>

definition drain_both ::
  "'w win32 \<Rightarrow> handle \<Rightarrow> handle \<Rightarrow> string \<times> string \<Rightarrow> 'w \<Rightarrow> ((string \<times> string) \<times> 'w) option" where
  "drain_both api out err so_far w =
     (case drain api out (fst so_far) w of
        None \<Rightarrow> None
      | Some (output, w1) \<Rightarrow>
          (case drain api err (snd so_far) w1 of
             None \<Rightarrow> None
           | Some (errors, w2) \<Rightarrow> Some ((output, errors), w2)))"

section \<open>Running a process\<close>

record wsl_raw_result =
  raw_exit_code :: int
  raw_output :: string
  raw_error :: string

definition timed_out :: "int \<Rightarrow> error + 'a" where
  "timed_out timeout =
     fail Generic (''wsl.exe did not finish within '' @ show_int timeout @ '' ms'')
       (''re-run with a longer timeout, or check whether WSL is responding with '' @ ''`wsl --status`'')"

text \<open>The loop: drain, then wait for a slice of what remains; a slice is a \<open>DWORD\<close>.\<close>

definition wait_slice :: "int \<Rightarrow> dword" where
  "wait_slice remaining = (if remaining < uint poll_slice_ms then of_int remaining else poll_slice_ms)"

partial_function (option) wait_for_child ::
  "'w win32 \<Rightarrow> handle \<Rightarrow> handle \<Rightarrow> handle \<Rightarrow> int \<Rightarrow> int \<Rightarrow> string \<times> string \<Rightarrow> 'w \<Rightarrow>
     ((error + string \<times> string) \<times> 'w) option" where
  "wait_for_child api process out err timeout remaining so_far w =
     (case drain_both api out err so_far w of
        None \<Rightarrow> None
      | Some (streams, w1) \<Rightarrow>
          (case wait_for_single_object api process (wait_slice remaining) w1 of
             (waited, w2) \<Rightarrow>
               if waited = WAIT_FAILED then Some (last_error api ''wait for wsl.exe to finish'' w2)
               else if waited = WAIT_OBJECT_0 then Some (Inr streams, w2)
               else if remaining - uint (wait_slice remaining) \<le> 0 then
                 Some (timed_out timeout, snd (terminate_process api process 1 w2))
               else
                 wait_for_child api process out err timeout (remaining - uint (wait_slice remaining)) streams w2))"

declare wait_for_child.simps [code]

text \<open>From the running child to its result.\<close>

definition collect ::
  "'w win32 \<Rightarrow> handle \<Rightarrow> handle \<Rightarrow> handle \<Rightarrow> int \<Rightarrow> 'w \<Rightarrow> ((error + wsl_raw_result) \<times> 'w) option" where
  "collect api process out err timeout w =
     (case wait_for_child api process out err timeout timeout ([], []) w of
        None \<Rightarrow> None
      | Some (Inl e, w1) \<Rightarrow> Some (Inl e, w1)
      | Some (Inr so_far, w1) \<Rightarrow>
          (case drain_both api out err so_far w1 of
             None \<Rightarrow> None
           | Some ((output, errors), w2) \<Rightarrow>
               (case get_exit_code_process api process w2 of
                  ((ok, code), w3) \<Rightarrow>
                    if \<not> ok then Some (last_error api ''read the exit code of wsl.exe'' w3)
                    else
                      Some (Inr \<lparr>raw_exit_code = sint code, raw_output = output, raw_error = errors\<rparr>, w3))))"

definition wsl_not_started :: "dword \<Rightarrow> error + 'a" where
  "wsl_not_started code =
     Inl ((error_from_win32 code ''run wsl.exe'')
       \<lparr>err_remedy := ''check that WSL is installed and on PATH; `wsl --status` should answer''\<rparr>)"

text \<open>The child gets the read end of the input and the write ends of the outputs; once it runs the write
  ends of all three are closed, in that order.\<close>

definition start_wsl ::
  "'w win32 \<Rightarrow> wstr list \<Rightarrow> int \<Rightarrow> handle \<times> handle \<Rightarrow> handle \<times> handle \<Rightarrow> handle \<times> handle \<Rightarrow> 'w \<Rightarrow>
     (((error + wsl_raw_result) \<times> bool) \<times> 'w) option" where
  "start_wsl api arguments timeout input output errors w =
     (case create_process api (c_str (build_command_line (wide ''wsl.exe'' # arguments))) True CREATE_NO_WINDOW
             (Some (fst input, snd output, snd errors)) w of
        ((started, process, thread), w1) \<Rightarrow>
          if \<not> started then
            (case get_last_error api w1 of (code, w2) \<Rightarrow> Some ((wsl_not_started code, False), w2))
          else
            map_option (\<lambda>(r, w3). ((r, True), close_scoped api process (close_scoped api thread w3)))
              (collect api process (fst output) (fst errors) timeout
                (close_scoped api (snd errors) (close_scoped api (snd output) (close_scoped api (snd input) w1)))))"

definition run_wsl ::
  "'w win32 \<Rightarrow> wstr list \<Rightarrow> int \<Rightarrow> 'w \<Rightarrow> ((error + wsl_raw_result) \<times> 'w) option" where
  "run_wsl api arguments timeout w =
     map_option (\<lambda>((r, _), w1). (r, w1))
       (with_pipe api True (\<lambda>in_read in_write.
          with_pipe api False (\<lambda>out_read out_write.
            with_pipe api False (\<lambda>err_read err_write.
              start_wsl api arguments timeout (in_read, in_write) (out_read, out_write) (err_read, err_write)))) w)"

section \<open>The class\<close>

definition decode_stream :: "string \<Rightarrow> string" where
  "decode_stream raw = (if CHR 0x00 \<notin> set raw then raw else decode_utf16le raw)"

definition run_for_status :: "'w win32 \<Rightarrow> wstr list \<Rightarrow> int \<Rightarrow> string \<Rightarrow> 'w \<Rightarrow> (status \<times> 'w) option" where
  "run_for_status api arguments timeout what =
     attempt_wait (run_wsl api arguments timeout) (\<lambda>result. at_once (ret
       (if raw_exit_code result \<noteq> 0 then
          fail Generic (what @ '' failed (wsl.exe exited '' @ show_int (raw_exit_code result) @ '')'')
            ''run the same command by hand to see what WSL reports''
        else Inr ())))"

definition control_timeout :: int where
  "control_timeout = 60000"

definition host_running :: "'w win32 \<Rightarrow> 'w \<Rightarrow> ((error + string list) \<times> 'w) option" where
  "host_running api =
     attempt_wait (run_wsl api [wide ''--list'', wide ''--running'', wide ''--quiet''] control_timeout) (\<lambda>result.
     at_once (ret
       (if raw_exit_code result \<noteq> 0 \<and> raw_output result \<noteq> [] then
          fail Generic (''wsl.exe --list --running exited '' @ show_int (raw_exit_code result))
            ''run `wsl --list --running` by hand to see what WSL reports''
        else Inr (parse_distribution_list (raw_output result)))))"

definition host_terminate :: "'w win32 \<Rightarrow> string \<Rightarrow> 'w \<Rightarrow> (status \<times> 'w) option" where
  "host_terminate api name =
     run_for_status api [wide ''--terminate'', to_wide name] control_timeout (''terminating '' @ name)"

definition host_shutdown :: "'w win32 \<Rightarrow> 'w \<Rightarrow> (status \<times> 'w) option" where
  "host_shutdown api = run_for_status api [wide ''--shutdown''] control_timeout ''shutting WSL down''"

definition guest_arguments :: "string \<Rightarrow> string list \<Rightarrow> wstr list" where
  "guest_arguments name argv =
     [wide ''-d'', to_wide name, wide ''-u'', wide ''root'', wide ''--exec''] @ map to_wide argv"

definition host_run_as_root ::
  "'w win32 \<Rightarrow> string \<Rightarrow> string list \<Rightarrow> int \<Rightarrow> 'w \<Rightarrow> ((error + wsl_command_result) \<times> 'w) option" where
  "host_run_as_root api name argv timeout =
     (case argv of
        [] \<Rightarrow> at_once (ret (fail Usage ''no command was given to run in the distribution''
                 ''pass the absolute path of the guest program to run''))
      | program # _ \<Rightarrow>
          if \<not> starts_with program ''/'' then
            at_once (ret (fail Usage (''`'' @ program @ ''` is not an absolute path in the distribution'')
              ''wsl --exec does not search PATH; pass a full path such as /usr/sbin/fstrim''))
          else
            attempt_wait (run_wsl api (guest_arguments name argv) timeout) (\<lambda>raw. at_once (ret
              (Inr \<lparr>exit_code = raw_exit_code raw, standard_output = decode_stream (raw_output raw),
                standard_error = decode_stream (raw_error raw)\<rparr>))))"

definition host_mount_bare :: "'w win32 \<Rightarrow> (path \<Rightarrow> string) \<Rightarrow> path \<Rightarrow> 'w \<Rightarrow> (status \<times> 'w) option" where
  "host_mount_bare api narrow vhdx =
     run_for_status api [wide ''--mount'', vhdx, wide ''--vhd'', wide ''--bare''] control_timeout
       (''attaching '' @ narrow vhdx)"

definition host_unmount :: "'w win32 \<Rightarrow> (path \<Rightarrow> string) \<Rightarrow> path \<Rightarrow> 'w \<Rightarrow> (status \<times> 'w) option" where
  "host_unmount api narrow vhdx =
     run_for_status api [wide ''--unmount'', vhdx] control_timeout (''detaching '' @ narrow vhdx)"

text \<open>\<open>WslExeHost\<close>; where a run does not return there is no result to speak of.\<close>

definition wsl_exe_host :: "'w win32 \<Rightarrow> (path \<Rightarrow> string) \<Rightarrow> 'w IWslHost" where
  "wsl_exe_host api narrow =
     \<lparr>running = (\<lambda>w. the (host_running api w)),
      terminate = (\<lambda>name w. the (host_terminate api name w)),
      shutdown_wsl = (\<lambda>w. the (host_shutdown api w)),
      run_as_root = (\<lambda>name argv timeout w. the (host_run_as_root api name argv timeout w)),
      mount_bare = (\<lambda>p w. the (host_mount_bare api narrow p w)),
      unmount = (\<lambda>p w. the (host_unmount api narrow p w))\<rparr>"

section \<open>The editor\<close>

definition launch_editor :: "'w win32 \<Rightarrow> (path \<Rightarrow> string) \<Rightarrow> string \<Rightarrow> path \<Rightarrow> 'w \<Rightarrow> status \<times> 'w" where
  "launch_editor api narrow command p w =
     (case create_process api (c_str (to_wide command @ [blank] @ quoted_file p)) False 0 None w of
        ((started, process, thread), w1) \<Rightarrow>
          if \<not> started then
            (case get_last_error api w1 of
               (code, w2) \<Rightarrow>
                 (Inl ((error_from_win32 code (''run '' @ command))
                   \<lparr>err_remedy := ''set %EDITOR% to something on PATH, or edit '' @ narrow p @ '' by hand''\<rparr>), w2))
          else
            closing api process (closing api thread (\<lambda>w1.
              case wait_for_single_object api process INFINITE w1 of
                (waited, w2) \<Rightarrow>
                  if waited = WAIT_FAILED then last_error api (''wait for '' @ command @ '' to close'') w2
                  else (Inr (), w2))) w1)"

section \<open>A run returns\<close>

text \<open>Pipes that a reader empties: \<open>pending\<close> is what a pipe still holds while it is being drained. What the
  child writes between two drains does not matter.\<close>

locale pipe_contract =
  fixes api :: "'w win32"
    and pending :: "'w \<Rightarrow> handle \<Rightarrow> nat"
  assumes peek_takes_nothing: "peek_named_pipe api h w = (available, w') \<Longrightarrow> pending w' h = pending w h"
    and read_drains:
      "read_file api h room w = ((True, bytes), w') \<Longrightarrow> bytes \<noteq> [] \<Longrightarrow> pending w' h < pending w h"
begin

lemma drain_returns: "drain api pipe so_far w \<noteq> None"
proof (induction "pending w pipe" arbitrary: so_far w rule: less_induct)
  case less
  obtain ok available w1 where p: "peek_named_pipe api pipe w = ((ok, available), w1)" by (metis surj_pair)
  obtain got bytes w2 where r:
    "read_file api pipe (unat (if available < read_chunk then available else read_chunk)) w1 = ((got, bytes), w2)"
    by (metis surj_pair)
  have "pending w2 pipe < pending w pipe" if "got" "bytes \<noteq> []"
    using read_drains[of pipe _ w1 bytes w2] r that peek_takes_nothing[OF p] by simp
  with less p r show ?case by (subst drain.simps) auto
qed

lemma drain_both_returns: "drain_both api out err so_far w \<noteq> None"
proof -
  obtain o1 w1 where "drain api out (fst so_far) w = Some (o1, w1)" using drain_returns by fast
  moreover obtain e1 w2 where "drain api err (snd so_far) w1 = Some (e1, w2)" using drain_returns by fast
  ultimately show ?thesis by (simp add: drain_both_def)
qed

lemma wait_for_child_returns: "wait_for_child api process out err timeout remaining so_far w \<noteq> None"
proof (induction "nat remaining" arbitrary: remaining so_far w rule: less_induct)
  case less
  obtain streams w1 where d: "drain_both api out err so_far w = Some (streams, w1)"
    using drain_both_returns by fast
  obtain waited w2 where v: "wait_for_single_object api process (wait_slice remaining) w1 = (waited, w2)"
    by (metis surj_pair)
  have "nat (remaining - uint (wait_slice remaining)) < nat remaining"
    if "0 < remaining - uint (wait_slice remaining)"
  proof -
    have nonneg: "0 \<le> uint (wait_slice remaining)" by simp
    then have "0 < remaining" using that by linarith
    have "0 < uint (wait_slice remaining)"
    proof (cases "remaining < 50")
      case True
      then have "uint (wait_slice remaining) = remaining"
        using \<open>0 < remaining\<close> by (simp add: wait_slice_def poll_slice_ms_def uint_word_of_int)
      then show ?thesis using \<open>0 < remaining\<close> by simp
    next
      case False
      then show ?thesis by (simp add: wait_slice_def poll_slice_ms_def)
    qed
    then show ?thesis using that by simp
  qed
  with less d v show ?case by (subst wait_for_child.simps) auto
qed

lemma collect_returns: "collect api process out err timeout w \<noteq> None"
proof -
  obtain r w1 where a: "wait_for_child api process out err timeout timeout ([], []) w = Some (r, w1)"
    using wait_for_child_returns by fast
  show ?thesis
  proof (cases r)
    case (Inl e)
    with a show ?thesis by (simp add: collect_def)
  next
    case (Inr so_far)
    obtain o1 e1 w2 where "drain_both api out err so_far w1 = Some ((o1, e1), w2)"
      using drain_both_returns by fast
    with a Inr show ?thesis by (simp add: collect_def split: prod.split)
  qed
qed

lemma with_pipe_returns:
  "(\<And>r wr w. body r wr w \<noteq> None) \<Longrightarrow> with_pipe api child_reads body w \<noteq> None"
  by (auto simp: with_pipe_def split: prod.split sum.split)

lemma start_wsl_returns: "start_wsl api arguments timeout input output errors w \<noteq> None"
  using collect_returns by (auto simp: start_wsl_def split: prod.split)

lemma run_wsl_returns_always: "run_wsl api arguments timeout w \<noteq> None"
  unfolding run_wsl_def by (simp add: with_pipe_returns start_wsl_returns)

text \<open>So does every method of the class.\<close>

lemma host_returns:
  "comes_back (host_running api)"
  "comes_back (host_terminate api name)"
  "comes_back (host_shutdown api)"
  "comes_back (host_run_as_root api name argv timeout)"
  "comes_back (host_mount_bare api narrow p)"
  "comes_back (host_unmount api narrow p)"
proof -
  have run: "comes_back (run_wsl api arguments timeout)" for arguments timeout
    using run_wsl_returns_always by (simp add: comes_back_def)
  have status: "comes_back (run_for_status api arguments timeout what)" for arguments timeout what
    unfolding run_for_status_def by (intro comes_back_rules run)
  show "comes_back (host_running api)" unfolding host_running_def by (intro comes_back_rules run)
  show "comes_back (host_run_as_root api name argv timeout)"
    unfolding host_run_as_root_def by (auto split: list.split intro!: comes_back_rules run)
  show "comes_back (host_terminate api name)" "comes_back (host_shutdown api)"
    "comes_back (host_mount_bare api narrow p)" "comes_back (host_unmount api narrow p)"
    unfolding host_terminate_def host_shutdown_def host_mount_bare_def host_unmount_def by (rule status)+
qed

end

text \<open>A child that always has more to say is never waited for: the timeout is not looked at before the
  pipe is empty.\<close>

lemma chatty_drain:
  assumes "\<And>w. chatty w \<Longrightarrow> \<exists>n w1 bytes w2. peek_named_pipe api pipe w = ((True, n), w1) \<and> 0 < n \<and>
      read_file api pipe (unat (if n < read_chunk then n else read_chunk)) w1 = ((True, bytes), w2) \<and>
      bytes \<noteq> [] \<and> chatty w2"
    and "chatty w"
  shows "drain api pipe so_far w = None"
proof (rule ccontr)
  assume "drain api pipe so_far w \<noteq> None"
  then obtain r where "drain api pipe so_far w = Some r" by blast
  have "api = api \<and> pipe = pipe \<and> chatty w \<longrightarrow> False" if "drain api pipe so_far w = Some r" for r
    by (rule drain.raw_induct[rotated, where P = "\<lambda>api' pipe' so_far w r. api' = api \<and> pipe' = pipe \<and> chatty w \<longrightarrow> False", OF that])
      (use assms(1) in \<open>fastforce split: prod.splits if_splits\<close>)
  with assms(2) \<open>drain api pipe so_far w = Some r\<close> show False by blast
qed

lemma chatty_child_never_times_out:
  assumes "\<And>w. chatty w \<Longrightarrow> \<exists>n w1 bytes w2. peek_named_pipe api out w = ((True, n), w1) \<and> 0 < n \<and>
      read_file api out (unat (if n < read_chunk then n else read_chunk)) w1 = ((True, bytes), w2) \<and>
      bytes \<noteq> [] \<and> chatty w2"
    and "chatty w"
  shows "wait_for_child api process out err timeout remaining so_far w = None"
  by (subst wait_for_child.simps) (simp add: drain_both_def chatty_drain[OF assms])


section \<open>A run leaves no handle open\<close>

text \<open>\<open>live\<close> is the set of open handles. A call that fails hands out none.\<close>

locale handle_contract =
  fixes api :: "'w win32"
    and live :: "'w \<Rightarrow> handle set"
  assumes no_handle: "null_handle \<notin> live w" "invalid_handle_value \<notin> live w"
    and close_ends: "close_handle api h w = (ok, w') \<Longrightarrow> live w' = live w - {h}"
    and pipe_made:
      "create_pipe api w = ((True, r, wr), w') \<Longrightarrow>
       r \<noteq> wr \<and> r \<notin> live w \<and> wr \<notin> live w \<and> live w' = live w \<union> {r, wr}"
    and pipe_refused:
      "create_pipe api w = ((False, r, wr), w') \<Longrightarrow> r = null_handle \<and> wr = null_handle \<and> live w' = live w"
    and process_made:
      "create_process api line inherit flags std w = ((True, process, thread), w') \<Longrightarrow>
       process \<notin> live w \<and> thread \<notin> live w \<and> live w' = live w \<union> {process, thread}"
    and process_refused:
      "create_process api line inherit flags std w = ((False, process, thread), w') \<Longrightarrow> live w' = live w"
    and others_keep:
      "get_last_error api w = (code, w') \<Longrightarrow> live w' = live w"
      "set_handle_information api h w = (ok, w') \<Longrightarrow> live w' = live w"
      "peek_named_pipe api h w = (available, w') \<Longrightarrow> live w' = live w"
      "read_file api h room w = (got, w') \<Longrightarrow> live w' = live w"
      "wait_for_single_object api h ms w = (code, w') \<Longrightarrow> live w' = live w"
      "terminate_process api h how w = (ok, w') \<Longrightarrow> live w' = live w"
      "get_exit_code_process api h w = (answer, w') \<Longrightarrow> live w' = live w"
begin

lemma live_close_scoped [simp]: "live (close_scoped api h w) = live w - {h}"
  using no_handle close_ends[of h w] by (cases "close_handle api h w") (auto simp: close_scoped_def)

lemma live_last_error: "last_error api doing w = (r, w') \<Longrightarrow> live w' = live w"
  using others_keep(1) by (auto simp: last_error_def split: prod.splits)

lemma live_drain:
  assumes "drain api pipe so_far w = Some (s, w')"
  shows "live w' = live w"
proof -
  have "api = api \<longrightarrow> live (snd (s, w')) = live w"
    by (rule drain.raw_induct[rotated, where P = "\<lambda>api' pipe so_far w r. api' = api \<longrightarrow> live (snd r) = live w", OF assms])
      (force split: prod.splits if_splits dest!: others_keep(3,4))
  then show ?thesis by simp
qed

lemma live_drain_both: "drain_both api out err so_far w = Some (s, w') \<Longrightarrow> live w' = live w"
  by (auto simp: drain_both_def split: option.splits prod.splits dest!: live_drain)

lemma live_wait_for_child:
  assumes "wait_for_child api process out err timeout remaining so_far w = Some (r, w')"
  shows "live w' = live w"
proof -
  have terminated: "live (snd (terminate_process api process 1 w)) = live w" for process w
    using others_keep(6) by (metis prod.collapse)
  have "api = api \<longrightarrow> live (snd (r, w')) = live w"
    by (rule wait_for_child.raw_induct[rotated, where P = "\<lambda>api' process out err timeout remaining so_far w r.
        api' = api \<longrightarrow> live (snd r) = live w", OF assms])
      (force simp: terminated split: prod.splits if_splits option.splits
        dest!: live_drain_both others_keep(5) live_last_error)
  then show ?thesis by simp
qed

lemma live_collect: "collect api process out err timeout w = Some (r, w') \<Longrightarrow> live w' = live w"
  by (auto simp: collect_def split: option.splits sum.splits prod.splits if_splits
      dest!: live_wait_for_child live_drain_both others_keep(7) live_last_error)

lemma live_start_wsl:
  assumes "start_wsl api arguments timeout input outputs errors w = Some ((r, closed), w')"
  shows "live w' = live w - (if closed then {snd input, snd outputs, snd errors} else {})"
proof -
  obtain started process thread w1 where c:
    "create_process api (c_str (build_command_line (wide ''wsl.exe'' # arguments))) True CREATE_NO_WINDOW
       (Some (fst input, snd outputs, snd errors)) w = ((started, process, thread), w1)" by (metis surj_pair)
  show ?thesis
  proof (cases started)
    case True
    have made: "process \<notin> live w" "thread \<notin> live w" "live w1 = live w \<union> {process, thread}"
      using process_made c True by simp_all
    from assms c True obtain r' w2 where g:
      "collect api process (fst outputs) (fst errors) timeout
         (close_scoped api (snd errors) (close_scoped api (snd outputs) (close_scoped api (snd input) w1))) = Some (r', w2)"
      "closed" "w' = close_scoped api process (close_scoped api thread w2)"
      by (auto simp: start_wsl_def)
    with live_collect[OF g(1)] made show ?thesis by auto
  next
    case False
    then have "live w1 = live w" using process_refused c by simp
    with assms c False show ?thesis
      by (auto simp: start_wsl_def split: prod.splits dest!: others_keep(1))
  qed
qed

lemma live_make_pipe:
  assumes "make_pipe api child_reads w = ((ready, r, wr), w')"
  shows "live w' - {r, wr} = live w"
proof -
  obtain ok r' wr' w1 where p: "create_pipe api w = ((ok, r', wr'), w1)" by (metis surj_pair)
  have "live w1 - {r', wr'} = live w"
    using p pipe_made[of w r' wr' w1] pipe_refused[of w r' wr' w1] no_handle by (cases ok) auto
  then show ?thesis
    using assms p by (auto simp: make_pipe_def split: if_splits prod.splits
        dest!: live_last_error others_keep(2))
qed

lemma live_with_pipe:
  assumes run: "with_pipe api child_reads body w = Some ((res, closed), w')"
    and body: "\<And>r wr w1 res closed w2. body r wr w1 = Some ((res, closed), w2) \<Longrightarrow>
      live w2 = live w1 - (if closed then insert wr W else {})"
  shows "live w' = live w - (if closed then W else {})"
proof -
  obtain ready r wr w1 where p: "make_pipe api child_reads w = ((ready, r, wr), w1)" by (metis surj_pair)
  note made = live_make_pipe[OF p]
  show ?thesis
  proof (cases ready)
    case (Inl e)
    with run p have "live w' = live w1 - {wr} - {r}" "\<not> closed" by (auto simp: with_pipe_def)
    moreover have "live w1 - {wr} - {r} = live w1 - {r, wr}" by blast
    ultimately show ?thesis using made by simp
  next
    case (Inr u)
    with run p obtain w2 where b: "body r wr w1 = Some ((res, closed), w2)"
      "w' = close_scoped api r (if closed then w2 else close_scoped api wr w2)"
      by (auto simp: with_pipe_def)
    have w2: "live w2 = live w1 - (if closed then insert wr W else {})" by (rule body[OF b(1)])
    show ?thesis
    proof (cases closed)
      case True
      with b(2) w2 have "live w' = live w1 - {r, wr} - W" by auto
      with made True show ?thesis by simp
    next
      case False
      with b(2) w2 have "live w' = live w1 - {r, wr}" by auto
      with made False show ?thesis by simp
    qed
  qed
qed

lemma live_run_wsl: "run_wsl api arguments timeout w = Some (r, w') \<Longrightarrow> live w' = live w"
proof -
  assume "run_wsl api arguments timeout w = Some (r, w')"
  then obtain closed where run:
    "with_pipe api True (\<lambda>in_read in_write.
       with_pipe api False (\<lambda>out_read out_write.
         with_pipe api False (\<lambda>err_read err_write.
           start_wsl api arguments timeout (in_read, in_write) (out_read, out_write) (err_read, err_write)))) w
     = Some ((r, closed), w')" by (auto simp: run_wsl_def)
  have "live w' = live w - (if closed then {} else {})"
    by (rule live_with_pipe[OF run], erule live_with_pipe, erule live_with_pipe, drule live_start_wsl)
      (simp add: insert_commute)
  then show ?thesis by simp
qed

end



section \<open>A child in memory\<close>

record host_world =
  hw_live :: "handle list"
  hw_peer :: "handle \<Rightarrow> handle"
  hw_held :: "handle \<Rightarrow> string"
  hw_says :: string
  hw_code :: dword

definition hw_handles :: "host_world \<Rightarrow> handle set" where
  "hw_handles w = {h. h \<in> set (hw_live w) \<and> h \<noteq> null_handle \<and> h \<noteq> invalid_handle_value}"

definition hw_fresh :: "host_world \<Rightarrow> handle list" where
  "hw_fresh w = filter (\<lambda>h. h \<notin> set (hw_live w)) [1, 2, 3, 4, 5, 6, 7, 8]"

text \<open>The child says its piece into the pipe whose write end it is given, and has exited by the first
  wait.\<close>

definition memory_host :: "host_world win32" where
  "memory_host = refusing_api
     \<lparr>close_handle := (\<lambda>h w. (True, w\<lparr>hw_live := filter (\<lambda>x. x \<noteq> h) (hw_live w)\<rparr>)),
      create_pipe := (\<lambda>w.
        case hw_fresh w of
          r # wr # _ \<Rightarrow>
            ((True, r, wr), w\<lparr>hw_live := r # wr # hw_live w, hw_peer := (hw_peer w)(wr := r), hw_held := (hw_held w)(r := [])\<rparr>)
        | _ \<Rightarrow> ((False, null_handle, null_handle), w)),
      create_process := (\<lambda>line inherit flags std w.
        case (std, hw_fresh w) of
          (Some (i, out, e), p # t # _) \<Rightarrow>
            ((True, p, t),
             w\<lparr>hw_live := p # t # hw_live w, hw_held := (hw_held w)(hw_peer w out := hw_says w)\<rparr>)
        | _ \<Rightarrow> ((False, null_handle, null_handle), w)),
      set_handle_information := (\<lambda>h w. (True, w)),
      peek_named_pipe := (\<lambda>h w. ((True, of_nat (length (hw_held w h))), w)),
      read_file := (\<lambda>h room w.
        ((True, take room (hw_held w h)), w\<lparr>hw_held := (hw_held w)(h := drop room (hw_held w h))\<rparr>)),
      wait_for_single_object := (\<lambda>h ms w. (WAIT_OBJECT_0, w)),
      get_exit_code_process := (\<lambda>h w. ((True, hw_code w), w))\<rparr>"

lemma hw_fresh_two:
  assumes "hw_fresh w = a # b # rest"
  shows "a \<noteq> b" "a \<notin> set (hw_live w)" "b \<notin> set (hw_live w)" "a \<noteq> null_handle" "b \<noteq> null_handle"
    "a \<noteq> invalid_handle_value" "b \<noteq> invalid_handle_value"
proof -
  have "distinct (hw_fresh w)" by (simp add: hw_fresh_def)
  then show "a \<noteq> b" using assms by simp
  have "set (hw_fresh w) \<subseteq> {1, 2, 3, 4, 5, 6, 7, 8} - set (hw_live w)" by (auto simp: hw_fresh_def)
  then have "a \<in> {1, 2, 3, 4, 5, 6, 7, 8} - set (hw_live w)" "b \<in> {1, 2, 3, 4, 5, 6, 7, 8} - set (hw_live w)"
    using assms by auto
  then show "a \<notin> set (hw_live w)" "b \<notin> set (hw_live w)" "a \<noteq> null_handle" "b \<noteq> null_handle"
    "a \<noteq> invalid_handle_value" "b \<noteq> invalid_handle_value"
    by (auto simp: null_handle_def invalid_handle_value_def)
qed

interpretation memory_pipes: pipe_contract memory_host "\<lambda>w h. length (hw_held w h)"
  by unfold_locales (auto simp: memory_host_def)

interpretation memory_handles: handle_contract memory_host hw_handles
proof
qed (auto simp: memory_host_def refusing_api_def hw_handles_def dest: hw_fresh_two
  split: option.splits list.splits prod.splits)

definition sample_host :: host_world where
  "sample_host =
     \<lparr>hw_live = [], hw_peer = (\<lambda>h. h), hw_held = (\<lambda>_. []), hw_says = utf16le_bytes [0x55, 0x0D, 0x0A], hw_code = 0\<rparr>"


text \<open>On that machine the host lists the distribution the child names.\<close>

lemma memory_host_running:
  "map_option fst (host_running memory_host sample_host) = Some (Inr [''U''])"
  by code_simp

end
