(* ===== verification/Win32_Disk.thy ===== *)
theory Win32_Disk
  imports Win32 Contracts
begin

text \<open>
  Virtual disks through the Win32 table (\<open>src/src/lib/platform/virtual_disk.cpp\<close>) and the clock
  (\<open>clock.cpp\<close>). A compaction runs in the kernel while the code polls it; the code must not return
  before the operation has ended, because the kernel writes into its frame. \<open>narrow\<close> is \<open>path::string\<close>.
\<close>

section \<open>Reading a disk\<close>

text \<open>\<open>sizeof(GET_VIRTUAL_DISK_INFO)\<close> and the offset of the parent's name in it, of the 64-bit Windows SDK.\<close>

definition info_bytes :: nat where "info_bytes = 32"
definition parent_header :: nat where "parent_header = 12"

text \<open>The name in a buffer of \<open>count\<close> structs, which need not be terminated.\<close>

definition parent_location :: "nat \<Rightarrow> wstr \<Rightarrow> wstr" where
  "parent_location count content =
     (let room = (count * info_bytes - parent_header) div 2
      in c_str (take room (content @ replicate room 0)))"

definition parent_of :: "'w win32 \<Rightarrow> handle \<Rightarrow> 'w \<Rightarrow> wstr \<times> 'w" where
  "parent_of api h w =
     (case get_virtual_disk_parent api h (of_nat info_bytes) w of
        ((code, needed, content), w1) \<Rightarrow>
          if code = ERROR_INSUFFICIENT_BUFFER then
            (let count = (unat needed + info_bytes - 1) div info_bytes in
             case get_virtual_disk_parent api h (of_nat (count * info_bytes)) w1 of
               ((code', _, content'), w2) \<Rightarrow>
                 (if code' = ERROR_SUCCESS then parent_location count content' else [], w2))
          else (if code = ERROR_SUCCESS then parent_location 1 content else [], w1))"

definition disk_information ::
  "'w win32 \<Rightarrow> (path \<Rightarrow> string) \<Rightarrow> handle \<Rightarrow> path \<Rightarrow> 'w \<Rightarrow> (error + virtual_disk_info) \<times> 'w" where
  "disk_information api narrow h p w =
     (case get_virtual_disk_size api h w of
        ((sizes, info), w1) \<Rightarrow>
          if sizes \<noteq> ERROR_SUCCESS then (Inl (error_from_win32 sizes (''read the size of '' @ narrow p)), w1)
          else
            (case parent_of api h w1 of
               (parent, w2) \<Rightarrow>
                 (Inr \<lparr>vd_virtual_size = ds_virtual_size info, vd_physical_size = ds_physical_size info,
                    vd_block_size = ds_block_size info, vd_sector_size = ds_sector_size info,
                    vd_parent_path = parent\<rparr>, w2)))"

section \<open>Compacting\<close>

definition progress_poll_interval_ms :: dword where "progress_poll_interval_ms = 250"
definition cancel_poll_interval_ms :: dword where "cancel_poll_interval_ms = 100"
definition cancel_poll_attempts :: nat where "cancel_poll_attempts = 100"

text \<open>Waiting for a cancelled operation, for so many attempts.\<close>

primrec await_stop :: "'w win32 \<Rightarrow> handle \<Rightarrow> handle \<Rightarrow> nat \<Rightarrow> 'w \<Rightarrow> 'w" where
  "await_stop api h event 0 w = w"
| "await_stop api h event (Suc attempts) w =
     (case wait_for_single_object api event cancel_poll_interval_ms w of
        (waited, w1) \<Rightarrow>
          if waited = WAIT_OBJECT_0 then w1
          else
            (case get_virtual_disk_operation_progress api h w1 of
               ((polled, raw), w2) \<Rightarrow>
                 if polled \<noteq> ERROR_SUCCESS \<or> vp_status raw \<noteq> ERROR_IO_PENDING then w2
                 else await_stop api h event attempts w2))"

definition abandon :: "'w win32 \<Rightarrow> handle \<Rightarrow> handle \<Rightarrow> 'w \<Rightarrow> 'w" where
  "abandon api h event w = await_stop api h event cancel_poll_attempts (snd (cancel_io_ex api h w))"

definition cancelled_compaction :: "string \<Rightarrow> error + 'a" where
  "cancelled_compaction name =
     fail Partial (''compaction of '' @ name @ '' was cancelled'')
       ''the disk is still usable; re-run to finish reclaiming space''"

text \<open>The loop, with the calls it has made of \<open>progress\<close>; \<open>name\<close> is the path as the messages print it.\<close>

partial_function (option) poll_compaction ::
  "'w win32 \<Rightarrow> string \<Rightarrow> handle \<Rightarrow> handle \<Rightarrow> progress_callback \<Rightarrow> disk_progress list \<Rightarrow> 'w \<Rightarrow>
     ((status \<times> disk_progress list) \<times> 'w) option" where
  "poll_compaction api name h event progress calls w =
     (case wait_for_single_object api event progress_poll_interval_ms w of
        (waited, w1) \<Rightarrow>
          if waited = WAIT_FAILED then
            (case get_last_error api w1 of
               (failure, w2) \<Rightarrow>
                 Some ((Inl (error_from_win32 failure (''wait for the compaction of '' @ name)), calls), abandon api h event w2))
          else
            (case get_virtual_disk_operation_progress api h w1 of
               ((polled, raw), w2) \<Rightarrow>
                 if polled \<noteq> ERROR_SUCCESS then
                   Some ((Inl (error_from_win32 polled (''read the compaction progress of '' @ name)), calls),
                         abandon api h event w2)
                 else if vp_status raw = ERROR_IO_PENDING then
                   (let now_at = \<lparr>progress_current = vp_current raw, progress_total = vp_completion raw\<rparr> in
                    if \<not> progress now_at then
                      Some ((cancelled_compaction name, calls @ [now_at]), abandon api h event w2)
                    else poll_compaction api name h event progress (calls @ [now_at]) w2)
                 else if vp_status raw \<noteq> ERROR_SUCCESS then
                   Some ((Inl (error_from_win32 (vp_status raw) (''compact '' @ name)), calls), w2)
                 else
                   Some ((Inr (), calls @ [\<lparr>progress_current = vp_completion raw, progress_total = vp_completion raw\<rparr>]), w2)))"

declare poll_compaction.simps [code]

definition compact_with_event ::
  "'w win32 \<Rightarrow> string \<Rightarrow> handle \<Rightarrow> handle \<Rightarrow> progress_callback \<Rightarrow> 'w \<Rightarrow>
     ((status \<times> disk_progress list) \<times> 'w) option" where
  "compact_with_event api name h event progress w =
     (case compact_virtual_disk api h event w of
        (started, w1) \<Rightarrow>
          if started \<noteq> ERROR_SUCCESS \<and> started \<noteq> ERROR_IO_PENDING then
            Some ((Inl (error_from_win32 started (''compact '' @ name)), []), w1)
          else if started = ERROR_SUCCESS then
            Some ((Inr (), [\<lparr>progress_current = 1, progress_total = 1\<rparr>]), w1)
          else poll_compaction api name h event progress [] w1)"

definition disk_compact ::
  "'w win32 \<Rightarrow> (path \<Rightarrow> string) \<Rightarrow> handle \<Rightarrow> path \<Rightarrow> progress_callback \<Rightarrow> 'w \<Rightarrow>
     ((status \<times> disk_progress list) \<times> 'w) option" where
  "disk_compact api narrow h p progress w =
     (case create_event api w of
        (event, w1) \<Rightarrow>
          if event = null_handle then
            (case last_error api ''create the event for the compaction'' w1 of (r, w2) \<Rightarrow> Some ((r, []), w2))
          else
            map_option (\<lambda>(r, w2). (r, close_scoped api event w2))
              (compact_with_event api (narrow p) h event progress w1))"

section \<open>The classes\<close>

definition win32_disk_handle :: "'w win32 \<Rightarrow> (path \<Rightarrow> string) \<Rightarrow> handle \<Rightarrow> path \<Rightarrow> 'w IVirtualDiskHandle" where
  "win32_disk_handle api narrow h p =
     \<lparr>information = disk_information api narrow h p,
      compact_disk = (\<lambda>progress w. the (disk_compact api narrow h p progress w)),
      close_disk = close_scoped api h\<rparr>"

definition win32_open_disk ::
  "'w win32 \<Rightarrow> (path \<Rightarrow> string) \<Rightarrow> path \<Rightarrow> 'w \<Rightarrow> (error + 'w IVirtualDiskHandle) \<times> 'w" where
  "win32_open_disk api narrow p w =
     (case open_virtual_disk api (c_str p) w of
        ((opened, h), w1) \<Rightarrow>
          if opened \<noteq> ERROR_SUCCESS then
            (Inl (error_from_win32 opened (''open the virtual disk '' @ narrow p)), close_scoped api h w1)
          else (Inr (win32_disk_handle api narrow h p), w1))"

definition win32_create_disk :: "'w win32 \<Rightarrow> (path \<Rightarrow> string) \<Rightarrow> path \<Rightarrow> u64 \<Rightarrow> 'w \<Rightarrow> status \<times> 'w" where
  "win32_create_disk api narrow p maximum_size w =
     (case create_virtual_disk api (c_str p) maximum_size w of
        ((created, h), w1) \<Rightarrow>
          (if created \<noteq> ERROR_SUCCESS
           then Inl (error_from_win32 created (''create the virtual disk '' @ narrow p)) else Inr (),
           close_scoped api h w1))"

definition win32_virtual_disk :: "'w win32 \<Rightarrow> (path \<Rightarrow> string) \<Rightarrow> 'w IVirtualDisk" where
  "win32_virtual_disk api narrow =
     \<lparr>open_disk = win32_open_disk api narrow, create_disk = win32_create_disk api narrow\<rparr>"

text \<open>The monotonic clock itself, \<open>steady\<close>, is the C++ library's.\<close>

definition clock_sleep_for :: "'w win32 \<Rightarrow> int \<Rightarrow> 'w \<Rightarrow> 'w" where
  "clock_sleep_for api ms = sleep api (of_int (max ms 0))"

definition system_clock :: "'w win32 \<Rightarrow> ('w \<Rightarrow> int \<times> 'w) \<Rightarrow> 'w IClock" where
  "system_clock api steady = \<lparr>now = steady, sleep_for = clock_sleep_for api\<rparr>"

section \<open>A compaction is over when the call returns\<close>

text \<open>\<open>busy\<close> is how many more polls the operation in the kernel will outlive, and \<open>finished\<close> says that a
  compaction has completed. A cancelled operation stops within the hundred polls the code allows it; a
  poll that fails means that there is no operation.\<close>

locale disk_service =
  fixes api :: "'w win32"
    and busy :: "'w \<Rightarrow> nat"
    and finished :: "'w \<Rightarrow> bool"
  assumes wait_passes: "wait_for_single_object api event ms w = (code, w') \<Longrightarrow> busy w' \<le> busy w - 1"
    and wait_signalled: "wait_for_single_object api event ms w = (WAIT_OBJECT_0, w') \<Longrightarrow> busy w' = 0"
    and poll_passes: "get_virtual_disk_operation_progress api h w = ((code, raw), w') \<Longrightarrow> busy w' \<le> busy w"
    and poll_failed:
      "get_virtual_disk_operation_progress api h w = ((code, raw), w') \<Longrightarrow> code \<noteq> ERROR_SUCCESS \<Longrightarrow> busy w' = 0"
    and poll_pending:
      "get_virtual_disk_operation_progress api h w = ((ERROR_SUCCESS, raw), w') \<Longrightarrow>
       (vp_status raw = ERROR_IO_PENDING \<longleftrightarrow> 0 < busy w') \<and> (vp_status raw = ERROR_SUCCESS \<longrightarrow> finished w')"
    and cancelled: "cancel_io_ex api h w = (ok, w') \<Longrightarrow> busy w' \<le> 100"
    and event_made: "create_event api w = (event, w') \<Longrightarrow> busy w' = busy w"
    and compaction_started:
      "compact_virtual_disk api h event w = (code, w') \<Longrightarrow> code \<noteq> ERROR_IO_PENDING \<Longrightarrow> busy w' = busy w"
    and compaction_done:
      "compact_virtual_disk api h event w = (ERROR_SUCCESS, w') \<Longrightarrow> finished w'"
    and error_keeps: "get_last_error api w = (code, w') \<Longrightarrow> busy w' = busy w"
    and close_keeps: "close_handle api h w = (ok, w') \<Longrightarrow> busy w' = busy w \<and> (finished w \<longrightarrow> finished w')"
begin

lemma await_stop_settles: "busy w \<le> attempts \<Longrightarrow> busy (await_stop api h event attempts w) = 0"
proof (induction attempts arbitrary: w)
  case (Suc attempts)
  obtain waited w1 where v: "wait_for_single_object api event cancel_poll_interval_ms w = (waited, w1)"
    by (metis surj_pair)
  obtain polled raw w2 where p: "get_virtual_disk_operation_progress api h w1 = ((polled, raw), w2)"
    by (metis surj_pair)
  have "busy w2 \<le> attempts" using wait_passes[OF v] poll_passes[OF p] Suc.prems by simp
  moreover have "busy w1 = 0" if "waited = WAIT_OBJECT_0" using wait_signalled v that by simp
  moreover have "busy w2 = 0" if "polled \<noteq> ERROR_SUCCESS \<or> vp_status raw \<noteq> ERROR_IO_PENDING"
    using that poll_failed[OF p] poll_pending p by (cases "polled = ERROR_SUCCESS") auto
  ultimately show ?case using v p Suc.IH by simp
qed simp

lemma abandon_settles: "busy (abandon api h event w) = 0"
proof -
  have "busy (snd (cancel_io_ex api h w)) \<le> 100" using cancelled by (metis prod.collapse)
  then show ?thesis by (simp add: abandon_def cancel_poll_attempts_def await_stop_settles)
qed

lemma close_scoped_busy: "busy (close_scoped api h w) = busy w" "finished w \<Longrightarrow> finished (close_scoped api h w)"
  using close_keeps[of h w] by (cases "close_handle api h w"; simp add: close_scoped_def)+

lemma poll_compaction_settles:
  "\<exists>r calls' w'. poll_compaction api name h event progress calls w = Some ((r, calls'), w') \<and>
     busy w' = 0 \<and> (r = Inr () \<longrightarrow> finished w')"
proof (induction "busy w" arbitrary: calls w rule: less_induct)
  case less
  obtain waited w1 where v: "wait_for_single_object api event progress_poll_interval_ms w = (waited, w1)"
    by (metis surj_pair)
  obtain failure w3 where e: "get_last_error api w1 = (failure, w3)" by (metis surj_pair)
  obtain polled raw w2 where p: "get_virtual_disk_operation_progress api h w1 = ((polled, raw), w2)"
    by (metis surj_pair)
  show ?case
  proof (cases "waited = WAIT_FAILED")
    case True
    with v e abandon_settles show ?thesis by (subst poll_compaction.simps) simp
  next
    case waited: False
    show ?thesis
    proof (cases "polled = ERROR_SUCCESS")
      case False
      with v p waited abandon_settles show ?thesis by (subst poll_compaction.simps) simp
    next
      case True
      note state = poll_pending[OF p[unfolded True]]
      show ?thesis
      proof (cases "vp_status raw = ERROR_IO_PENDING")
        case False
        with v p waited True state show ?thesis by (subst poll_compaction.simps) auto
      next
        case pending: True
        let ?at = "\<lparr>progress_current = vp_current raw, progress_total = vp_completion raw\<rparr>"
        show ?thesis
        proof (cases "progress ?at")
          case False
          with v p waited True pending abandon_settles show ?thesis
            by (subst poll_compaction.simps) (simp add: cancelled_compaction_def Let_def)
        next
          case go: True
          have "busy w2 < busy w" using state pending wait_passes[OF v] poll_passes[OF p] by auto
          from less(1)[OF this, of "calls @ [?at]"] v p waited True pending go show ?thesis
            by (subst poll_compaction.simps) (simp add: Let_def)
        qed
      qed
    qed
  qed
qed

lemma disk_compact_settles:
  assumes "busy w = 0"
  shows "\<exists>r calls w'. disk_compact api narrow h p progress w = Some ((r, calls), w') \<and>
     busy w' = 0 \<and> (r = Inr () \<longrightarrow> finished w')"
proof -
  obtain event w1 where e: "create_event api w = (event, w1)" by (metis surj_pair)
  have b1: "busy w1 = 0" using event_made[OF e] assms by simp
  obtain started w2 where c: "compact_virtual_disk api h event w1 = (started, w2)" by (metis surj_pair)
  obtain r calls w3 where l: "poll_compaction api (narrow p) h event progress [] w2 = Some ((r, calls), w3)"
    "busy w3 = 0" "r = Inr () \<longrightarrow> finished w3" using poll_compaction_settles by blast
  obtain r' w4 where f: "last_error api ''create the event for the compaction'' w1 = (Inl r' :: status, w4)" "busy w4 = 0"
    using error_keeps[of w1] b1 by (cases "get_last_error api w1") (auto simp: last_error_def)
  consider "event = null_handle" | "event \<noteq> null_handle" "started = ERROR_IO_PENDING"
    | "event \<noteq> null_handle" "started \<noteq> ERROR_IO_PENDING" by blast
  then show ?thesis
  proof cases
    case 1
    with e f show ?thesis by (simp add: disk_compact_def)
  next
    case 2
    with e c l show ?thesis
      by (simp add: disk_compact_def compact_with_event_def close_scoped_busy win32_codes)
  next
    case 3
    have "busy w2 = 0" using compaction_started[OF c 3(2)] b1 by simp
    moreover have "finished w2" if "started = ERROR_SUCCESS" using compaction_done c that by simp
    ultimately show ?thesis using 3 e c
      by (simp add: disk_compact_def compact_with_event_def close_scoped_busy)
  qed
qed

end


section \<open>A service in memory\<close>

record disk_world =
  dw_busy :: nat
  dw_done :: bool
  dw_takes :: nat

definition dw_progress :: "disk_world \<Rightarrow> virtual_disk_progress" where
  "dw_progress w =
     \<lparr>vp_status = (if 0 < dw_busy w then ERROR_IO_PENDING else ERROR_SUCCESS),
      vp_current = of_nat (dw_takes w - dw_busy w), vp_completion = of_nat (dw_takes w)\<rparr>"

definition memory_disk :: "disk_world win32" where
  "memory_disk = refusing_api
     \<lparr>create_event := (\<lambda>w. (1, w)),
      close_handle := (\<lambda>h w. (True, w)),
      compact_virtual_disk := (\<lambda>h event w. (ERROR_IO_PENDING, w\<lparr>dw_busy := dw_takes w\<rparr>)),
      wait_for_single_object := (\<lambda>event ms w.
        (if dw_busy w \<le> 1 then WAIT_OBJECT_0 else 258, w\<lparr>dw_busy := dw_busy w - 1\<rparr>)),
      get_virtual_disk_operation_progress := (\<lambda>h w.
        ((ERROR_SUCCESS, dw_progress w), if 0 < dw_busy w then w else w\<lparr>dw_done := True\<rparr>)),
      cancel_io_ex := (\<lambda>h w. (True, w\<lparr>dw_busy := min 100 (dw_busy w)\<rparr>))\<rparr>"

interpretation memory_disk: disk_service memory_disk dw_busy dw_done
  by unfold_locales
    (auto simp: memory_disk_def refusing_api_def dw_progress_def win32_codes WAIT_OBJECT_0_def
      split: if_splits)

definition idle_disk :: disk_world where
  "idle_disk = \<lparr>dw_busy = 0, dw_done = False, dw_takes = 3\<rparr>"


text \<open>Where the progress cannot be read the code takes the operation for stopped, and returns while the
  kernel still runs it.\<close>

definition unreadable_disk :: "disk_world win32" where
  "unreadable_disk = memory_disk
     \<lparr>get_virtual_disk_operation_progress := (\<lambda>h w. ((ERROR_ACCESS_DENIED, dw_progress w), w))\<rparr>"

lemma unreadable_progress_leaves_operation:
  "map_option (\<lambda>(r, w'). dw_busy w')
     (disk_compact unreadable_disk (\<lambda>_. []) 7 [] (\<lambda>_. True) (idle_disk\<lparr>dw_takes := 5\<rparr>)) = Some 3"
  by code_simp

end
