(* ===== verification/Lookup.thy ===== *)
theory Lookup
  imports Distro "HOL-Library.Product_Lexorder" "HOL-Library.List_Lexorder" "HOL-Library.Char_ord"
begin

text \<open>
  The suggestions for a name that is not registered (\<open>src/src/cli/lookup.cpp\<close>): a case-insensitive
  edit distance computed row by row, and the names within it, closest first. The specification is a
  relation: \<open>edits n xs ys\<close> says that \<open>n\<close> insertions, deletions and replacements turn one into the other.
\<close>

section \<open>The code\<close>

definition suggestion_limit :: nat where
  "suggestion_limit = 4"

definition substitution_cost :: "char \<Rightarrow> char \<Rightarrow> nat" where
  "substitution_cost a b = (if tolower a = tolower b then 0 else 1)"

text \<open>The inner loop: the rest of the current row, from the value to its left and the previous row from
  the column before.\<close>

fun row_from :: "char \<Rightarrow> nat \<Rightarrow> nat list \<Rightarrow> string \<Rightarrow> nat list" where
  "row_from a before (diagonal # upper # rest) (b # right) =
     (let v = min (before + 1) (min (upper + 1) (diagonal + substitution_cost a b))
      in v # row_from a v (upper # rest) right)"
| "row_from a before previous right = []"

fun distance_rows :: "nat \<Rightarrow> string \<Rightarrow> string \<Rightarrow> nat list \<Rightarrow> nat list" where
  "distance_rows row [] right previous = previous"
| "distance_rows row (a # left) right previous =
     distance_rows (row + 1) left right (row # row_from a row previous right)"

definition distance :: "string \<Rightarrow> string \<Rightarrow> nat" where
  "distance left right = distance_rows 1 left right [0..<length right + 1] ! length right"

definition scored_names :: "string \<Rightarrow> string list \<Rightarrow> (nat \<times> string) list" where
  "scored_names name known =
     filter (\<lambda>(score, candidate). score \<le> suggestion_limit)
       (map (\<lambda>candidate. (distance name candidate, candidate)) known)"

definition nearest_names :: "string \<Rightarrow> string list \<Rightarrow> string list" where
  "nearest_names name known = map snd (sort (scored_names name known))"

definition distro_not_found :: "string \<Rightarrow> string list \<Rightarrow> error" where
  "distro_not_found name known =
     (let suggestions = nearest_names name known
      in mk_error DistroNotFound (''no distribution named '' @ name)
           (if suggestions \<noteq> [] then
              ''did you mean '' @ join_with '', '' suggestions @ ''? `wsldisk list` shows them all''
            else ''run `wsldisk list` to see what is registered''))"

section \<open>Edit distance\<close>

inductive edits :: "nat \<Rightarrow> string \<Rightarrow> string \<Rightarrow> bool" where
  done_edits: "edits 0 [] []"
| keep: "edits n xs ys \<Longrightarrow> edits n (x # xs) (x # ys)"
| replace: "edits n xs ys \<Longrightarrow> edits (Suc n) (x # xs) (y # ys)"
| delete: "edits n xs ys \<Longrightarrow> edits (Suc n) (x # xs) ys"
| insert: "edits n xs ys \<Longrightarrow> edits (Suc n) xs (y # ys)"

inductive_cases edits_NilE: "edits n [] ys"
inductive_cases edits_to_NilE: "edits n xs []"
inductive_cases edits_ConsE: "edits n (x # xs) (y # ys)"

fun edit_distance :: "string \<Rightarrow> string \<Rightarrow> nat" where
  "edit_distance [] ys = length ys"
| "edit_distance xs [] = length xs"
| "edit_distance (x # xs) (y # ys) =
     min (edit_distance (x # xs) ys + 1)
       (min (edit_distance xs (y # ys) + 1) (edit_distance xs ys + (if x = y then 0 else 1)))"

lemma edits_insert_all: "edits (length ys) [] ys"
  by (induction ys) (use edits.insert in \<open>fastforce intro: edits.intros\<close>)+

lemma edits_delete_all: "edits (length xs) xs []"
  by (induction xs) (use edits.delete in \<open>fastforce intro: edits.intros\<close>)+

lemma edits_edit_distance: "edits (edit_distance xs ys) xs ys"
proof (induction xs ys rule: edit_distance.induct)
  case (1 ys)
  then show ?case using edits_insert_all by simp
next
  case (2 x xs)
  then show ?case using edits_delete_all[of "x # xs"] by simp
next
  case (3 x xs y ys)
  have "edits (Suc (edit_distance (x # xs) ys)) (x # xs) (y # ys)" by (rule edits.insert) (rule 3(1))
  moreover have "edits (Suc (edit_distance xs (y # ys))) (x # xs) (y # ys)" by (rule edits.delete) (rule 3(2))
  moreover have "edits (edit_distance xs ys + (if x = y then 0 else 1)) (x # xs) (y # ys)"
    using edits.keep[OF 3(3), of x] edits.replace[OF 3(3), of x y] by auto
  ultimately show ?case by (simp add: min_def)
qed

lemma edits_length: "edits n xs ys \<Longrightarrow> length ys \<le> n + length xs \<and> length xs \<le> n + length ys"
  by (induction rule: edits.induct) auto

lemma edit_distance_Cons_left: "edit_distance (x # xs) ys \<le> edit_distance xs ys + 1"
proof (cases ys)
  case Nil
  then show ?thesis by (cases xs) simp_all
qed simp

lemma edit_distance_Cons_right: "edit_distance xs (y # ys) \<le> edit_distance xs ys + 1"
  by (cases xs) simp_all

lemma edit_distance_least: "edits n xs ys \<Longrightarrow> edit_distance xs ys \<le> n"
proof (induction rule: edits.induct)
  case (delete n xs ys x)
  then show ?case using edit_distance_Cons_left[of x xs ys] by simp
next
  case (insert n xs ys y)
  then show ?case using edit_distance_Cons_right[of xs y ys] by simp
qed auto

text \<open>Edits at the other end: the relation does not care which end one starts from.\<close>

lemma edits_snoc:
  assumes "edits n xs ys"
  shows "edits n (xs @ [x]) (ys @ [x])" "edits (Suc n) (xs @ [x]) (ys @ [y])"
    "edits (Suc n) (xs @ [x]) ys" "edits (Suc n) xs (ys @ [y])"
  using assms by (induction rule: edits.induct) (auto intro: edits.intros)

lemma edits_rev: "edits n xs ys \<Longrightarrow> edits n (rev xs) (rev ys)"
  by (induction rule: edits.induct) (auto intro: edits.done_edits edits_snoc)

lemma edits_rev_iff: "edits n (rev xs) (rev ys) \<longleftrightarrow> edits n xs ys"
  using edits_rev[of n xs ys] edits_rev[of n "rev xs" "rev ys"] by auto

section \<open>The rows compute it\<close>

text \<open>The distance of two prefixes, built from their ends as the rows build it.\<close>

definition prefix_distance :: "string \<Rightarrow> string \<Rightarrow> nat" where
  "prefix_distance xs ys = edit_distance (rev (map tolower xs)) (rev (map tolower ys))"

lemma prefix_distance_step:
  "prefix_distance (xs @ [a]) (ys @ [b]) =
     min (prefix_distance (xs @ [a]) ys + 1)
       (min (prefix_distance xs (ys @ [b]) + 1) (prefix_distance xs ys + substitution_cost a b))"
  by (simp add: prefix_distance_def substitution_cost_def)

lemma row_from_prefixes:
  "row_from a (prefix_distance (xs @ [a]) ys) (map (\<lambda>j. prefix_distance xs (ys @ take j right)) [0..<length right + 1]) right =
     map (\<lambda>j. prefix_distance (xs @ [a]) (ys @ take j right)) [1..<length right + 1]"
proof (induction right arbitrary: ys)
  case (Cons b right)
  have prev: "map (\<lambda>j. prefix_distance xs (ys @ take j (b # right))) [0..<length (b # right) + 1] =
      prefix_distance xs ys # map (\<lambda>j. prefix_distance xs ((ys @ [b]) @ take j right)) [0..<length right + 1]"
    by (subst upt_conv_Cons) (simp_all add: map_Suc_upt[symmetric] del: upt_Suc)
  have next_row: "map (\<lambda>j. prefix_distance (xs @ [a]) (ys @ take j (b # right))) [1..<length (b # right) + 1] =
      prefix_distance (xs @ [a]) (ys @ [b]) #
        map (\<lambda>j. prefix_distance (xs @ [a]) ((ys @ [b]) @ take j right)) [1..<length right + 1]"
    by (subst upt_conv_Cons) (simp_all add: map_Suc_upt[symmetric] del: upt_Suc)
  have split: "map (\<lambda>j. prefix_distance xs ((ys @ [b]) @ take j right)) [0..<length right + 1] =
      prefix_distance xs (ys @ [b]) # map (\<lambda>j. prefix_distance xs ((ys @ [b]) @ take j right)) [1..<length right + 1]"
    by (subst upt_conv_Cons) simp_all
  show ?case
    unfolding prev next_row unfolding split
    using Cons.IH[of "ys @ [b]", unfolded split] by (simp add: prefix_distance_step Let_def del: upt_Suc)
qed simp

lemma distance_rows_prefixes:
  "distance_rows (length xs + 1) left right (map (\<lambda>j. prefix_distance xs (take j right)) [0..<length right + 1]) =
     map (\<lambda>j. prefix_distance (xs @ left) (take j right)) [0..<length right + 1]"
proof (induction left arbitrary: xs)
  case (Cons a left)
  have start: "prefix_distance (xs @ [a]) [] = length xs + 1"
    by (cases "rev (map tolower (xs @ [a]))") (auto simp: prefix_distance_def)
  have row: "(length xs + 1) # row_from a (length xs + 1) (map (\<lambda>j. prefix_distance xs (take j right)) [0..<length right + 1]) right =
      map (\<lambda>j. prefix_distance (xs @ [a]) (take j right)) [0..<length right + 1]"
  proof -
    have upt: "map f [0..<length right + 1] = f 0 # map f [1..<length right + 1]" for f :: "nat \<Rightarrow> nat"
      by (subst upt_conv_Cons) (simp_all del: upt_Suc)
    show ?thesis
      using row_from_prefixes[of a xs "[]" right] start
      by (subst (2) upt) (simp del: upt_Suc)
  qed
  have "length (xs @ [a]) + 1 = (length xs + 1) + 1" by simp
  then show ?case using Cons.IH[of "xs @ [a]"] row by (simp only: distance_rows.simps append_assoc append.simps)
qed simp

lemma distance_eq: "distance left right = prefix_distance left right"
proof -
  have "[0..<length right + 1] = map (\<lambda>j. prefix_distance [] (take j right)) [0..<length right + 1]"
    by (rule nth_equalityI) (simp_all add: prefix_distance_def del: upt_Suc)
  from arg_cong[OF this, of "distance_rows 1 left right"]
  have "distance_rows 1 left right [0..<length right + 1] =
      distance_rows (length ([] :: string) + 1) left right (map (\<lambda>j. prefix_distance [] (take j right)) [0..<length right + 1])"
    by (simp only: list.size add_0)
  also have "\<dots> = map (\<lambda>j. prefix_distance left (take j right)) [0..<length right + 1]"
    by (subst distance_rows_prefixes) (simp only: append.simps)
  finally show ?thesis by (simp add: distance_def del: upt_Suc)
qed

lemma distance_edits: "edits n (map tolower left) (map tolower right) \<Longrightarrow> distance left right \<le> n"
  "edits (distance left right) (map tolower left) (map tolower right)"
  using edit_distance_least[of n "rev (map tolower left)" "rev (map tolower right)"]
    edits_edit_distance[of "rev (map tolower left)" "rev (map tolower right)"]
  by (simp_all add: distance_eq prefix_distance_def edits_rev_iff)

text \<open>C24: \<open>distance\<close>, with two rows of a table over one pass of each name, is the least number of insertions,
  deletions and replacements that turn one name into the other, upper and lower case alike.\<close>

theorem distance_is_least_edits:
  "distance left right = (LEAST n. edits n (map tolower left) (map tolower right))"
  by (rule Least_equality[symmetric]) (auto intro: distance_edits)

lemma snd_sort_pairs: "set (map snd (sort ps)) = snd ` set ps"
  by simp

lemma sorted_pairs_fst: "sorted ps \<Longrightarrow> sorted (map fst (ps :: (nat \<times> string) list))"
  by (induction ps) (auto simp: less_eq_prod_def prod_less_def)

lemma scored_names_set:
  "set (scored_names name known) = {(distance name k, k) | k. k \<in> set known \<and> distance name k \<le> suggestion_limit}"
  by (auto simp: scored_names_def)

lemma scored_snd: "p \<in> set (scored_names name known) \<Longrightarrow> fst p = distance name (snd p)"
  by (auto simp: scored_names_def)

lemma map_distance_nearest: "map (distance name) (nearest_names name known) = map fst (sort (scored_names name known))"
  by (auto simp: nearest_names_def dest: scored_snd)

theorem nearest_names_exact:
  "set (nearest_names name known) = {k \<in> set known. distance name k \<le> suggestion_limit} \<and>
   sorted (map (distance name) (nearest_names name known)) \<and>
   length (nearest_names name known) = length (filter (\<lambda>k. distance name k \<le> suggestion_limit) known)"
proof (intro conjI)
  show "set (nearest_names name known) = {k \<in> set known. distance name k \<le> suggestion_limit}"
    unfolding nearest_names_def snd_sort_pairs scored_names_set by force
  show "sorted (map (distance name) (nearest_names name known))"
    unfolding map_distance_nearest by (rule sorted_pairs_fst) simp
  show "length (nearest_names name known) = length (filter (\<lambda>k. distance name k \<le> suggestion_limit) known)"
    by (simp add: nearest_names_def scored_names_def filter_map comp_def)
qed

end
