(* ===== verification/Console.thy ===== *)
theory Console
  imports Operation
begin

text \<open>
  The streams of the command-line tool: the global options (\<open>src/src/cli/options.h\<close>), the logger
  (\<open>logger.cpp\<close>) and the progress sink that writes to a console (\<open>progress.cpp\<close>). A command runs in a
  state that holds the world its services act on and the text written to standard output, standard
  error and the log file, the lines standard input still has, and the width of the sink's transient
  line. What a console shows of a text with carriage returns is \<open>terminal\<close>.
\<close>

section \<open>Streams\<close>

record 'w cli =
  shell :: 'w
  in_lines :: "string list"
  out_text :: string
  err_text :: string
  log_text :: "string option"
  sink_width :: nat

definition on_shell :: "('w \<Rightarrow> 'a \<times> 'w) \<Rightarrow> 'w cli \<Rightarrow> 'a \<times> 'w cli" where
  "on_shell f c = (case f (shell c) of (x, w) \<Rightarrow> (x, c\<lparr>shell := w\<rparr>))"

definition print_out :: "string \<Rightarrow> 'w cli \<Rightarrow> 'w cli" where
  "print_out t c = c\<lparr>out_text := out_text c @ t\<rparr>"

definition print_err :: "string \<Rightarrow> 'w cli \<Rightarrow> 'w cli" where
  "print_err t c = c\<lparr>err_text := err_text c @ t\<rparr>"

definition eol :: string where
  "eol = [CHR 0x0A]"

definition carriage_return :: char where
  "carriage_return = CHR 0x0D"

lemma streams [simp]:
  "in_lines (print_out t c) = in_lines c" "in_lines (print_err t c) = in_lines c"
  "sink_width (print_out t c) = sink_width c" "sink_width (print_err t c) = sink_width c"
  "shell (print_out t c) = shell c" "err_text (print_out t c) = err_text c" "log_text (print_out t c) = log_text c"
  "shell (print_err t c) = shell c" "out_text (print_err t c) = out_text c" "log_text (print_err t c) = log_text c"
  "out_text (print_out t c) = out_text c @ t" "err_text (print_err t c) = err_text c @ t"
  by (simp_all add: print_out_def print_err_def)

record global_options =
  g_json :: bool
  g_verbose :: bool
  g_assume_yes :: bool
  g_dry_run :: bool
  g_log_file :: path

section \<open>The logger\<close>

text \<open>\<open>StreamLogger\<close>: whether the log file could be opened is the operating system's answer.\<close>

definition start_logger :: "(path \<Rightarrow> string) \<Rightarrow> path \<Rightarrow> bool \<Rightarrow> 'w cli \<Rightarrow> 'w cli" where
  "start_logger utf8 log_file opened c =
     (if log_file = [] then c\<lparr>log_text := None\<rparr>
      else if opened then c\<lparr>log_text := Some []\<rparr>
      else print_err (''warning: could not open the log file '' @ utf8 log_file @
             ''; continuing without it'' @ eol) (c\<lparr>log_text := None\<rparr>))"

definition log_verbose :: "global_options \<Rightarrow> string \<Rightarrow> 'w cli \<Rightarrow> 'w cli" where
  "log_verbose g message c =
     (let c1 = c\<lparr>log_text := map_option (\<lambda>t. t @ ''verbose: '' @ message @ eol) (log_text c)\<rparr>
      in if g_verbose g then print_err (message @ eol) c1 else c1)"

definition log_write :: "string \<Rightarrow> string \<Rightarrow> 'w cli \<Rightarrow> 'w cli" where
  "log_write level message c =
     (let c1 = print_err (level @ '': '' @ message @ eol) c
      in c1\<lparr>log_text := map_option (\<lambda>t. t @ level @ '': '' @ message @ eol) (log_text c1)\<rparr>)"

definition log_warn :: "string \<Rightarrow> 'w cli \<Rightarrow> 'w cli" where
  "log_warn message = log_write ''warning'' message"

definition log_warnings :: "string list \<Rightarrow> 'w cli \<Rightarrow> 'w cli" where
  "log_warnings messages c = fold log_warn messages c"

text \<open>Nothing the logger writes goes to standard output.\<close>

lemma logger_simps [simp]:
  "out_text (log_verbose g m c) = out_text c" "shell (log_verbose g m c) = shell c"
  "out_text (log_warn m c) = out_text c" "shell (log_warn m c) = shell c"
  by (simp_all add: log_verbose_def log_warn_def log_write_def Let_def)

lemma log_warnings_simps [simp]:
  "out_text (log_warnings ms c) = out_text c" "shell (log_warnings ms c) = shell c"
  by (induction ms arbitrary: c) (simp_all add: log_warnings_def)

section \<open>The console sink\<close>

text \<open>\<open>ConsoleSink\<close>: the text it has written and the width of the transient line on the screen.\<close>

record console =
  console_out :: string
  transient_width :: nat

definition erase_transient :: "console \<Rightarrow> console" where
  "erase_transient k =
     (if transient_width k = 0 then k
      else
        \<lparr>console_out = console_out k @ [carriage_return] @ replicate (transient_width k) (CHR '' '') @ [carriage_return],
         transient_width = 0\<rparr>)"

definition write_line :: "string \<Rightarrow> console \<Rightarrow> console" where
  "write_line t k = (let k1 = erase_transient k in k1\<lparr>console_out := console_out k1 @ ''  '' @ t @ eol\<rparr>)"

definition write_transient :: "string \<Rightarrow> console \<Rightarrow> console" where
  "write_transient t k =
     (let k1 = erase_transient k
      in \<lparr>console_out = console_out k1 @ ''  '' @ t @ [carriage_return], transient_width = length t + 2\<rparr>)"

fun console_event :: "sink_event \<Rightarrow> console \<Rightarrow> console" where
  "console_event (Step_started index step) k = write_line (step_description step @ '' ...'') k"
| "console_event (Step_finished index step) k = k"
| "console_event (Step_progress p) k =
     (if progress_total p = 0 then k
      else write_transient (show_word (progress_current p * 100 div progress_total p) @ ''%'') k)"
| "console_event (Sink_message t) k = write_line t k"
| "console_event (Sink_status t) k = write_transient t k"

text \<open>What a sink that lives for a list of events writes, its destructor included.\<close>

definition console_text :: "sink_event list \<Rightarrow> string" where
  "console_text events =
     console_out (erase_transient (fold console_event events \<lparr>console_out = [], transient_width = 0\<rparr>))"

text \<open>The sink a command makes for one run: a \<open>NullSink\<close> under \<open>--json\<close>, else a \<open>ConsoleSink\<close> on standard
  output. \<open>tell_sink\<close> replays the events of a run into it, \<open>close_sink\<close> is its destructor.\<close>

definition through_sink :: "(console \<Rightarrow> console) \<Rightarrow> 'w cli \<Rightarrow> 'w cli" where
  "through_sink f c =
     (let k = f \<lparr>console_out = [], transient_width = sink_width c\<rparr>
      in (print_out (console_out k) c)\<lparr>sink_width := transient_width k\<rparr>)"

definition tell_sink :: "bool \<Rightarrow> sink_event list \<Rightarrow> 'w cli \<Rightarrow> 'w cli" where
  "tell_sink json events c = (if json then c else through_sink (fold console_event events) c)"

definition close_sink :: "bool \<Rightarrow> 'w cli \<Rightarrow> 'w cli" where
  "close_sink json c = (if json then c else through_sink erase_transient c)"

lemma tell_sink_simps [simp]:
  "shell (tell_sink j es c) = shell c" "err_text (tell_sink j es c) = err_text c"
  "tell_sink True es c = c" "close_sink True c = c" "shell (close_sink j c) = shell c"
  by (simp_all add: tell_sink_def close_sink_def through_sink_def Let_def)

section \<open>A terminal\<close>

text \<open>The lines scrolled past, the line the cursor is on and its column. A character overwrites, a
  carriage return goes back to the start of the line.\<close>

record screen =
  scrolled :: "string list"
  current_line :: string
  column :: nat

definition blank_screen :: screen where
  "blank_screen = \<lparr>scrolled = [], current_line = [], column = 0\<rparr>"

definition terminal_char :: "char \<Rightarrow> screen \<Rightarrow> screen" where
  "terminal_char ch s =
     (if ch = CHR 0x0A then \<lparr>scrolled = scrolled s @ [current_line s], current_line = [], column = 0\<rparr>
      else if ch = carriage_return then s\<lparr>column := 0\<rparr>
      else s\<lparr>current_line := take (column s) (current_line s) @ [ch] @ drop (column s + 1) (current_line s),
             column := column s + 1\<rparr>)"

definition terminal :: "string \<Rightarrow> screen \<Rightarrow> screen" where
  "terminal t s = fold terminal_char t s"

text \<open>What stays on the screen of a run: one line per step started and per message.\<close>

fun permanent_lines :: "sink_event list \<Rightarrow> string list" where
  "permanent_lines [] = []"
| "permanent_lines (Step_started index step # events) =
     (''  '' @ step_description step @ '' ...'') # permanent_lines events"
| "permanent_lines (Sink_message t # events) = (''  '' @ t) # permanent_lines events"
| "permanent_lines (_ # events) = permanent_lines events"

definition printable :: "string \<Rightarrow> bool" where
  "printable t \<longleftrightarrow> CHR 0x0A \<notin> set t \<and> carriage_return \<notin> set t"

fun printable_event :: "sink_event \<Rightarrow> bool" where
  "printable_event (Step_started index step) \<longleftrightarrow> printable (step_description step)"
| "printable_event (Sink_message t) \<longleftrightarrow> printable t"
| "printable_event (Sink_status t) \<longleftrightarrow> printable t"
| "printable_event _ \<longleftrightarrow> True"

definition trim_right :: "string \<Rightarrow> string" where
  "trim_right t = rev (dropWhile (\<lambda>ch. ch = CHR '' '') (rev t))"

definition spaces :: "nat \<Rightarrow> string" where
  "spaces n = replicate n (CHR '' '')"

lemma trim_right_spaces [simp]: "trim_right (t @ spaces n) = trim_right t"
proof -
  have "dropWhile (\<lambda>ch. ch = CHR '' '') (spaces n @ xs) = dropWhile (\<lambda>ch. ch = CHR '' '') xs" for xs
    by (induction n) (simp_all add: spaces_def)
  then show ?thesis by (simp add: trim_right_def rev_replicate spaces_def)
qed

lemma trim_right_only_spaces [simp]: "trim_right (spaces n) = []"
  using trim_right_spaces[of "[]" n] by (simp add: trim_right_def)

lemma terminal_append [simp]: "terminal (a @ b) s = terminal b (terminal a s)"
  by (simp add: terminal_def)

lemma terminal_Nil [simp]: "terminal [] s = s"
  by (simp add: terminal_def)

lemma terminal_return [simp]: "terminal [carriage_return] s = s\<lparr>column := 0\<rparr>"
  by (simp add: terminal_def terminal_char_def carriage_return_def)

lemma terminal_newline [simp]:
  "terminal eol s = \<lparr>scrolled = scrolled s @ [current_line s], current_line = [], column = 0\<rparr>"
  by (simp add: terminal_def terminal_char_def eol_def)

lemma terminal_text_at:
  assumes "printable t" and "n \<le> length cur"
  shows "terminal t \<lparr>scrolled = done_lines, current_line = cur, column = n\<rparr> =
    \<lparr>scrolled = done_lines, current_line = take n cur @ t @ drop (n + length t) cur, column = n + length t\<rparr>"
  using assms
proof (induction t arbitrary: n cur)
  case (Cons ch t)
  let ?cur = "take n cur @ [ch] @ drop (n + 1) cur"
  have "printable t" "n + 1 \<le> length ?cur" using Cons.prems by (auto simp: printable_def)
  note ih = Cons.IH[OF this]
  have d: "drop (Suc n + length t) ?cur = drop (Suc (n + length t)) cur"
    using Cons.prems(2) by (simp add: min_def add.commute)
  have tk: "take (n + 1) ?cur = take n cur @ [ch]" using Cons.prems(2) by (simp add: min_def)
  have "terminal (ch # t) \<lparr>scrolled = done_lines, current_line = cur, column = n\<rparr> =
      terminal t \<lparr>scrolled = done_lines, current_line = ?cur, column = n + 1\<rparr>"
    using Cons.prems(1) by (auto simp: terminal_def terminal_char_def printable_def)
  then show ?case using ih tk d by simp
qed simp

lemma terminal_text:
  assumes "printable t"
  shows "terminal t \<lparr>scrolled = done_lines, current_line = cur, column = 0\<rparr> =
    \<lparr>scrolled = done_lines, current_line = t @ drop (length t) cur, column = length t\<rparr>"
  using terminal_text_at[OF assms, of 0 cur done_lines] by simp

lemma printable_append [simp]: "printable (a @ b) \<longleftrightarrow> printable a \<and> printable b"
  by (auto simp: printable_def)

lemma printable_spaces [simp]: "printable (spaces n)" "printable (replicate n (CHR '' ''))"
  by (auto simp: printable_def spaces_def carriage_return_def)

lemma printable_show [simp]: "printable (show_word n)"
  using show_nat_digits[of "unat n"]
  by (auto simp: printable_def show_word_def is_digit_char_def carriage_return_def list_all_iff)

lemma printable_literals [simp]: "printable ''  ''" "printable '' ...''" "printable ''%''"
  by (simp_all add: printable_def carriage_return_def)

text \<open>The invariant between events: nothing but blanks beyond the transient line.\<close>

definition tidy :: "console \<Rightarrow> screen \<Rightarrow> bool" where
  "tidy k s \<longleftrightarrow>
     column s = 0 \<and> transient_width k \<le> length (current_line s) \<and>
     (\<exists>n. drop (transient_width k) (current_line s) = spaces n)"

lemma drop_spaces [simp]: "drop m (spaces n) = spaces (n - m)"
  by (simp add: spaces_def)

lemma spaces_add [simp]: "spaces m @ spaces n = spaces (m + n)"
  by (simp add: spaces_def replicate_add)

lemma length_spaces [simp]: "length (spaces n) = n"
  by (simp add: spaces_def)

definition shows_as :: "console \<Rightarrow> console \<Rightarrow> screen \<Rightarrow> screen \<Rightarrow> bool" where
  "shows_as k k' s s' \<longleftrightarrow> (\<exists>t. console_out k' = console_out k @ t \<and> s' = terminal t s)"

lemma shows_as_refl: "shows_as k k s s"
  by (simp add: shows_as_def)

lemma shows_as_trans: "shows_as k k1 s s1 \<Longrightarrow> shows_as k1 k2 s1 s2 \<Longrightarrow> shows_as k k2 s s2"
  unfolding shows_as_def by force

lemma erase_shows:
  assumes "tidy k s"
  obtains s' n where "shows_as k (erase_transient k) s s'" "scrolled s' = scrolled s"
    "current_line s' = spaces n" "column s' = 0" "transient_width (erase_transient k) = 0"
proof (cases "transient_width k = 0")
  case True
  with assms obtain n where "current_line s = spaces n" "column s = 0" by (auto simp: tidy_def)
  with True that[of s n] show thesis by (simp add: erase_transient_def shows_as_refl)
next
  case False
  let ?w = "transient_width k"
  from assms obtain n where n: "drop ?w (current_line s) = spaces n" and c: "column s = 0"
    by (auto simp: tidy_def)
  let ?t = "[carriage_return] @ spaces ?w @ [carriage_return]"
  have s: "s = \<lparr>scrolled = scrolled s, current_line = current_line s, column = 0\<rparr>" using c by simp
  have out: "terminal ?t s = \<lparr>scrolled = scrolled s, current_line = spaces (?w + n), column = 0\<rparr>"
    by (subst s, unfold terminal_append) (simp add: terminal_text n)
  have "shows_as k (erase_transient k) s (terminal ?t s)"
    using False by (simp add: shows_as_def erase_transient_def spaces_def)
  with that[OF this] out False show thesis by (simp add: erase_transient_def)
qed

lemma write_line_shows:
  assumes "tidy k s" and "printable t"
  obtains s' where "shows_as k (write_line t k) s s'" "tidy (write_line t k) s'"
    "map trim_right (scrolled s') = map trim_right (scrolled s @ [''  '' @ t])"
proof -
  obtain s1 n where s1: "shows_as k (erase_transient k) s s1" "scrolled s1 = scrolled s"
    "current_line s1 = spaces n" "column s1 = 0" "transient_width (erase_transient k) = 0"
    by (rule erase_shows[OF assms(1)])
  define x where "x = ''  '' @ t"
  let ?t = "x @ eol"
  have s: "s1 = \<lparr>scrolled = scrolled s, current_line = spaces n, column = 0\<rparr>" using s1 by simp
  have p: "printable x" using assms(2) unfolding x_def by (simp del: append.simps)
  have out: "terminal ?t s1 =
      \<lparr>scrolled = scrolled s @ [x @ spaces (n - length x)], current_line = [], column = 0\<rparr>"
    unfolding s terminal_append terminal_text[OF p] by simp
  have "shows_as (erase_transient k) (write_line t k) s1 (terminal ?t s1)"
    by (simp add: shows_as_def write_line_def Let_def x_def)
  from shows_as_trans[OF s1(1) this]
  have "shows_as k (write_line t k) s (terminal ?t s1)" .
  moreover have "tidy (write_line t k) (terminal ?t s1)"
    using s1(5) unfolding out by (auto simp: tidy_def write_line_def Let_def spaces_def)
  moreover have "map trim_right (scrolled (terminal ?t s1)) = map trim_right (scrolled s @ [x])"
    unfolding out by simp
  ultimately show thesis unfolding x_def by (rule that)
qed

lemma write_transient_shows:
  assumes "tidy k s" and "printable t"
  obtains s' where "shows_as k (write_transient t k) s s'" "tidy (write_transient t k) s'"
    "scrolled s' = scrolled s"
proof -
  obtain s1 n where s1: "shows_as k (erase_transient k) s s1" "scrolled s1 = scrolled s"
    "current_line s1 = spaces n" "column s1 = 0" "transient_width (erase_transient k) = 0"
    by (rule erase_shows[OF assms(1)])
  define x where "x = ''  '' @ t"
  let ?t = "x @ [carriage_return]"
  have s: "s1 = \<lparr>scrolled = scrolled s, current_line = spaces n, column = 0\<rparr>" using s1 by simp
  have p: "printable x" using assms(2) unfolding x_def by (simp del: append.simps)
  have out: "terminal ?t s1 =
      \<lparr>scrolled = scrolled s, current_line = x @ spaces (n - length x), column = 0\<rparr>"
    unfolding s terminal_append terminal_text[OF p] by simp
  have "shows_as (erase_transient k) (write_transient t k) s1 (terminal ?t s1)"
    by (simp add: shows_as_def write_transient_def Let_def x_def)
  from shows_as_trans[OF s1(1) this]
  have "shows_as k (write_transient t k) s (terminal ?t s1)" .
  moreover have "tidy (write_transient t k) (terminal ?t s1)"
    unfolding out by (auto simp: tidy_def write_transient_def Let_def x_def)
  moreover have "scrolled (terminal ?t s1) = scrolled s" unfolding out by simp
  ultimately show thesis by (rule that)
qed

lemma console_event_shows:
  assumes "tidy k s" and "printable_event e"
  obtains s' where "shows_as k (console_event e k) s s'" "tidy (console_event e k) s'"
    "map trim_right (scrolled s') = map trim_right (scrolled s @ permanent_lines [e])"
proof (cases e)
  case (Step_started i st)
  with assms have p: "printable (step_description st @ '' ...'')" by simp
  note shown = write_line_shows[OF assms(1) p]
  show thesis
  proof (rule shown)
    fix s'
    assume "shows_as k (write_line (step_description st @ '' ...'') k) s s'" "tidy (write_line (step_description st @ '' ...'') k) s'"
      "map trim_right (scrolled s') = map trim_right (scrolled s @ [''  '' @ step_description st @ '' ...''])"
    then show thesis using that[of s'] by (simp add: Step_started)
  qed
next
  case (Step_finished i st)
  then show thesis using assms(1) that[of s] by (simp add: shows_as_refl)
next
  case (Step_progress p)
  show thesis
  proof (cases "progress_total p = 0")
    case True
    then show thesis using assms(1) that[of s] Step_progress by (simp add: shows_as_refl)
  next
    case False
    have p: "printable (show_word (progress_current p * 100 div progress_total p) @ ''%'')" by simp
    note shown = write_transient_shows[OF assms(1) p]
    show thesis
    proof (rule shown)
      fix s'
      assume "shows_as k (write_transient (show_word (progress_current p * 100 div progress_total p) @ ''%'') k) s s'" "tidy (write_transient (show_word (progress_current p * 100 div progress_total p) @ ''%'') k) s'"
        "scrolled s' = scrolled s"
      then show thesis using that[of s'] by (simp add: Step_progress False)
    qed
  qed
next
  case (Sink_message t)
  with assms have p: "printable t" by simp
  note shown = write_line_shows[OF assms(1) p]
  show thesis
  proof (rule shown)
    fix s'
    assume "shows_as k (write_line t k) s s'" "tidy (write_line t k) s'"
      "map trim_right (scrolled s') = map trim_right (scrolled s @ [''  '' @ t])"
    then show thesis using that[of s'] by (simp add: Sink_message)
  qed
next
  case (Sink_status t)
  with assms have p: "printable t" by simp
  note shown = write_transient_shows[OF assms(1) p]
  show thesis
  proof (rule shown)
    fix s'
    assume "shows_as k (write_transient t k) s s'" "tidy (write_transient t k) s'"
      "scrolled s' = scrolled s"
    then show thesis using that[of s'] by (simp add: Sink_status)
  qed
qed

lemma permanent_lines_append: "permanent_lines (a @ b) = permanent_lines a @ permanent_lines b"
  by (induction a rule: permanent_lines.induct) simp_all

lemma console_events_show:
  assumes "tidy k s" and "list_all printable_event events"
  obtains s' where "shows_as k (fold console_event events k) s s'" "tidy (fold console_event events k) s'"
    "map trim_right (scrolled s') = map trim_right (scrolled s @ permanent_lines events)"
  using assms
proof (induction events arbitrary: k s thesis)
  case Nil
  show ?case by (rule Nil.prems(1)[of s]) (use Nil.prems(2) in \<open>simp_all add: shows_as_refl\<close>)
next
  case (Cons e events)
  obtain s1 where s1: "shows_as k (console_event e k) s s1" "tidy (console_event e k) s1"
    "map trim_right (scrolled s1) = map trim_right (scrolled s @ permanent_lines [e])"
    by (rule console_event_shows[OF Cons.prems(2), of e]) (use Cons.prems(3) in simp_all)
  obtain s2 where s2: "shows_as (console_event e k) (fold console_event events (console_event e k)) s1 s2"
    "tidy (fold console_event events (console_event e k)) s2"
    "map trim_right (scrolled s2) = map trim_right (scrolled s1 @ permanent_lines events)"
    by (rule Cons.IH[OF _ s1(2)]) (use Cons.prems(3) in simp_all)
  have lines: "permanent_lines (e # events) = permanent_lines [e] @ permanent_lines events"
    by (cases e) simp_all
  have "map trim_right (scrolled s2) = map trim_right (scrolled s @ permanent_lines (e # events))"
    unfolding lines s2(3) map_append s1(3) by simp
  moreover have "shows_as k (fold console_event (e # events) k) s s2"
    using shows_as_trans[OF s1(1) s2(1)] by simp
  moreover have "tidy (fold console_event (e # events) k) s2" using s2(2) by simp
  ultimately show ?case by (intro Cons.prems(1)[of s2])
qed

text \<open>C25: what a run leaves on a terminal: one line for every step and message, in order, each free of what
  a transient line had left in its columns, and a blank line under the cursor at the end, however
  the widths of the transient lines vary.\<close>

theorem console_leaves_lines:
  assumes "list_all printable_event events"
  shows "map trim_right (scrolled (terminal (console_text events) blank_screen)) =
      map trim_right (permanent_lines events) \<and>
    trim_right (current_line (terminal (console_text events) blank_screen)) = [] \<and>
    column (terminal (console_text events) blank_screen) = 0"
proof -
  let ?k = "\<lparr>console_out = [], transient_width = 0\<rparr>"
  let ?f = "fold console_event events ?k"
  have "tidy ?k blank_screen" by (auto simp: tidy_def blank_screen_def spaces_def)
  from console_events_show[OF this assms] obtain s1 where
    s1: "shows_as ?k ?f blank_screen s1" "tidy ?f s1"
      "map trim_right (scrolled s1) = map trim_right (scrolled blank_screen @ permanent_lines events)" .
  obtain s2 n where s2: "shows_as ?f (erase_transient ?f) s1 s2" "scrolled s2 = scrolled s1"
    "current_line s2 = spaces n" "column s2 = 0"
    by (rule erase_shows[OF s1(2)])
  from shows_as_trans[OF s1(1) s2(1)] have "s2 = terminal (console_text events) blank_screen"
    by (simp add: shows_as_def console_text_def)
  with s2 s1(3) show ?thesis by (auto simp: blank_screen_def)
qed

theorem console_leaves_lines_witness:
  "map trim_right (scrolled (terminal (console_text
      [Sink_status ''waiting 100s'', Sink_status ''waiting 9s'', Sink_message ''done'']) blank_screen)) =
    map trim_right (permanent_lines [Sink_status ''waiting 100s'', Sink_status ''waiting 9s'', Sink_message ''done'']) \<and>
   trim_right (current_line (terminal (console_text
      [Sink_status ''waiting 100s'', Sink_status ''waiting 9s'', Sink_message ''done'']) blank_screen)) = [] \<and>
   column (terminal (console_text
      [Sink_status ''waiting 100s'', Sink_status ''waiting 9s'', Sink_message ''done'']) blank_screen) = 0"
  by (rule console_leaves_lines) (simp add: printable_def carriage_return_def)

end
