(* ===== verification/Render.thy ===== *)
theory Render
  imports Size Console Disk_Info Lookup
begin

text \<open>
  What the commands print (\<open>src/src/cli/render.h\<close>, \<open>render.cpp\<close>): tables that size their columns,
  aligned details, JSON objects and dry runs. The JSON library is not part of the repository: \<open>json\<close>
  is the value its objects hold, with the fields in the order the code sets them, and \<open>dump\<close>, its
  text, is a parameter.
\<close>

section \<open>JSON values\<close>

datatype json =
    JBool bool
  | JNumber int
  | JString string
  | JArray "json list"
  | JObject "(string \<times> json) list"

definition json_u64 :: "u64 \<Rightarrow> json" where
  "json_u64 n = JNumber (uint n)"

definition json_u32 :: "u32 \<Rightarrow> json" where
  "json_u32 n = JNumber (uint n)"

text \<open>\<open>add_if_known\<close>.\<close>

definition add_if_known :: "string \<Rightarrow> ('a \<Rightarrow> json) \<Rightarrow> 'a option \<Rightarrow> (string \<times> json) list" where
  "add_if_known key f x = (case x of None \<Rightarrow> [] | Some v \<Rightarrow> [(key, f v)])"

text \<open>A field that is left out when its text is empty.\<close>

definition add_if_text :: "string \<Rightarrow> string \<Rightarrow> (string \<times> json) list" where
  "add_if_text key t = (if t \<noteq> [] then [(key, JString t)] else [])"

definition distro_fields :: "distro \<Rightarrow> disk_info \<Rightarrow> (string \<times> json) list" where
  "distro_fields d info =
     [(''name'', JString (distro_name d)), (''guid'', JString (guid d)), (''version'', json_u32 (version d)),
      (''default'', JBool (is_default d)), (''vhdx_path'', JString (path_to_utf8 (vhdx_path d)))] @
     add_if_text ''flavor'' (flavor d) @
     add_if_text ''os_version'' (os_version d) @
     add_if_known ''virtual_size'' json_u64 (info_virtual_size info) @
     add_if_known ''file_size'' json_u64 (info_file_size info) @
     add_if_known ''size_on_disk'' json_u64 (info_size_on_disk info) @
     add_if_known ''allocated_bytes'' json_u64 (info_allocated_bytes info) @
     add_if_known ''sparse'' JBool (info_is_sparse info) @
     add_if_known ''guest_used'' json_u64 (info_guest_used info) @
     add_if_known ''guest_free'' json_u64 (info_guest_free info) @
     add_if_known ''reclaimable'' json_u64 (reclaimable info) @
     (if info_notes info \<noteq> [] then [(''notes'', JArray (map JString (info_notes info)))] else [])"

definition distro_json :: "distro \<Rightarrow> disk_info \<Rightarrow> json" where
  "distro_json d info = JObject (distro_fields d info)"

definition error_json :: "error \<Rightarrow> json" where
  "error_json e = JObject
     ([(''error'', JString (error_code_name (err_code e))), (''exit_code'', JNumber (exit_code_for (err_code e))),
       (''message'', JString (err_message e))] @ add_if_text ''remedy'' (err_remedy e))"

definition to_human_line :: "error \<Rightarrow> string" where
  "to_human_line e = error_to_string e"

text \<open>\<open>report\<close> of \<open>app.cpp\<close>: to standard output as an object, or to standard error as a line.\<close>

definition report_error :: "(json \<Rightarrow> string) \<Rightarrow> global_options \<Rightarrow> error \<Rightarrow> 'w cli \<Rightarrow> int \<times> 'w cli" where
  "report_error dump g e c =
     (exit_code_for (err_code e),
      if g_json g then print_out (dump (error_json e) @ eol) c
      else print_err (''error: '' @ to_human_line e @ eol) c)"

section \<open>Tables\<close>

text \<open>Bytes that do not continue a code point.\<close>

definition display_width :: "string \<Rightarrow> nat" where
  "display_width t = length (filter (\<lambda>b. and (of_char b :: u8) 0xC0 \<noteq> 0x80) t)"

definition unknown_cell :: string where "unknown_cell = ''-''"
definition column_gap :: nat where "column_gap = 2"

record cell =
  cell_text :: "string option"
  cell_bytes :: "u64 option"
  cell_flag :: "bool option"

definition empty_cell :: cell where
  "empty_cell = \<lparr>cell_text = None, cell_bytes = None, cell_flag = None\<rparr>"

definition text_cell :: "string \<Rightarrow> cell" where "text_cell t = empty_cell\<lparr>cell_text := Some t\<rparr>"
definition maybe_text_cell :: "string option \<Rightarrow> cell" where "maybe_text_cell t = empty_cell\<lparr>cell_text := t\<rparr>"
definition bytes_cell :: "u64 option \<Rightarrow> cell" where "bytes_cell n = empty_cell\<lparr>cell_bytes := n\<rparr>"
definition flag_cell :: "bool \<Rightarrow> cell" where "flag_cell b = empty_cell\<lparr>cell_flag := Some b\<rparr>"

definition format_cell :: "cell \<Rightarrow> string" where
  "format_cell x =
     (case cell_text x of Some t \<Rightarrow> t
      | None \<Rightarrow> (case cell_bytes x of Some n \<Rightarrow> format_size n
        | None \<Rightarrow> (case cell_flag x of Some b \<Rightarrow> if b then ''yes'' else ''no'' | None \<Rightarrow> unknown_cell)))"

record table =
  tb_headers :: "string list"
  tb_rows :: "cell list list"

definition new_table :: "string list \<Rightarrow> table" where
  "new_table hs = \<lparr>tb_headers = hs, tb_rows = []\<rparr>"

definition add_row :: "cell list \<Rightarrow> table \<Rightarrow> table" where
  "add_row cells t =
     (let n = length (tb_headers t)
      in t\<lparr>tb_rows := tb_rows t @ [take n (cells @ replicate n empty_cell)]\<rparr>)"

fun widen :: "nat list \<Rightarrow> string list \<Rightarrow> nat list" where
  "widen (w # ws) (t # ts) = max w (display_width t) # widen ws ts"
| "widen ws ts = ws"

definition column_widths :: "table \<Rightarrow> nat list" where
  "column_widths t = foldl (\<lambda>ws row. widen ws (map format_cell row)) (map length (tb_headers t)) (tb_rows t)"

text \<open>\<open>write_row\<close>: every cell padded but the last.\<close>

fun padded_row :: "nat list \<Rightarrow> string list \<Rightarrow> string" where
  "padded_row ws [] = []"
| "padded_row ws [t] = t"
| "padded_row (w # ws) (t # ts) = t @ replicate (w - display_width t + column_gap) (CHR '' '') @ padded_row ws ts"
| "padded_row [] (t # ts) = []"

definition write_row :: "nat list \<Rightarrow> string list \<Rightarrow> string" where
  "write_row ws ts = padded_row ws ts @ eol"

definition render_table :: "table \<Rightarrow> string" where
  "render_table t =
     (let ws = column_widths t
      in write_row ws (tb_headers t) @ concat (map (\<lambda>row. write_row ws (map format_cell row)) (tb_rows t)))"

section \<open>Details\<close>

type_synonym details = "(string \<times> string) list"

definition detail_width :: "details \<Rightarrow> nat" where
  "detail_width ds = fold (\<lambda>(key, v) w. max w (length key)) ds 0"

definition bytes_detail :: "string \<Rightarrow> u64 option \<Rightarrow> string \<times> string" where
  "bytes_detail key n = (key, case n of Some b \<Rightarrow> format_size b | None \<Rightarrow> ''-'')"

definition write_details :: "details \<Rightarrow> string" where
  "write_details ds =
     concat (map (\<lambda>(key, v).
       key @ '':'' @ replicate (detail_width ds - length key + 1) (CHR '' '') @ v @ eol) ds)"

section \<open>Dry runs\<close>

definition dry_run_json :: "string \<Rightarrow> string \<Rightarrow> plan \<Rightarrow> json" where
  "dry_run_json key subject p = JObject
     [(key, JString subject), (''dry_run'', JBool True),
      (''steps'', JArray (map (\<lambda>s. JString (step_description s)) (plan_steps p))),
      (''warnings'', JArray (map (\<lambda>x. JObject [(''message'', JString (warning_message x)),
         (''remedy'', JString (warning_remedy x))]) (plan_warnings p)))]"

definition render_dry_run ::
  "(json \<Rightarrow> string) \<Rightarrow> string \<Rightarrow> global_options \<Rightarrow> string \<Rightarrow> plan \<Rightarrow> 'w cli \<Rightarrow> 'w cli" where
  "render_dry_run dump key g subject p =
     print_out
       (if g_json g then dump (dry_run_json key subject p) @ eol
        else ''--dry-run: nothing was changed. It would have:'' @ eol @
          concat (map (\<lambda>s. ''  '' @ step_description s @ eol) (plan_steps p)))"

section \<open>JSON lines\<close>

text \<open>What \<open>--json\<close> promises of standard output: whole objects, one to a line.\<close>

definition json_lines :: "(json \<Rightarrow> string) \<Rightarrow> string \<Rightarrow> bool" where
  "json_lines dump t \<longleftrightarrow> (\<exists>objects. t = concat (map (\<lambda>x. dump x @ eol) objects))"

lemma json_lines_Nil [simp]: "json_lines dump []"
  unfolding json_lines_def by (rule exI[of _ "[]"]) simp

lemma json_lines_one [simp]: "json_lines dump (dump x @ eol)"
  unfolding json_lines_def by (rule exI[of _ "[x]"]) simp

lemma json_lines_append [intro]:
  assumes "json_lines dump a" and "json_lines dump b"
  shows "json_lines dump (a @ b)"
proof -
  from assms obtain xs ys where "a = concat (map (\<lambda>x. dump x @ eol) xs)"
    "b = concat (map (\<lambda>x. dump x @ eol) ys)"
    by (auto simp: json_lines_def)
  then show ?thesis unfolding json_lines_def by (intro exI[of _ "xs @ ys"]) simp
qed

section \<open>A table is aligned\<close>

lemma display_width_append [simp]: "display_width (a @ b) = display_width a + display_width b"
  by (simp add: display_width_def)

lemma display_width_spaces [simp]: "display_width (replicate n (CHR '' '')) = n"
  by (induction n) (simp_all add: display_width_def)

lemma display_width_le: "display_width t \<le> length t"
  by (simp add: display_width_def)

text \<open>The lines of a table, the header first.\<close>

definition table_lines :: "table \<Rightarrow> string list list" where
  "table_lines t = tb_headers t # map (map format_cell) (tb_rows t)"

lemma render_table_lines: "render_table t = concat (map (write_row (column_widths t)) (table_lines t))"
  by (simp add: render_table_def table_lines_def Let_def comp_def)

lemma widen_length [simp]: "length (widen ws ts) = length ws"
  by (induction ws ts rule: widen.induct) simp_all

lemma widen_grows: "list_all2 (\<le>) ws (widen ws ts)"
  by (induction ws ts rule: widen.induct) (simp_all add: list_all2_refl)

lemma widen_fits: "length ts = length ws \<Longrightarrow> list_all2 (\<lambda>t w. display_width t \<le> w) ts (widen ws ts)"
  by (induction ws ts rule: widen.induct) auto

lemma fits_grow:
  "list_all2 (\<lambda>t w. display_width t \<le> w) ts ws \<Longrightarrow> list_all2 (\<le>) ws ws' \<Longrightarrow>
   list_all2 (\<lambda>t w. display_width t \<le> w) ts ws'"
  using list_all2_trans[of "\<lambda>t w. display_width t \<le> w" "(\<le>)" "\<lambda>t w. display_width t \<le> w" ts ws ws']
  by (meson order_trans)

lemma widen_all:
  assumes "\<forall>row \<in> set rs. length row = length ws"
  defines "ws' \<equiv> foldl (\<lambda>ws row. widen ws (map format_cell row)) ws rs"
  shows "list_all2 (\<le>) ws ws' \<and>
    (\<forall>row \<in> set rs. list_all2 (\<lambda>t w. display_width t \<le> w) (map format_cell row) ws')"
  using assms(1) unfolding ws'_def
proof (induction rs arbitrary: ws)
  case (Cons row rs)
  let ?w = "widen ws (map format_cell row)"
  let ?final = "foldl (\<lambda>ws row. widen ws (map format_cell row)) ?w rs"
  have rest: "list_all2 (\<le>) ?w ?final"
    "\<forall>row \<in> set rs. list_all2 (\<lambda>t w. display_width t \<le> w) (map format_cell row) ?final"
    using Cons.IH[of ?w] Cons.prems by auto
  have "list_all2 (\<lambda>t w. display_width t \<le> w) (map format_cell row) ?w"
    using Cons.prems by (intro widen_fits) simp
  from fits_grow[OF this rest(1)]
  have "list_all2 (\<lambda>t w. display_width t \<le> w) (map format_cell row) ?final" .
  moreover have "list_all2 (\<le>) ws ?final"
    using list_all2_trans[OF _ widen_grows rest(1), of "(\<le>)"] by simp
  ultimately show ?case using rest(2) by simp
qed (simp add: list_all2_refl)

lemma table_lines_fit:
  assumes "\<forall>row \<in> set (tb_rows t). length row = length (tb_headers t)" and "line \<in> set (table_lines t)"
  shows "list_all2 (\<lambda>t w. display_width t \<le> w) line (column_widths t)"
proof -
  have w: "list_all2 (\<le>) (map length (tb_headers t)) (column_widths t) \<and>
    (\<forall>row \<in> set (tb_rows t). list_all2 (\<lambda>t w. display_width t \<le> w) (map format_cell row) (column_widths t))"
    using widen_all[of "tb_rows t" "map length (tb_headers t)"] assms(1) by (simp add: column_widths_def)
  have "list_all2 (\<lambda>t w. display_width t \<le> w) (tb_headers t) (map length (tb_headers t))"
    by (simp add: list_all2_map2 display_width_le list_all2_refl)
  from fits_grow[OF this] w assms(2) show ?thesis by (auto simp: table_lines_def)
qed

lemma padded_row_column:
  assumes "list_all2 (\<lambda>t w. display_width t \<le> w) ts ws" and "k < length ts"
  shows "\<exists>before rest. padded_row ws ts = before @ ts ! k @ rest \<and>
    display_width before = sum_list (map (\<lambda>w. w + column_gap) (take k ws))"
  using assms
proof (induction ws ts arbitrary: k rule: padded_row.induct)
  case (2 ws t)
  then show ?case by (cases ws) (auto simp: display_width_def intro!: exI[of _ "[]"])
next
  case (3 w ws t u us)
  show ?case
  proof (cases k)
    case 0
    then have "padded_row (w # ws) (t # u # us) = [] @ (t # u # us) ! k @
        (replicate (w - display_width t + column_gap) (CHR '' '') @ padded_row ws (u # us)) \<and>
      display_width [] = sum_list (map (\<lambda>w. w + column_gap) (take k (w # ws)))"
      by (simp add: display_width_def)
    then show ?thesis by blast
  next
    case (Suc j)
    let ?pad = "t @ replicate (w - display_width t + column_gap) (CHR '' '')"
    have "list_all2 (\<lambda>t w. display_width t \<le> w) (u # us) ws" "j < length (u # us)"
      using 3(2,3) Suc by simp_all
    from 3(1)[OF this] obtain before rest where
      b: "padded_row ws (u # us) = before @ (u # us) ! j @ rest"
        "display_width before = sum_list (map (\<lambda>w. w + column_gap) (take j ws))" by blast
    have "padded_row (w # ws) (t # u # us) = (?pad @ before) @ (t # u # us) ! k @ rest"
      using b(1) Suc by simp
    moreover have "display_width (?pad @ before) = sum_list (map (\<lambda>w. w + column_gap) (take k (w # ws)))"
      using b(2) Suc 3(2) by simp
    ultimately show ?thesis by blast
  qed
qed simp_all

definition rectangular :: "table \<Rightarrow> bool" where
  "rectangular t \<longleftrightarrow> (\<forall>row \<in> set (tb_rows t). length row = length (tb_headers t))"

lemma add_row_shape:
  "tb_headers (add_row r t) = tb_headers t" "rectangular t \<Longrightarrow> rectangular (add_row r t)"
  by (auto simp: rectangular_def add_row_def Let_def)

lemma add_rows_shape:
  "tb_headers (fold add_row rs t) = tb_headers t" "rectangular t \<Longrightarrow> rectangular (fold add_row rs t)"
  by (induction rs arbitrary: t) (simp_all add: add_row_shape)

text \<open>C26: the columns of a table line up on screen: in every line, the header's included, what stands
  before column \<open>k\<close> is as wide as the columns and gaps before it, counted in code points, whatever the
  rows hold and however many cells a row was given.\<close>

theorem table_aligned:
  assumes "t = fold add_row rs (new_table hs)" and "line \<in> set (table_lines t)" and "k < length hs"
  shows "render_table t = concat (map (write_row (column_widths t)) (table_lines t)) \<and>
    (\<exists>before rest. write_row (column_widths t) line = before @ line ! k @ rest \<and>
       display_width before = sum_list (map (\<lambda>w. w + column_gap) (take k (column_widths t))))"
proof -
  have "rectangular (new_table hs)" by (simp add: rectangular_def new_table_def)
  then have "rectangular t" using add_rows_shape(2) by (simp add: assms(1))
  then have shape: "tb_headers t = hs" "\<forall>row \<in> set (tb_rows t). length row = length (tb_headers t)"
    using add_rows_shape(1)[of rs "new_table hs"] by (simp_all add: assms(1) new_table_def rectangular_def)
  have "length line = length hs" using assms(2) shape by (auto simp: table_lines_def)
  then have "k < length line" using assms(3) by simp
  from padded_row_column[OF table_lines_fit[OF shape(2) assms(2)] this] obtain before rest where
    b: "padded_row (column_widths t) line = before @ line ! k @ rest"
      "display_width before = sum_list (map (\<lambda>w. w + column_gap) (take k (column_widths t)))" by blast
  have "write_row (column_widths t) line = before @ line ! k @ (rest @ eol)"
    by (simp add: write_row_def b(1))
  with b(2) show ?thesis using render_table_lines by blast
qed

theorem table_aligned_witness:
  "\<exists>before rest.
     write_row (column_widths (fold add_row [[text_cell ''Ubuntu *'', flag_cell True], [text_cell ''arch'']]
       (new_table [''NAME'', ''SIZE'']))) [''arch'', ''-''] = before @ ''-'' @ rest \<and>
     display_width before = sum_list (map (\<lambda>w. w + column_gap) (take 1
       (column_widths (fold add_row [[text_cell ''Ubuntu *'', flag_cell True], [text_cell ''arch'']]
         (new_table [''NAME'', ''SIZE''])))))"
  using table_aligned[of "fold add_row [[text_cell ''Ubuntu *'', flag_cell True], [text_cell ''arch'']]
       (new_table [''NAME'', ''SIZE''])" "[[text_cell ''Ubuntu *'', flag_cell True], [text_cell ''arch'']]"
       "[''NAME'', ''SIZE'']" "[''arch'', ''-'']" 1]
  by (simp add: table_lines_def add_row_def new_table_def text_cell_def flag_cell_def empty_cell_def
      format_cell_def unknown_cell_def Let_def)

end
