(* ===== verification/Services.thy ===== *)
theory Services
  imports Render Config Repoint
begin

text \<open>
  What every command of the tool is handed (\<open>src/src/cli/list_command.h\<close>: \<open>Services\<close>), how it reads the
  registered distributions (\<open>lookup.cpp\<close>), the shared preflight (\<open>preflight.cpp\<close>) and how it runs an
  operation with a sink of its own. \<open>texts\<close> holds the conversions of libraries: the JSON dump, and the two
  directions between \<open>std::filesystem::path\<close> and narrow strings.
\<close>

section \<open>Services\<close>

record 'w services =
  sv_registry :: "'w IRegistry"
  sv_filesystem :: "'w IFileSystem"
  sv_disks :: "'w IVirtualDisk"
  sv_host :: "'w IWslHost"
  sv_clock :: "'w IClock"
  sv_config :: config

record texts =
  tx_dump :: "json \<Rightarrow> string"
  tx_narrow :: "path \<Rightarrow> string"
  tx_widen :: "string \<Rightarrow> path"

section \<open>Steps of a command\<close>

text \<open>A step that only changes the streams, and output that depends on \<open>--json\<close>.\<close>

definition effect :: "('s \<Rightarrow> 's) \<Rightarrow> 's \<Rightarrow> unit \<times> 's" where
  [action_simps]: "effect f s = ((), f s)"

definition print_json :: "texts \<Rightarrow> json \<Rightarrow> 'w cli \<Rightarrow> 'w cli" where
  "print_json tx x = print_out (tx_dump tx x @ eol)"

definition answer :: "texts \<Rightarrow> global_options \<Rightarrow> json \<Rightarrow> string \<Rightarrow> 'w cli \<Rightarrow> 'w cli" where
  "answer tx g x t = (if g_json g then print_json tx x else print_out t)"

text \<open>\<open>if (!r.has_value()) return report(r.error(), \<dots>);\<close>\<close>

definition or_report ::
  "texts \<Rightarrow> global_options \<Rightarrow> ('w cli \<Rightarrow> (error + 'a) \<times> 'w cli) \<Rightarrow> ('a \<Rightarrow> 'w cli \<Rightarrow> int \<times> 'w cli) \<Rightarrow>
     'w cli \<Rightarrow> int \<times> 'w cli" where
  "or_report tx g m f =
     call m (\<lambda>r. case r of Inl e \<Rightarrow> report_error (tx_dump tx) g e | Inr x \<Rightarrow> f x)"

definition succeed :: "'w cli \<Rightarrow> int \<times> 'w cli" where
  "succeed c = (exit_code_success, c)"

section \<open>Finding a distribution\<close>

definition enumerate_warned :: "'w services \<Rightarrow> 'w cli \<Rightarrow> (error + distro_list) \<times> 'w cli" where
  "enumerate_warned sv =
     attempt (on_shell (enumerate_distros (sv_registry sv))) (\<lambda>l.
     call (effect (log_warnings (distro_warnings l))) (\<lambda>_. ret (Inr l)))"

definition lookup_distro :: "'w services \<Rightarrow> string \<Rightarrow> 'w cli \<Rightarrow> (error + distro) \<times> 'w cli" where
  "lookup_distro sv n =
     attempt (enumerate_warned sv) (\<lambda>l.
     ret (case find_distro l n of
            Some d \<Rightarrow> Inr d
          | None \<Rightarrow> Inl (distro_not_found n (map distro_name (distros l)))))"

text \<open>\<open>require_wsl2\<close>, with the words \<open>relink\<close> and \<open>move\<close> use for the same refusal.\<close>

definition require_wsl2 :: "distro \<Rightarrow> status" where
  "require_wsl2 d = (if is_wsl2 d then Inr () else wsl1_refusal d)"

definition supported_distro :: "'w services \<Rightarrow> string \<Rightarrow> 'w cli \<Rightarrow> (error + distro) \<times> 'w cli" where
  "supported_distro sv n =
     attempt (lookup_distro sv n) (\<lambda>d. attempt (ret (require_wsl2 d)) (\<lambda>_. ret (Inr d)))"

section \<open>Running an operation\<close>

text \<open>\<open>ops::run\<close> with the command's sink: what the operation tells the sink is on standard output by the
  time the command goes on. The sink is destroyed when the command returns, after its last line.\<close>

definition drive ::
  "global_options \<Rightarrow> ('w, 'm) run_state_scheme IOperation \<Rightarrow> ('w \<Rightarrow> ('w, 'm) run_state_scheme) \<Rightarrow>
     'w cli \<Rightarrow> (((error + run_outcome) \<times> ('w, 'm) run_state_scheme) \<times> 'w cli) option" where
  "drive g op start c =
     (case run_operation op \<lparr>dry_run = g_dry_run g\<rparr> (start (shell c)) of
        None \<Rightarrow> None
      | Some (r, s) \<Rightarrow> Some ((r, s), tell_sink (g_json g) (sink s) (c\<lparr>shell := world s\<rparr>)))"

text \<open>The end of \<open>run_trim\<close>, \<open>run_relink\<close> and \<open>run_move\<close>: run, report the error, or render the dry run or
  the result.\<close>

definition drive_and_render ::
  "texts \<Rightarrow> global_options \<Rightarrow> ('w, 'm) run_state_scheme IOperation \<Rightarrow> ('w \<Rightarrow> ('w, 'm) run_state_scheme) \<Rightarrow>
     string \<Rightarrow> (('w, 'm) run_state_scheme \<Rightarrow> json) \<Rightarrow> (('w, 'm) run_state_scheme \<Rightarrow> string) \<Rightarrow>
     'w cli \<Rightarrow> (int \<times> 'w cli) option" where
  "drive_and_render tx g op start subject object say c =
     (case drive g op start c of
        None \<Rightarrow> None
      | Some ((r, s), c1) \<Rightarrow>
          Some
            (case
               (case r of
                  Inl e \<Rightarrow> report_error (tx_dump tx) g e c1
                | Inr outcome \<Rightarrow>
                    if g_dry_run g then
                      succeed (render_dry_run (tx_dump tx) ''distribution'' g subject (outcome_plan outcome) c1)
                    else succeed (answer tx g (object s) (say s) c1))
             of (code, c2) \<Rightarrow> (code, close_sink (g_json g) c2)))"

text \<open>A command whose answer is a result first: \<open>or_report\<close> before an operation that may not return.\<close>

definition or_report_wait ::
  "texts \<Rightarrow> global_options \<Rightarrow> ('w cli \<Rightarrow> (error + 'a) \<times> 'w cli) \<Rightarrow>
     ('a \<Rightarrow> 'w cli \<Rightarrow> (int \<times> 'w cli) option) \<Rightarrow> 'w cli \<Rightarrow> (int \<times> 'w cli) option" where
  "or_report_wait tx g m f c =
     (case m c of
        (Inl e, c1) \<Rightarrow> Some (report_error (tx_dump tx) g e c1)
      | (Inr x, c1) \<Rightarrow> f x c1)"

section \<open>Standard output under JSON\<close>

text \<open>\<open>talks_json tx c c'\<close>: what has been written to standard output since \<open>c\<close> is JSON lines.\<close>

definition talks_json :: "texts \<Rightarrow> 'w cli \<Rightarrow> 'w cli \<Rightarrow> bool" where
  "talks_json tx c c' \<longleftrightarrow> (\<exists>t. out_text c' = out_text c @ t \<and> json_lines (tx_dump tx) t)"

lemma talks_json_refl [simp]: "talks_json tx c c"
  by (simp add: talks_json_def)

lemma talks_json_quiet: "out_text c' = out_text c \<Longrightarrow> talks_json tx c c'"
  by (simp add: talks_json_def)

lemma talks_json_trans: "talks_json tx a b \<Longrightarrow> talks_json tx b c \<Longrightarrow> talks_json tx a c"
  unfolding talks_json_def by (metis append.assoc json_lines_append)

lemma talks_json_print_json [intro]: "talks_json tx c c' \<Longrightarrow> talks_json tx c (print_json tx x c')"
  unfolding talks_json_def print_json_def using json_lines_append[OF _ json_lines_one] by fastforce

lemma talks_json_answer [intro]: "g_json g \<Longrightarrow> talks_json tx c c' \<Longrightarrow> talks_json tx c (answer tx g x t c')"
  by (simp add: answer_def talks_json_print_json)

lemma talks_json_report [intro]:
  "g_json g \<Longrightarrow> talks_json tx c c' \<Longrightarrow> talks_json tx c (snd (report_error (tx_dump tx) g e c'))"
  using talks_json_print_json[of tx c c' "error_json e"]
  by (simp add: report_error_def print_json_def)

lemma talks_json_dry_run [intro]:
  "g_json g \<Longrightarrow> talks_json tx c c' \<Longrightarrow> talks_json tx c (render_dry_run (tx_dump tx) k g n p c')"
  using talks_json_print_json[of tx c c' "dry_run_json k n p"]
  by (simp add: render_dry_run_def print_json_def)

text \<open>\<open>speaks_json tx m\<close>: a step writes JSON lines to standard output, or nothing. The rules follow the ways a
  command is put together.\<close>

named_theorems json_rules

definition speaks_json :: "texts \<Rightarrow> ('w cli \<Rightarrow> 'a \<times> 'w cli) \<Rightarrow> bool" where
  "speaks_json tx m \<longleftrightarrow> (\<forall>c x c'. m c = (x, c') \<longrightarrow> talks_json tx c c')"

definition speaks_json_wait :: "texts \<Rightarrow> ('w cli \<Rightarrow> ('a \<times> 'w cli) option) \<Rightarrow> bool" where
  "speaks_json_wait tx m \<longleftrightarrow> (\<forall>c x c'. m c = Some (x, c') \<longrightarrow> talks_json tx c c')"

lemma speaks_jsonD: "speaks_json tx m \<Longrightarrow> m c = (x, c') \<Longrightarrow> talks_json tx c c'"
  by (simp add: speaks_json_def)

lemma speaks_json_ret [json_rules]: "speaks_json tx (ret x)"
  by (simp add: speaks_json_def ret_def)

lemma speaks_json_succeed [json_rules]: "speaks_json tx succeed"
  by (simp add: speaks_json_def succeed_def)

lemma speaks_json_on_shell [json_rules]: "speaks_json tx (on_shell f)"
  by (auto simp: speaks_json_def on_shell_def split: prod.splits intro: talks_json_quiet)

lemma speaks_json_quiet: "(\<And>c. out_text (f c) = out_text c) \<Longrightarrow> speaks_json tx (effect f)"
  by (simp add: speaks_json_def effect_def talks_json_quiet)

lemma speaks_json_log [json_rules]:
  "speaks_json tx (effect (log_warnings ms))" "speaks_json tx (effect (log_warn t))"
  "speaks_json tx (effect (log_verbose g t))" "speaks_json tx (effect id)"
  by (simp_all add: speaks_json_quiet)

lemma fold_log_verbose_out [simp]: "out_text (fold (log_verbose g) ts c) = out_text c"
  by (induction ts arbitrary: c) simp_all

lemma speaks_json_log_all [json_rules]: "speaks_json tx (effect (fold (log_verbose g) ts))"
  by (simp add: speaks_json_quiet)

lemma speaks_json_effect: "(\<And>c. talks_json tx c (f c)) \<Longrightarrow> speaks_json tx (effect f)"
  by (simp add: speaks_json_def effect_def)

lemma speaks_json_print [json_rules]: "speaks_json tx (effect (print_json tx x))"
  by (rule speaks_json_effect) (simp add: talks_json_print_json)

lemma speaks_json_answer [json_rules]: "g_json g \<Longrightarrow> speaks_json tx (effect (answer tx g x t))"
  by (rule speaks_json_effect) (simp add: talks_json_answer)

lemma speaks_json_report [json_rules]: "g_json g \<Longrightarrow> speaks_json tx (report_error (tx_dump tx) g e)"
  unfolding speaks_json_def by (metis snd_conv talks_json_refl talks_json_report)

lemma speaks_json_call [json_rules]:
  "speaks_json tx m \<Longrightarrow> (\<And>x. speaks_json tx (f x)) \<Longrightarrow> speaks_json tx (call m f)"
  unfolding speaks_json_def call_def by (auto split: prod.splits) (meson talks_json_trans)

lemma speaks_json_attempt [json_rules]:
  "speaks_json tx m \<Longrightarrow> (\<And>x. speaks_json tx (f x)) \<Longrightarrow> speaks_json tx (attempt m f)"
  unfolding speaks_json_def attempt_def by (auto split: prod.splits sum.splits) (meson talks_json_trans)

lemma speaks_json_or_report [json_rules]:
  "g_json g \<Longrightarrow> speaks_json tx m \<Longrightarrow> (\<And>x. speaks_json tx (f x)) \<Longrightarrow> speaks_json tx (or_report tx g m f)"
  unfolding or_report_def
  by (rule speaks_json_call) (auto split: sum.splits intro: speaks_json_report)

lemma speaks_json_cases [json_rules]:
  "speaks_json tx a \<Longrightarrow> speaks_json tx b \<Longrightarrow> speaks_json tx (if p then a else b)"
  "(\<And>e. speaks_json tx (f e)) \<Longrightarrow> (\<And>x. speaks_json tx (h x)) \<Longrightarrow> speaks_json tx (case r of Inl e \<Rightarrow> f e | Inr x \<Rightarrow> h x)"
  "speaks_json tx a \<Longrightarrow> (\<And>x. speaks_json tx (h x)) \<Longrightarrow> speaks_json tx (case r' of None \<Rightarrow> a | Some x \<Rightarrow> h x)"
  "(\<And>x y. speaks_json tx (k x y)) \<Longrightarrow> speaks_json tx (case q of (x, y) \<Rightarrow> k x y)"
  by (simp_all split: sum.splits option.splits prod.splits)

lemma speaks_json_at_once [json_rules]: "speaks_json tx m \<Longrightarrow> speaks_json_wait tx (at_once m)"
  by (simp add: speaks_json_wait_def speaks_json_def at_once_def)

lemma speaks_json_wait_or_report [json_rules]:
  assumes "g_json g" and "speaks_json tx m" and "\<And>x. speaks_json_wait tx (f x)"
  shows "speaks_json_wait tx (or_report_wait tx g m f)"
  unfolding speaks_json_wait_def
proof (intro allI impI)
  fix c code c'
  assume r: "or_report_wait tx g m f c = Some (code, c')"
  obtain r c1 where m: "m c = (r, c1)" by (meson surj_pair)
  then have q: "talks_json tx c c1" using assms(2) by (auto simp: speaks_json_def)
  show "talks_json tx c c'"
  proof (cases r)
    case (Inl e)
    then show ?thesis using r m talks_json_report[OF assms(1) q, of e] by (simp add: or_report_wait_def)
  next
    case (Inr x)
    then show ?thesis
      using r m assms(3)[of x] talks_json_trans[OF q] by (auto simp: or_report_wait_def speaks_json_wait_def)
  qed
qed

lemma speaks_json_wait_cases [json_rules]:
  "speaks_json_wait tx a \<Longrightarrow> speaks_json_wait tx b \<Longrightarrow> speaks_json_wait tx (if p then a else b)"
  by simp

lemma speaks_json_lookup [json_rules]:
  "speaks_json tx (enumerate_warned sv)" "speaks_json tx (lookup_distro sv n)" "speaks_json tx (supported_distro sv n)"
  unfolding lookup_distro_def supported_distro_def enumerate_warned_def by (intro json_rules)+

lemma speaks_json_drive [json_rules]:
  assumes "g_json g"
  shows "speaks_json_wait tx (drive_and_render tx g op start n j t)"
  unfolding speaks_json_wait_def
proof (intro allI impI)
  fix c code c'
  assume d: "drive_and_render tx g op start n j t c = Some (code, c')"
  then obtain r s c1 where d1: "drive g op start c = Some ((r, s), c1)"
    by (auto simp: drive_and_render_def split: option.splits)
  then have "out_text c1 = out_text c"
    using assms(1) by (auto simp: drive_def split: option.splits)
  then have q: "talks_json tx c c1" by (rule talks_json_quiet)
  have e: "report_error (tx_dump tx) g e c1 = (code, c') \<Longrightarrow> talks_json tx c c'" for e
    using talks_json_report[OF assms(1) q, of e] by simp
  from assms d d1 show "talks_json tx c c'"
    using q
    by (auto dest: e simp: drive_and_render_def succeed_def split: sum.splits prod.splits if_splits
        intro: talks_json_answer talks_json_dry_run)
qed

section \<open>Services in memory\<close>

text \<open>The services of the machine in memory, and a console with nothing on it.\<close>

definition sample_services :: "fake_machine services" where
  "sample_services =
     \<lparr>sv_registry = fake_registry, sv_filesystem = fake_filesystem, sv_disks = fake_disks, sv_host = fake_host,
      sv_clock = fake_clock, sv_config = default_config\<rparr>"

definition sample_texts :: texts where
  "sample_texts = \<lparr>tx_dump = (\<lambda>x. ''{}''), tx_narrow = path_to_utf8, tx_widen = wide\<rparr>"

definition sample_streams :: "'w \<Rightarrow> 'w cli" where
  "sample_streams m =
     \<lparr>shell = m, in_lines = [], out_text = [], err_text = [], log_text = None, sink_width = 0\<rparr>"

definition sample_options :: global_options where
  "sample_options =
     \<lparr>g_json = True, g_verbose = False, g_assume_yes = False, g_dry_run = False, g_log_file = []\<rparr>"

end
