(* ===== verification/Operation_Commands.thy ===== *)
theory Operation_Commands
  imports Services Trim Relink Move
begin

text \<open>
  The three commands that run one operation on one distribution (\<open>src/src/cli/trim_command.cpp\<close>,
  \<open>relink_command.cpp\<close>, \<open>move_command.cpp\<close>).
\<close>

section \<open>trim\<close>

definition trimmed_bytes_are_misleading :: string where
  "trimmed_bytes_are_misleading =
     ''that figure is the free extent of the disk, not space reclaimed: '' @
     ''compaction is what shrinks the file''"

definition trim_start :: "'w \<Rightarrow> 'w trim_state" where
  "trim_start w =
     \<lparr>world = w, sink = [], trim_outcome = \<lparr>trimmed_bytes = None, used_fallback = False\<rparr>\<rparr>"

definition trim_text :: "distro \<Rightarrow> u64 option \<Rightarrow> string" where
  "trim_text d n =
     distro_name d @ '': trimmed.'' @
     (case n of
        Some b \<Rightarrow> '' fstrim reported '' @ format_size b @ ''.''
      | None \<Rightarrow> '' fstrim did not say how much.'') @ eol @
     (if n \<noteq> None then trimmed_bytes_are_misleading @ eol else []) @
     ''run `wsldisk compact '' @ distro_name d @ ''` to shrink the file itself'' @ eol"

definition trim_json :: "distro \<Rightarrow> u64 option \<Rightarrow> json" where
  "trim_json d n = JObject
     ([(''distribution'', JString (distro_name d)), (''trimmed'', JBool True)] @
      add_if_known ''bytes_offered'' json_u64 n @
      [(''note'', JString trimmed_bytes_are_misleading)])"

definition run_trim_command ::
  "texts \<Rightarrow> 'w services \<Rightarrow> string \<Rightarrow> global_options \<Rightarrow> 'w cli \<Rightarrow> (int \<times> 'w cli) option" where
  "run_trim_command tx sv n g =
     or_report_wait tx g (supported_distro sv n) (\<lambda>d.
       drive_and_render tx g
         (trim_ioperation \<lparr>tr_host = sv_host sv, tr_distro = d, tr_timeout = 10 * 60 * 1000\<rparr>) trim_start
         (distro_name d)
         (\<lambda>s. trim_json d (trimmed_bytes (trim_outcome s)))
         (\<lambda>s. trim_text d (trimmed_bytes (trim_outcome s))))"

section \<open>relink\<close>

record relink_options =
  ro_name :: string
  ro_path :: string

definition relink_start :: "'w \<Rightarrow> 'w undo_state" where
  "relink_start w = \<lparr>world = w, sink = [], undo_entries = []\<rparr>"

definition relink_text :: "relink_options \<Rightarrow> string" where
  "relink_text options = ro_name options @ '' now points at '' @ ro_path options @ eol"

definition relink_json :: "relink_options \<Rightarrow> wstr \<Rightarrow> json" where
  "relink_json options base = JObject
     [(''distribution'', JString (ro_name options)), (''vhdx_path'', JString (ro_path options)),
      (''base_path'', JString (to_utf8 base)), (''relinked'', JBool True)]"

definition relink_command_operation ::
  "texts \<Rightarrow> 'w services \<Rightarrow> relink_options \<Rightarrow> distro \<Rightarrow> 'w relink_operation" where
  "relink_command_operation tx sv options d =
     \<lparr>rl_registry = sv_registry sv, rl_filesystem = sv_filesystem sv, rl_host = sv_host sv, rl_distro = d,
      rl_target = tx_widen tx (ro_path options), rl_narrow = tx_narrow tx\<rparr>"

definition run_relink_command ::
  "texts \<Rightarrow> 'w services \<Rightarrow> relink_options \<Rightarrow> global_options \<Rightarrow> 'w cli \<Rightarrow> (int \<times> 'w cli) option" where
  "run_relink_command tx sv options g =
     or_report_wait tx g (lookup_distro sv (ro_name options)) (\<lambda>d.
       drive_and_render tx g (relink_ioperation (relink_command_operation tx sv options d)) relink_start
         (ro_name options)
         (\<lambda>s. relink_json options (relink_base_path d (tx_widen tx (ro_path options))))
         (\<lambda>s. relink_text options))"

section \<open>move\<close>

record move_command_options =
  mo_name :: string
  mo_destination :: string
  mo_keep_source :: bool

definition move_command_operation ::
  "texts \<Rightarrow> 'w services \<Rightarrow> move_command_options \<Rightarrow> distro \<Rightarrow> 'w move_operation" where
  "move_command_operation tx sv options d =
     \<lparr>mv_registry = sv_registry sv, mv_filesystem = sv_filesystem sv, mv_host = sv_host sv, mv_distro = d,
      mv_destination = tx_widen tx (mo_destination options),
      mv_options = \<lparr>keep_source = mo_keep_source options\<rparr>, mv_narrow = tx_narrow tx\<rparr>"

definition move_text :: "move_command_options \<Rightarrow> 'w move_operation \<Rightarrow> ('w, 'm) move_state_scheme \<Rightarrow> string" where
  "move_text options m s =
     mo_name options @ '' now lives at '' @ mv_narrow m (move_target m) @ '' ('' @
     format_size (move_size s) @ '')'' @ eol"

definition move_json :: "move_command_options \<Rightarrow> 'w move_operation \<Rightarrow> ('w, 'm) move_state_scheme \<Rightarrow> json" where
  "move_json options m s = JObject
     [(''distribution'', JString (mo_name options)), (''vhdx_path'', JString (mv_narrow m (move_target m))),
      (''base_path'', JString (to_utf8 (move_base_path m))), (''moved'', JBool True),
      (''renamed'', JBool (was_renamed m s)), (''same_volume'', JBool (is_same_volume s)),
      (''kept_source'', JBool (mo_keep_source options)), (''size_on_disk'', json_u64 (move_size s))]"

definition run_move_command ::
  "texts \<Rightarrow> 'w services \<Rightarrow> move_command_options \<Rightarrow> global_options \<Rightarrow> 'w cli \<Rightarrow> (int \<times> 'w cli) option" where
  "run_move_command tx sv options g =
     or_report_wait tx g (lookup_distro sv (mo_name options)) (\<lambda>d.
       let m = move_command_operation tx sv options d in
       drive_and_render tx g (move_ioperation m) (\<lambda>w. move_start w []) (mo_name options)
         (move_json options m) (move_text options m))"

section \<open>They end\<close>

text \<open>None of the three operations waits for anything but its calls.\<close>

lemma drive_and_render_returns:
  assumes "\<And>s. op_execute op s \<noteq> None"
  shows "drive_and_render tx g op start n j t c \<noteq> None"
proof -
  have "run_operation op options s \<noteq> None" for options s
    using run_operation_returns[OF assms] by auto
  then show ?thesis
    by (auto simp: drive_and_render_def drive_def split: option.splits)
qed

lemma or_report_wait_returns:
  "(\<And>x c1. f x c1 \<noteq> None) \<Longrightarrow> or_report_wait tx g m f c \<noteq> None"
  by (auto simp: or_report_wait_def split: prod.splits sum.splits)

lemma operation_commands_return:
  "run_trim_command tx sv n g c \<noteq> None" "run_relink_command tx sv ro g c \<noteq> None"
  "run_move_command tx sv mo g c \<noteq> None"
  unfolding run_trim_command_def run_relink_command_def run_move_command_def Let_def
  by (rule or_report_wait_returns, rule drive_and_render_returns,
      simp add: trim_ioperation_def relink_ioperation_def move_ioperation_def)+

lemma operation_commands_json [json_rules]:
  assumes "g_json g"
  shows "speaks_json_wait tx (run_trim_command tx sv n g)"
    and "speaks_json_wait tx (run_relink_command tx sv ro g)"
    and "speaks_json_wait tx (run_move_command tx sv mo g)"
  unfolding run_trim_command_def run_relink_command_def run_move_command_def Let_def
  by (intro json_rules assms)+

end
