(* ===== verification/Orphans_Command.thy ===== *)
theory Orphans_Command
  imports Operation_Commands Orphans
begin

text \<open>
  \<open>orphans\<close> (\<open>src/src/cli/orphans_command.cpp\<close>): the scan over the built-in and configured patterns, the
  listing, and the deletion after one question. A \<open>Confirm\<close> reads a question and the streams.
\<close>

section \<open>Rendering\<close>

record orphans_options =
  oo_scan_dirs :: "string list"
  oo_remove :: bool
  oo_relink_distro :: string
  oo_relink_path :: string

definition relinking :: "orphans_options \<Rightarrow> bool" where
  "relinking options \<longleftrightarrow> oo_relink_distro options \<noteq> []"

type_synonym 'w confirm = "string \<Rightarrow> 'w cli \<Rightarrow> bool \<times> 'w cli"

definition total_size :: "orphan list \<Rightarrow> u64" where
  "total_size os = foldl (\<lambda>n x. n + case_option 0 id (size_on_disk x)) 0 os"

definition orphan_table :: "orphan list \<Rightarrow> table" where
  "orphan_table os =
     fold (\<lambda>x. add_row [bytes_cell (size_on_disk x), text_cell (path_to_utf8 (orphan_path x))]) os
       (new_table [''SIZE ON DISK'', ''PATH''])"

definition orphan_json :: "orphan \<Rightarrow> json" where
  "orphan_json x = JObject
     ((''path'', JString (path_to_utf8 (orphan_path x))) # add_if_known ''size_on_disk'' json_u64 (size_on_disk x))"

definition deletion_json :: "orphan \<Rightarrow> string option \<Rightarrow> json" where
  "deletion_json x failed = JObject
     ([(''path'', JString (path_to_utf8 (orphan_path x))), (''deleted'', JBool (failed = None))] @
      add_if_known ''error'' JString failed)"

definition dry_deletion_json :: "orphan \<Rightarrow> json" where
  "dry_deletion_json x = JObject
     [(''path'', JString (path_to_utf8 (orphan_path x))), (''dry_run'', JBool True), (''deleted'', JBool False)]"

definition print_each :: "texts \<Rightarrow> ('a \<Rightarrow> json) \<Rightarrow> 'a list \<Rightarrow> 'w cli \<Rightarrow> 'w cli" where
  "print_each tx f xs = fold (\<lambda>x. print_json tx (f x)) xs"

section \<open>Asking\<close>

definition ask :: "'w confirm" where
  "ask question c =
     (let c1 = print_out (question @ '' [y/N] '') c in
      case in_lines c1 of
        [] \<Rightarrow> (False, c1)
      | line # rest \<Rightarrow>
          (map tolower line = ''y'' \<or> map tolower line = ''yes'', c1\<lparr>in_lines := rest\<rparr>))"

section \<open>Scanning\<close>

definition scan_for_orphans ::
  "texts \<Rightarrow> 'w services \<Rightarrow> global_options \<Rightarrow> orphans_options \<Rightarrow> 'w cli \<Rightarrow> (error + orphan list) \<times> 'w cli" where
  "scan_for_orphans tx sv g options =
     attempt (enumerate_warned sv) (\<lambda>l.
     attempt (on_shell (default_scan_patterns (sv_filesystem sv))) (\<lambda>patterns.
     call (on_shell (find_orphans (sv_filesystem sv) l
            (patterns @ map (tx_widen tx) (scan_dirs (sv_config sv)) @ map (tx_widen tx) (oo_scan_dirs options))
            [])) (\<lambda>(os, warnings).
     call (effect (fold (log_verbose g) warnings)) (\<lambda>_.
     ret (Inr os)))))"

section \<open>Deleting\<close>

definition delete_one :: "'w services \<Rightarrow> orphan \<Rightarrow> 'w \<Rightarrow> string option \<times> 'w" where
  "delete_one sv x =
     call (is_locked (sv_filesystem sv) (orphan_path x)) (\<lambda>locked.
     case locked of
       Inl e \<Rightarrow> ret (Some (error_to_string e))
     | Inr True \<Rightarrow> ret (Some (path_to_utf8 (orphan_path x) @ '' is in use by another process''))
     | Inr False \<Rightarrow>
         call (remove_file (sv_filesystem sv) (orphan_path x)) (\<lambda>removed.
         ret (case removed of Inl e \<Rightarrow> Some (error_to_string e) | Inr _ \<Rightarrow> None)))"

definition say_deletion ::
  "texts \<Rightarrow> global_options \<Rightarrow> orphan \<Rightarrow> string option \<Rightarrow> 'w cli \<Rightarrow> 'w cli" where
  "say_deletion tx g x failed =
     (if g_json g then print_json tx (deletion_json x failed)
      else
        (case failed of
           Some t \<Rightarrow> print_err (''error: '' @ t @ eol)
         | None \<Rightarrow> print_out (''deleted '' @ path_to_utf8 (orphan_path x) @ eol)))"

text \<open>The loop: how many could not be deleted.\<close>

fun delete_each ::
  "texts \<Rightarrow> 'w services \<Rightarrow> global_options \<Rightarrow> orphan list \<Rightarrow> 'w cli \<Rightarrow> nat \<times> 'w cli" where
  "delete_each tx sv g [] c = (0, c)"
| "delete_each tx sv g (x # xs) c =
     (case on_shell (delete_one sv x) c of
        (failed, c1) \<Rightarrow>
          (case delete_each tx sv g xs (say_deletion tx g x failed c1) of
             (n, c2) \<Rightarrow> (n + (if failed = None then 0 else 1), c2)))"

definition deletion_warning :: string where
  "deletion_warning =
     eol @ ''not every disk here is unused: software other than WSL keeps virtual disks'' @ eol @
     ''that no distribution claims. Check what each one is before deleting it.'' @ eol"

definition not_deleted :: "nat \<Rightarrow> nat \<Rightarrow> error" where
  "not_deleted failures all =
     mk_error (if failures = all then DistroBusy else Partial)
       (show_nat failures @ '' of '' @ show_nat all @ '' file(s) could not be deleted'')
       (''a disk held open by something else is not an orphan; close whatever '' @
        ''is using it -- `wsl --shutdown` for WSL, or quit Docker Desktop -- '' @
        ''and try again'')"

definition delete_question :: "orphan list \<Rightarrow> string" where
  "delete_question os = ''delete '' @ show_nat (length os) @ '' file(s)?''"

definition announce_deletion :: "global_options \<Rightarrow> orphan list \<Rightarrow> 'w cli \<Rightarrow> 'w cli" where
  "announce_deletion g os c =
     (if g_json g then c
      else print_out (render_table (orphan_table os) @ eol @ format_size (total_size os) @
             '' would be freed'' @ eol @ deletion_warning) c)"

definition delete_confirmed ::
  "texts \<Rightarrow> 'w services \<Rightarrow> orphan list \<Rightarrow> global_options \<Rightarrow> 'w cli \<Rightarrow> int \<times> 'w cli" where
  "delete_confirmed tx sv os g =
     call (delete_each tx sv g os) (\<lambda>failures.
     if failures > 0 then report_error (tx_dump tx) g (not_deleted failures (length os)) else succeed)"

definition delete_orphans ::
  "texts \<Rightarrow> 'w services \<Rightarrow> orphan list \<Rightarrow> global_options \<Rightarrow> 'w confirm \<Rightarrow> 'w cli \<Rightarrow> int \<times> 'w cli" where
  "delete_orphans tx sv os g confirm =
     (if os = [] then
        call (effect (if g_json g then id else print_out (''nothing to delete'' @ eol))) (\<lambda>_. succeed)
      else
        call (effect (announce_deletion g os)) (\<lambda>_.
        if g_dry_run g then
          call (effect (if g_json g then print_each tx dry_deletion_json os
                        else print_out (''--dry-run: nothing was deleted'' @ eol))) (\<lambda>_. succeed)
        else
          call (if g_assume_yes g then ret True else confirm (delete_question os)) (\<lambda>agreed.
          if \<not> agreed then
            call (effect (if g_json g then id else print_out (''nothing was deleted'' @ eol))) (\<lambda>_. succeed)
          else delete_confirmed tx sv os g)))"

definition orphans_text :: "orphan list \<Rightarrow> string" where
  "orphans_text os =
     (if os = [] then ''no orphaned disks found'' @ eol
      else render_table (orphan_table os) @ eol @ format_size (total_size os) @ '' in '' @
        show_nat (length os) @ '' file(s) that no distribution claims'' @ eol)"

definition run_orphans ::
  "texts \<Rightarrow> 'w services \<Rightarrow> orphans_options \<Rightarrow> global_options \<Rightarrow> 'w confirm \<Rightarrow> 'w cli \<Rightarrow> (int \<times> 'w cli) option" where
  "run_orphans tx sv options g confirm =
     (if relinking options then
        run_relink_command tx sv \<lparr>ro_name = oo_relink_distro options, ro_path = oo_relink_path options\<rparr> g
      else
        at_once
          (or_report tx g (scan_for_orphans tx sv g options) (\<lambda>os.
           if oo_remove options then delete_orphans tx sv os g confirm
           else
             call (effect (if g_json g then print_each tx orphan_json os else print_out (orphans_text os))) (\<lambda>_.
             succeed))))"

section \<open>What a deletion removes\<close>

lemma delete_one_removes:
  assumes "file_contract (sv_filesystem sv) files key" and "delete_one sv x w = (failed, w')"
  shows "files w' = (if failed = None then (files w)(key (orphan_path x) := None) else files w)"
proof -
  note reads = file_contract.is_locked_reads[OF assms(1)]
  note ok = file_contract.remove_ok[OF assms(1)]
  note bad = file_contract.remove_fails[OF assms(1)]
  from assms(2) show ?thesis
    by (auto simp: delete_one_def call_def ret_def split: prod.splits sum.splits bool.splits
        dest!: reads dest: ok bad)
qed

definition without :: "('k \<Rightarrow> 'd option) \<Rightarrow> 'k list \<Rightarrow> 'k \<Rightarrow> 'd option" where
  "without f ks = (\<lambda>k. if k \<in> set ks then None else f k)"

lemma without_Nil [simp]: "without f [] = f"
  by (simp add: without_def)

lemma without_Cons: "without (f(k := None)) ks = without f (k # ks)"
  by (auto simp: without_def)

lemma say_deletion_shell [simp]: "shell (say_deletion tx g x failed c) = shell c"
  by (simp add: say_deletion_def print_json_def split: option.splits)

lemma delete_each_removes:
  assumes "file_contract (sv_filesystem sv) files key" and "delete_each tx sv g xs c = (n, c')"
  shows "\<exists>gone. set gone \<subseteq> set xs \<and> length gone + n = length xs \<and> (n = 0 \<longrightarrow> gone = xs) \<and>
    files (shell c') = without (files (shell c)) (map (key \<circ> orphan_path) gone)"
  using assms(2)
proof (induction xs arbitrary: c n)
  case (Cons x xs)
  obtain failed w1 where d: "delete_one sv x (shell c) = (failed, w1)" by (meson surj_pair)
  let ?c = "say_deletion tx g x failed (c\<lparr>shell := w1\<rparr>)"
  obtain m where r: "delete_each tx sv g xs ?c = (m, c')" and n: "n = m + (if failed = None then 0 else 1)"
    using Cons.prems d by (auto simp: on_shell_def split: prod.splits)
  obtain gone where g: "set gone \<subseteq> set xs" "length gone + m = length xs" "m = 0 \<longrightarrow> gone = xs"
    "files (shell c') = without (files w1) (map (key \<circ> orphan_path) gone)"
  proof -
    have sh: "shell ?c = w1" by simp
    from Cons.IH[OF r] that show thesis unfolding sh by blast
  qed
  have w1: "files w1 = (if failed = None then (files (shell c))(key (orphan_path x) := None) else files (shell c))"
    by (rule delete_one_removes[OF assms(1) d])
  show ?case
  proof (cases "failed = None")
    case True
    then show ?thesis using g n w1 by (intro exI[of _ "x # gone"]) (auto simp: without_Cons comp_def)
  next
    case False
    then show ?thesis using g n w1 by (intro exI[of _ gone]) (auto simp: comp_def)
  qed
qed simp

lemma streams_shell [simp]:
  "shell (print_each tx f xs c) = shell c"
  "shell (announce_deletion g os c) = shell c"
  by (induction xs arbitrary: c) (simp_all add: print_each_def print_json_def announce_deletion_def)

text \<open>Whether the deletion is carried out, and what it then removes.\<close>

definition agreed_to_delete :: "global_options \<Rightarrow> orphan list \<Rightarrow> 'w confirm \<Rightarrow> 'w cli \<Rightarrow> bool" where
  "agreed_to_delete g os confirm c \<longleftrightarrow> os \<noteq> [] \<and> \<not> g_dry_run g \<and>
     (g_assume_yes g \<or> fst (confirm (delete_question os) (announce_deletion g os c)))"

lemma delete_orphans_cases:
  assumes "\<And>q c. files (shell (snd (confirm q c))) = files (shell c)"
    and "delete_orphans tx sv os g confirm c = (code, c')"
  obtains (kept) "\<not> agreed_to_delete g os confirm c" "files (shell c') = files (shell c)" "code = 0"
  | (deleting) c1 where "agreed_to_delete g os confirm c" "files (shell c1) = files (shell c)"
      "delete_confirmed tx sv os g c1 = (code, c')"
proof (cases "agreed_to_delete g os confirm c")
  case False
  have "files (shell (snd (confirm (delete_question os) (announce_deletion g os c)))) = files (shell c)"
    by (simp add: assms(1))
  with False assms(2) have "files (shell c') = files (shell c) \<and> code = 0"
    by (auto simp: agreed_to_delete_def delete_orphans_def call_def effect_def ret_def succeed_def
        exit_code_success_def split: if_splits prod.splits)
  with False kept show thesis by simp
next
  case True
  let ?a = "announce_deletion g os c"
  define c1 where "c1 = (if g_assume_yes g then ?a else snd (confirm (delete_question os) ?a))"
  have "files (shell c1) = files (shell c)" by (simp add: c1_def assms(1))
  moreover have "delete_confirmed tx sv os g c1 = (code, c')"
    using True assms(2)
    by (cases "confirm (delete_question os) ?a")
      (auto simp: agreed_to_delete_def delete_orphans_def call_def effect_def ret_def c1_def)
  ultimately show thesis using True deleting by blast
qed

lemma delete_confirmed_removes:
  assumes "file_contract (sv_filesystem sv) files key" and "delete_confirmed tx sv os g c = (code, c')"
  obtains gone n where "set gone \<subseteq> set os" "length gone + n = length os" "n = 0 \<longrightarrow> gone = os"
    "files (shell c') = without (files (shell c)) (map (key \<circ> orphan_path) gone)"
    "code = (if n = 0 then 0 else if n = length os then 11 else 5)"
proof -
  from assms(2) obtain n c2 where n: "delete_each tx sv g os c = (n, c2)" and
    code: "(code, c') = (if n > 0 then report_error (tx_dump tx) g (not_deleted n (length os)) c2 else succeed c2)"
    by (auto simp: delete_confirmed_def call_def split: prod.splits if_splits)
  have "shell c' = shell c2 \<and> code = (if n = 0 then 0 else if n = length os then 11 else 5)"
    using code by (auto simp: report_error_def succeed_def exit_code_success_def not_deleted_def mk_error_def
        split: if_splits)
  with delete_each_removes[OF assms(1) n] that show thesis by metis
qed

text \<open>C6: \<open>orphans --delete\<close> removes only files of the list it showed, and none without consent: not under
  \<open>--dry-run\<close>, and not unless \<open>--yes\<close> was given or the question was answered with yes. Exit code 0 with
  consent means every file is gone, 11 that none is, 5 that some are.\<close>

theorem delete_needs_consent:
  assumes "file_contract (sv_filesystem sv) files key"
    and "\<And>q c. files (shell (snd (confirm q c))) = files (shell c)"
    and "delete_orphans tx sv os g confirm c = (code, c')"
  shows "\<exists>gone agreed. set gone \<subseteq> set os \<and>
    files (shell c') = without (files (shell c)) (map (key \<circ> orphan_path) gone) \<and>
    (agreed \<longleftrightarrow> os \<noteq> [] \<and> \<not> g_dry_run g \<and>
       (g_assume_yes g \<or> fst (confirm (delete_question os) (announce_deletion g os c)))) \<and>
    (\<not> agreed \<longrightarrow> gone = [] \<and> code = 0) \<and>
    (agreed \<longrightarrow>
       (code = 0 \<longleftrightarrow> length gone = length os) \<and> (code = 0 \<longrightarrow> gone = os) \<and>
       (code = 11 \<longleftrightarrow> gone = []) \<and> (code = 5 \<longleftrightarrow> gone \<noteq> [] \<and> length gone < length os))"
  using assms(2,3)
proof (cases rule: delete_orphans_cases)
  case kept
  then show ?thesis by (intro exI[of _ "[]"] exI[of _ False]) (auto simp: agreed_to_delete_def)
next
  case (deleting c1)
  obtain gone n where "set gone \<subseteq> set os" "length gone + n = length os" "n = 0 \<longrightarrow> gone = os"
    "files (shell c') = without (files (shell c1)) (map (key \<circ> orphan_path) gone)"
    "code = (if n = 0 then 0 else if n = length os then 11 else 5)"
    by (rule delete_confirmed_removes[OF assms(1) deleting(3)])
  with deleting(1,2) show ?thesis
    by (intro exI[of _ gone] exI[of _ True]) (auto simp: agreed_to_delete_def)
qed

definition loose_orphan :: orphan where
  "loose_orphan = \<lparr>orphan_path = [0x64], size_on_disk = Some 4096\<rparr>"

definition orphaned_machine :: fake_machine where
  "orphaned_machine = sample_machine\<lparr>fake_files := [[0x64] \<mapsto>
     \<lparr>ff_size = 8192, ff_size_on_disk = 4096, ff_sparse = True, ff_text = []\<rparr>]\<rparr>"

lemma ask_shell [simp]: "shell (snd (ask q c)) = shell c"
  by (simp add: ask_def Let_def split: list.splits)

text \<open>With the answer \<open>y\<close> the file is gone; with no answer it is still there.\<close>

theorem delete_needs_consent_witness:
  "fake_files (shell (snd (delete_orphans sample_texts sample_services [loose_orphan] sample_options ask
      ((sample_streams orphaned_machine)\<lparr>in_lines := [''y'']\<rparr>)))) [0x64] = None \<and>
   fake_files (shell (snd (delete_orphans sample_texts sample_services [loose_orphan] sample_options ask
      (sample_streams orphaned_machine)))) [0x64] \<noteq> None"
proof -
  have contract: "file_contract (sv_filesystem sample_services) fake_files id"
    by (simp add: sample_services_def fake_filesystem.file_contract_axioms)
  note consent = delete_needs_consent[OF contract, where confirm = ask and tx = sample_texts and
      os = "[loose_orphan]" and g = sample_options, OF _ surjective_pairing]
  let ?yes = "(sample_streams orphaned_machine)\<lparr>in_lines := [''y'']\<rparr>"
  have code: "fst (delete_orphans sample_texts sample_services [loose_orphan] sample_options ask ?yes) = 0"
    by code_simp
  have asked: "fst (ask (delete_question [loose_orphan]) (announce_deletion sample_options [loose_orphan] ?yes))"
    by code_simp
  have no: "\<not> fst (ask (delete_question [loose_orphan]) (announce_deletion sample_options [loose_orphan]
      (sample_streams orphaned_machine)))"
    by code_simp
  have m: "fake_files orphaned_machine [0x64] \<noteq> None" by (simp add: orphaned_machine_def)
  have "fake_files (shell (snd (delete_orphans sample_texts sample_services [loose_orphan] sample_options ask ?yes))) [0x64] = None"
    using consent[of ?yes] code asked by (auto simp: without_def loose_orphan_def sample_options_def)
  moreover have "fake_files (shell (snd (delete_orphans sample_texts sample_services [loose_orphan] sample_options ask
      (sample_streams orphaned_machine)))) [0x64] \<noteq> None"
    using consent[of "sample_streams orphaned_machine"] no m
    by (auto simp: sample_options_def sample_streams_def)
  ultimately show ?thesis ..
qed

text \<open>The question itself goes to standard output under \<open>--json\<close> too, and makes it unparseable.\<close>

lemma json_lines_end: "json_lines dump t \<Longrightarrow> t \<noteq> [] \<Longrightarrow> last t = CHR 0x0A"
proof -
  assume "json_lines dump t" and "t \<noteq> []"
  then obtain xs where t: "t = concat (map (\<lambda>x. dump x @ eol) xs)" by (auto simp: json_lines_def)
  with \<open>t \<noteq> []\<close> have "xs \<noteq> []" by auto
  then obtain ys y where "xs = ys @ [y]" by (metis rev_exhaust)
  with t show ?thesis by (simp add: eol_def)
qed

theorem orphans_prompt_breaks_json:
  assumes "g_json g" and "\<not> g_dry_run g" and "\<not> g_assume_yes g" and "os \<noteq> []" and "in_lines c = []"
  shows "out_text (snd (delete_orphans tx sv os g ask c)) = out_text c @ delete_question os @ '' [y/N] '' \<and>
    \<not> json_lines dump (delete_question os @ '' [y/N] '')"
proof
  show "out_text (snd (delete_orphans tx sv os g ask c)) = out_text c @ delete_question os @ '' [y/N] ''"
    using assms by (simp add: delete_orphans_def call_def effect_def announce_deletion_def ask_def Let_def succeed_def)
  show "\<not> json_lines dump (delete_question os @ '' [y/N] '')"
    using json_lines_end[of dump "delete_question os @ '' [y/N] ''"] by auto
qed

section \<open>The whole command\<close>

definition claimed_paths :: "distro_list \<Rightarrow> wstr list" where
  "claimed_paths l = map (\<lambda>d. canonical_path (vhdx_path d)) (distros l)"

lemma scan_for_orphans_finds:
  assumes "scan_contract (sv_registry sv) (sv_filesystem sv) files key"
    and "scan_for_orphans tx sv g options c = (r, c')"
  shows "files (shell c') = files (shell c) \<and>
    (\<forall>os. r = Inr os \<longrightarrow>
       (\<exists>l. fst (enumerate_distros (sv_registry sv) (shell c)) = Inr l \<and>
          scan_ok (claimed_paths l) (canonical_orphans os) os))"
proof -
  note reads =
    registry_reader.enumerate_reads[OF scan_contract.axioms(1)[OF assms(1)]]
    scan_contract.default_scan_patterns_keeps[OF assms(1)]
    scan_contract.find_orphans_keeps[OF assms(1)]
  have quiet: "shell (fold (log_verbose g) ms c1) = shell c1" for ms and c1 :: "'a cli"
    by (induction ms arbitrary: c1) simp_all
  obtain e w1 where e: "enumerate_distros (sv_registry sv) (shell c) = (e, w1)" by (meson surj_pair)
  show ?thesis
  proof (cases e)
    case (Inl err)
    with e assms(2) reads(1)[OF e] show ?thesis
      by (auto simp: scan_for_orphans_def enumerate_warned_def attempt_def on_shell_def)
  next
    case (Inr l)
    obtain p w2 where p: "default_scan_patterns (sv_filesystem sv) w1 = (p, w2)" by (meson surj_pair)
    show ?thesis
    proof (cases p)
      case (Inl err)
      with e Inr p assms(2) reads(1)[OF e] reads(2)[OF p] show ?thesis
        by (auto simp: scan_for_orphans_def enumerate_warned_def attempt_def call_def effect_def ret_def on_shell_def)
    next
      case (Inr patterns)
      let ?ps = "patterns @ map (tx_widen tx) (scan_dirs (sv_config sv)) @ map (tx_widen tx) (oo_scan_dirs options)"
      obtain os ws w3 where o: "find_orphans (sv_filesystem sv) l ?ps [] w2 = ((os, ws), w3)" by (metis surj_pair)
      have "r = Inr os \<and> shell c' = w3"
        using e \<open>e = Inr l\<close> p Inr o assms(2)
        by (auto simp: scan_for_orphans_def enumerate_warned_def attempt_def call_def effect_def ret_def
            on_shell_def quiet)
      with e \<open>e = Inr l\<close> reads(1)[OF e] reads(2)[OF p] reads(3)[OF o] find_orphans_ok[OF o] show ?thesis
        by (simp add: claimed_paths_def)
    qed
  qed
qed


text \<open>A distribution's disk and a loose one beside it, found through \<open>--scan\<close> and deleted with \<open>--yes\<close>.\<close>

definition disk_path :: "string \<Rightarrow> path" where
  "disk_path n = wide ''C:'' @ [backslash] @ wide ''u'' @ [backslash] @ wide n"

definition scanned_machine :: fake_machine where
  "scanned_machine = sample_machine\<lparr>
     fake_files := (\<lambda>p. if p = disk_path ''ext4.vhdx'' \<or> p = disk_path ''old.vhdx''
       then Some \<lparr>ff_size = 8192, ff_size_on_disk = 4096, ff_sparse = True, ff_text = []\<rparr> else None),
     fake_listing := (\<lambda>d. if d = wide ''C:''
       then map (\<lambda>n. \<lparr>entry_path = disk_path n, entry_size = 1, entry_is_directory = False\<rparr>)
              [''EXT4.vhdx'', ''old.vhdx'']
       else [])\<rparr>"

definition delete_everything :: "global_options" where
  "delete_everything = sample_options\<lparr>g_assume_yes := True\<rparr>"

definition scan_and_delete :: orphans_options where
  "scan_and_delete = \<lparr>oo_scan_dirs = [''C:''], oo_remove = True, oo_relink_distro = [], oo_relink_path = []\<rparr>"

lemma scanned_machine_distro:
  "map_option (map vhdx_path) (case fst (enumerate_distros fake_registry scanned_machine) of
     Inl _ \<Rightarrow> None | Inr l \<Rightarrow> Some (distros l)) = Some [disk_path ''ext4.vhdx'']"
  by code_simp


section \<open>Standard output\<close>

lemma print_each_talks: "talks_json tx c (print_each tx f xs c)"
  unfolding print_each_def
  by (induction xs arbitrary: c) (auto intro: talks_json_trans[OF talks_json_print_json[OF talks_json_refl]])

lemma speaks_json_print_each [json_rules]: "speaks_json tx (effect (print_each tx f xs))"
  by (rule speaks_json_effect) (rule print_each_talks)

lemma speaks_json_delete_each [json_rules]:
  assumes "g_json g"
  shows "speaks_json tx (delete_each tx sv g xs)"
proof (induction xs)
  case (Cons x xs)
  have said: "talks_json tx c (say_deletion tx g x failed c)" for failed and c :: "'a cli"
    using assms by (simp add: say_deletion_def talks_json_print_json)
  have unfold: "delete_each tx sv g (x # xs) =
      call (on_shell (delete_one sv x)) (\<lambda>failed.
      call (effect (say_deletion tx g x failed)) (\<lambda>_.
      call (delete_each tx sv g xs) (\<lambda>n. ret (n + (if failed = None then 0 else 1)))))"
    by (simp add: fun_eq_iff call_def effect_def ret_def split: prod.splits)
  show ?case unfolding unfold by (intro json_rules Cons speaks_json_effect said)
qed (simp add: speaks_json_def)

lemma speaks_json_delete [json_rules]:
  assumes "g_json g" and "g_assume_yes g"
  shows "speaks_json tx (delete_orphans tx sv os g confirm)"
proof -
  have "speaks_json tx (effect (announce_deletion g os))"
    using assms(1) by (simp add: speaks_json_quiet announce_deletion_def)
  then show ?thesis
    unfolding delete_orphans_def delete_confirmed_def
    using assms by (simp, intro json_rules impI conjI)
qed

lemma speaks_json_scan [json_rules]: "speaks_json tx (scan_for_orphans tx' sv g options)"
  unfolding scan_for_orphans_def by (intro json_rules)

lemma run_orphans_json [json_rules]:
  assumes "g_json g" and "g_assume_yes g \<or> \<not> oo_remove options"
  shows "speaks_json_wait tx (run_orphans tx sv options g confirm)"
proof (cases "oo_remove options")
  case True
  with assms show ?thesis
    unfolding run_orphans_def by (simp, intro json_rules conjI impI)
next
  case False
  with assms(1) show ?thesis
    unfolding run_orphans_def by (simp, intro json_rules conjI impI)
qed

end
