(* ===== verification/List_Command.thy ===== *)
theory List_Command
  imports Services
begin

text \<open>
  \<open>list\<close> and \<open>info\<close> (\<open>src/src/cli/list_command.cpp\<close>, \<open>info_command.cpp\<close>): the rows they gather, the table,
  the details and the two JSON forms.
\<close>

section \<open>Gathering\<close>

record list_row =
  row_distro :: distro
  row_info :: disk_info
  row_running :: "bool option"

definition gather_probe :: "bool \<Rightarrow> string \<Rightarrow> distro \<Rightarrow> probe_options" where
  "gather_probe probe probe_only d =
     \<lparr>probe_guest = probe \<and> (probe_only = [] \<or> find_matches d probe_only), guest_timeout = 30000\<rparr>"

definition gather_row ::
  "texts \<Rightarrow> 'w services \<Rightarrow> global_options \<Rightarrow> bool \<Rightarrow> string \<Rightarrow> string list option \<Rightarrow> distro \<Rightarrow>
     'w cli \<Rightarrow> list_row \<times> 'w cli" where
  "gather_row tx sv g probe probe_only names d =
     (let state = map_option (\<lambda>ns. distro_name d \<in> set ns) names in
      if is_wsl2 d then
        call (on_shell (measure_disk (tx_narrow tx) (sv_filesystem sv) (sv_disks sv) (sv_host sv)
               (gather_probe probe probe_only d) d)) (\<lambda>i.
        call (effect (fold (log_verbose g) (info_notes i))) (\<lambda>_.
        ret \<lparr>row_distro = d, row_info = i, row_running = state\<rparr>))
      else ret \<lparr>row_distro = d, row_info = no_info, row_running = state\<rparr>)"

fun gather_rows ::
  "texts \<Rightarrow> 'w services \<Rightarrow> global_options \<Rightarrow> bool \<Rightarrow> string \<Rightarrow> string list option \<Rightarrow> distro list \<Rightarrow>
     'w cli \<Rightarrow> list_row list \<times> 'w cli" where
  "gather_rows tx sv g probe probe_only names [] c = ([], c)"
| "gather_rows tx sv g probe probe_only names (d # ds) c =
     (case gather_row tx sv g probe probe_only names d c of
        (row, c1) \<Rightarrow>
          (case gather_rows tx sv g probe probe_only names ds c1 of (rows, c2) \<Rightarrow> (row # rows, c2)))"

definition gather ::
  "texts \<Rightarrow> 'w services \<Rightarrow> global_options \<Rightarrow> bool \<Rightarrow> string \<Rightarrow> 'w cli \<Rightarrow> (error + list_row list) \<times> 'w cli" where
  "gather tx sv g probe probe_only =
     attempt (enumerate_warned sv) (\<lambda>l.
     call (on_shell (running (sv_host sv))) (\<lambda>asked.
     call (effect (case asked of Inl e \<Rightarrow> log_warn (error_to_string e) | Inr _ \<Rightarrow> id)) (\<lambda>_.
     call (gather_rows tx sv g probe probe_only (case asked of Inl _ \<Rightarrow> None | Inr names \<Rightarrow> Some names)
            (distros l)) (\<lambda>rows.
     ret (Inr rows)))))"

section \<open>list\<close>

definition running_text :: "bool option \<Rightarrow> string option" where
  "running_text r = map_option (\<lambda>b. if b then ''running'' else ''stopped'') r"

definition list_cells :: "list_row \<Rightarrow> cell list" where
  "list_cells row =
     (let d = row_distro row; i = row_info row in
      [text_cell (if is_default d then distro_name d @ '' *'' else distro_name d),
       text_cell (show_word (version d)), maybe_text_cell (running_text (row_running row)),
       bytes_cell (info_size_on_disk i), bytes_cell (info_guest_used i), bytes_cell (reclaimable i),
       text_cell (path_to_utf8 (vhdx_path d))])"

definition list_table :: "list_row list \<Rightarrow> table" where
  "list_table rows =
     fold (\<lambda>row. add_row (list_cells row)) rows
       (new_table [''NAME'', ''VER'', ''STATE'', ''SIZE ON DISK'', ''GUEST USED'', ''RECLAIMABLE'', ''PATH''])"

definition render_list_json :: "texts \<Rightarrow> list_row list \<Rightarrow> 'w cli \<Rightarrow> 'w cli" where
  "render_list_json tx rows = fold (\<lambda>row. print_json tx (distro_json (row_distro row) (row_info row))) rows"

definition run_list ::
  "texts \<Rightarrow> 'w services \<Rightarrow> bool \<Rightarrow> global_options \<Rightarrow> 'w cli \<Rightarrow> int \<times> 'w cli" where
  "run_list tx sv probe g =
     or_report tx g (gather tx sv g probe []) (\<lambda>rows.
     call (effect (if g_json g then render_list_json tx rows else print_out (render_table (list_table rows)))) (\<lambda>_.
     succeed))"

section \<open>info\<close>

record info_options =
  io_name :: string
  io_probe :: bool

text \<open>\<open>std::format("{:x}", n)\<close>.\<close>

fun hex_digits :: "nat \<Rightarrow> string" where
  "hex_digits n =
     (let d = n mod 16; ch = char_of (if d < 10 then 48 + d else 87 + d)
      in if n < 16 then [ch] else hex_digits (n div 16) @ [ch])"

declare hex_digits.simps [simp del]

definition decode_flags :: "u32 \<Rightarrow> string" where
  "decode_flags flags =
     (let rest = and flags (not 7);
          names = (if and flags 1 \<noteq> 0 then [''interop''] else []) @
            (if and flags 2 \<noteq> 0 then [''append-nt-path''] else []) @
            (if and flags 4 \<noteq> 0 then [''drive-mounting''] else []) @
            (if rest \<noteq> 0 then [''undocumented(0x'' @ hex_digits (unat rest) @ '')''] else [])
      in if names = [] then ''none'' else join_with '', '' names)"

definition running_state :: "bool option \<Rightarrow> string" where
  "running_state r = (case r of None \<Rightarrow> ''-'' | Some b \<Rightarrow> if b then ''running'' else ''stopped'')"

definition yes_no :: "bool option \<Rightarrow> string" where
  "yes_no r = (case r of None \<Rightarrow> ''-'' | Some b \<Rightarrow> if b then ''yes'' else ''no'')"

definition gather_one ::
  "texts \<Rightarrow> 'w services \<Rightarrow> global_options \<Rightarrow> info_options \<Rightarrow> 'w cli \<Rightarrow> (error + list_row) \<times> 'w cli" where
  "gather_one tx sv g options =
     attempt (gather tx sv g (io_probe options) (io_name options)) (\<lambda>rows.
     ret (case List.find (\<lambda>row. find_matches (row_distro row) (io_name options)) rows of
            Some row \<Rightarrow> Inr row
          | None \<Rightarrow> Inl (distro_not_found (io_name options) (map (\<lambda>row. distro_name (row_distro row)) rows))))"

definition or_dash :: "string \<Rightarrow> string" where
  "or_dash t = (if t = [] then ''-'' else t)"

definition info_details :: "list_row \<Rightarrow> details" where
  "info_details row =
     (let d = row_distro row; i = row_info row in
      [(''name'', distro_name d),
       (''guid'', guid d),
       (''registry key'', to_utf8 (registry_key_for d)),
       (''wsl version'', show_word (version d)),
       (''default'', if is_default d then ''yes'' else ''no''),
       (''state'', running_state (row_running row)),
       (''base path'', to_utf8 (base_path d)),
       (''vhd file name'',
        if vhd_file_name d = [] then ''- (absent; defaults to ext4.vhdx)'' else to_utf8 (vhd_file_name d)),
       (''disk path'', path_to_utf8 (vhdx_path d)),
       (''modern layout'', if modern d then ''yes'' else ''no''),
       (''flavor'', or_dash (flavor d)),
       (''os version'', or_dash (os_version d)),
       (''default uid'', show_word (default_uid d)),
       (''flags'', show_word (distro_flags d) @ '' ('' @ decode_flags (distro_flags d) @ '')''),
       bytes_detail ''virtual size'' (info_virtual_size i),
       bytes_detail ''file size'' (info_file_size i),
       bytes_detail ''size on disk'' (info_size_on_disk i),
       bytes_detail ''allocated'' (info_allocated_bytes i),
       (''sparse'', yes_no (info_is_sparse i)),
       (''block size'', case info_block_size i of Some b \<Rightarrow> format_size (ucast b) | None \<Rightarrow> ''-''),
       (''sector size'', case info_sector_size i of Some b \<Rightarrow> show_word b | None \<Rightarrow> ''-'')] @
      (if info_parent_path i \<noteq> [] then [(''parent disk'', to_utf8 (info_parent_path i))] else []) @
      [bytes_detail ''guest used'' (info_guest_used i),
       bytes_detail ''guest free'' (info_guest_free i),
       bytes_detail ''reclaimable'' (reclaimable i)])"

definition info_text :: "list_row \<Rightarrow> string" where
  "info_text row =
     write_details (info_details row) @
     concat (map (\<lambda>t. ''note: '' @ t @ eol) (info_notes (row_info row)))"

text \<open>The object is the one of \<open>list\<close>, dumped and parsed again, with more fields set.\<close>

definition info_json :: "list_row \<Rightarrow> json" where
  "info_json row =
     (let d = row_distro row; i = row_info row in
      JObject
        (distro_fields d i @
         [(''registry_key'', JString (to_utf8 (registry_key_for d))),
          (''base_path'', JString (to_utf8 (base_path d))), (''modern'', JBool (modern d)),
          (''default_uid'', json_u32 (default_uid d)), (''flags'', json_u32 (distro_flags d)),
          (''flags_decoded'', JString (decode_flags (distro_flags d)))] @
         (if vhd_file_name d \<noteq> [] then [(''vhd_file_name'', JString (to_utf8 (vhd_file_name d)))] else []) @
         add_if_known ''running'' JBool (row_running row) @
         add_if_known ''block_size'' json_u32 (info_block_size i) @
         add_if_known ''sector_size'' json_u32 (info_sector_size i) @
         (if info_parent_path i \<noteq> [] then [(''parent_path'', JString (to_utf8 (info_parent_path i)))] else [])))"

definition run_info ::
  "texts \<Rightarrow> 'w services \<Rightarrow> info_options \<Rightarrow> global_options \<Rightarrow> 'w cli \<Rightarrow> int \<times> 'w cli" where
  "run_info tx sv options g =
     or_report tx g (gather_one tx sv g options) (\<lambda>row.
     call (effect (answer tx g (info_json row) (info_text row))) (\<lambda>_. succeed))"

section \<open>Standard output\<close>

lemma speaks_json_gather_rows [json_rules]: "speaks_json tx (gather_rows tx' sv g p po names ds)"
proof (induction ds)
  case (Cons d ds)
  have "speaks_json tx (gather_row tx' sv g p po names d)"
    unfolding gather_row_def Let_def by (intro json_rules)
  moreover have "gather_rows tx' sv g p po names (d # ds) =
      call (gather_row tx' sv g p po names d) (\<lambda>row. call (gather_rows tx' sv g p po names ds) (\<lambda>rows. ret (row # rows)))"
    by (simp add: fun_eq_iff call_def ret_def split: prod.splits)
  ultimately show ?case using Cons by (simp only:) (intro json_rules)
qed (simp add: speaks_json_def)

lemma speaks_json_gather [json_rules]: "speaks_json tx (gather tx' sv g p po)"
proof -
  have said: "speaks_json tx (effect (case asked of Inl e \<Rightarrow> log_warn (error_to_string e) | Inr _ \<Rightarrow> id))"
    for asked :: "error + string list"
    by (rule speaks_json_quiet) (simp split: sum.splits)
  show ?thesis unfolding gather_def by (intro json_rules said)
qed

lemma render_list_json_talks: "talks_json tx c (render_list_json tx rows c)"
  unfolding render_list_json_def
  by (induction rows arbitrary: c) (auto intro: talks_json_trans[OF talks_json_print_json[OF talks_json_refl]])

lemma run_list_json [json_rules]: "g_json g \<Longrightarrow> speaks_json tx (run_list tx sv p g)"
  unfolding run_list_def by (simp, intro json_rules speaks_json_effect render_list_json_talks)

lemma run_info_json [json_rules]: "g_json g \<Longrightarrow> speaks_json tx (run_info tx sv options g)"
  unfolding run_info_def gather_one_def by (intro json_rules)

section \<open>Who is started\<close>

text \<open>Measuring only ever runs a command in the distribution it measures.\<close>

definition only_in :: "(string \<Rightarrow> bool) \<Rightarrow> 'w IWslHost \<Rightarrow> 'w IWslHost \<Rightarrow> bool" where
  "only_in ok host host' \<longleftrightarrow>
     running host' = running host \<and>
     (\<forall>n argv t. ok n \<longrightarrow> run_as_root host' n argv t = run_as_root host n argv t)"

lemma measure_disk_only_in:
  assumes "only_in ok host host'"
    and "\<not> ok (distro_name d) \<Longrightarrow> \<not> probe_guest options"
    and "\<And>w names w'. running host w = (Inr names, w') \<Longrightarrow> list_all ok names"
  shows "measure_disk narrow fs disks host' options d w = measure_disk narrow fs disks host options d w"
proof -
  have "measure_guest host' options d i v = measure_guest host options d i v" for i v
  proof (cases "ok (distro_name d)")
    case True
    then have "run_as_root host' (distro_name d) = run_as_root host (distro_name d)"
      using assms(1) by (simp add: only_in_def fun_eq_iff)
    then show ?thesis using assms(1)
      by (simp add: measure_guest_def only_in_def cong: if_cong sum.case_cong)
  next
    case False
    then show ?thesis
      using assms by (auto simp: measure_guest_def call_def only_in_def list_all_iff split: prod.splits sum.splits)
  qed
  then have "measure_guest host' options d = measure_guest host options d"
    by (simp add: fun_eq_iff)
  then show ?thesis by (simp add: measure_disk_def cong: if_cong)
qed

lemma gather_rows_only_in:
  assumes "only_in ok (sv_host sv) host'"
    and "\<And>d. probe \<Longrightarrow> d \<in> set ds \<Longrightarrow> probe_only = [] \<or> find_matches d probe_only \<Longrightarrow> ok (distro_name d)"
    and "\<And>w names w'. running (sv_host sv) w = (Inr names, w') \<Longrightarrow> list_all ok names"
  shows "gather_rows tx (sv\<lparr>sv_host := host'\<rparr>) g probe probe_only names ds c =
    gather_rows tx sv g probe probe_only names ds c"
  using assms(2)
proof (induction ds arbitrary: c)
  case (Cons d ds)
  have "measure_disk (tx_narrow tx) (sv_filesystem sv) (sv_disks sv) host' (gather_probe probe probe_only d) d w =
      measure_disk (tx_narrow tx) (sv_filesystem sv) (sv_disks sv) (sv_host sv) (gather_probe probe probe_only d) d w" for w
    by (rule measure_disk_only_in[OF assms(1) _ assms(3)])
      (use Cons.prems[of d] in \<open>auto simp: gather_probe_def\<close>)
  then have "gather_row tx (sv\<lparr>sv_host := host'\<rparr>) g probe probe_only names d =
      gather_row tx sv g probe probe_only names d"
    by (simp add: gather_row_def Let_def fun_eq_iff on_shell_def call_def)
  then show ?case using Cons by (simp split: prod.splits)
qed simp

text \<open>C21: \<open>info NAME --probe\<close> starts no other distribution: with a host whose command runs differ in anything but
  the running distributions and the one named, the command answers, prints and leaves the machine
  the same.\<close>

theorem info_probe_starts_only_named:
  assumes "running host' = running (sv_host sv)"
    and "\<And>n argv t. equals_ignoring_case n (io_name options) \<or> n \<in> set already \<Longrightarrow>
           run_as_root host' n argv t = run_as_root (sv_host sv) n argv t"
    and "\<And>w names w'. running (sv_host sv) w = (Inr names, w') \<Longrightarrow> set names \<subseteq> set already"
    and "io_name options \<noteq> []"
  shows "run_info tx (sv\<lparr>sv_host := host'\<rparr>) options g c = run_info tx sv options g c"
proof -
  let ?ok = "\<lambda>n. equals_ignoring_case n (io_name options) \<or> n \<in> set already"
  have only: "only_in ?ok (sv_host sv) host'" using assms(1,2) by (simp add: only_in_def)
  have "gather_rows tx (sv\<lparr>sv_host := host'\<rparr>) g (io_probe options) (io_name options) names ds c1 =
      gather_rows tx sv g (io_probe options) (io_name options) names ds c1" for names ds c1
    by (rule gather_rows_only_in[OF only]) (use assms(3,4) in \<open>force simp: find_matches_def list_all_iff\<close>)+
  then have "gather_rows tx (sv\<lparr>sv_host := host'\<rparr>) g (io_probe options) (io_name options) names ds =
      gather_rows tx sv g (io_probe options) (io_name options) names ds" for names ds
    by (simp add: fun_eq_iff)
  then have "gather tx (sv\<lparr>sv_host := host'\<rparr>) g (io_probe options) (io_name options) =
      gather tx sv g (io_probe options) (io_name options)"
    using assms(1) by (simp add: gather_def enumerate_warned_def)
  then show ?thesis by (simp add: run_info_def gather_one_def)
qed

definition idle_host :: "fake_machine IWslHost" where
  "idle_host = fake_host\<lparr>running := (\<lambda>m. (Inr [], m))\<rparr>"

theorem info_probe_starts_only_named_witness:
  "run_info sample_texts ((sample_services\<lparr>sv_host := idle_host\<rparr>)\<lparr>sv_host := idle_host\<lparr>run_as_root := (\<lambda>n argv t.
       if equals_ignoring_case n ''U'' then run_as_root idle_host n argv t else (\<lambda>m. (no_such_file, m)))\<rparr>\<rparr>)
     \<lparr>io_name = ''U'', io_probe = True\<rparr> sample_options (sample_streams sample_machine) =
   run_info sample_texts (sample_services\<lparr>sv_host := idle_host\<rparr>) \<lparr>io_name = ''U'', io_probe = True\<rparr> sample_options
     (sample_streams sample_machine)"
  by (rule info_probe_starts_only_named[where already = "[]"]) (auto simp: idle_host_def)

end
