(* ===== verification/Compact_Command.thy ===== *)
theory Compact_Command
  imports Services Compact
begin

text \<open>
  \<open>compact\<close> (\<open>src/src/cli/compact_command.cpp\<close>): one distribution, every WSL2 distribution, or a loose file.
  A target that fails is an outcome like any other; the exit code is the first failure's.
\<close>

section \<open>Options and outcomes\<close>

record compact_command_options =
  cc_name :: string
  cc_all :: bool
  cc_file :: string
  cc_no_trim :: bool
  cc_shutdown :: bool
  cc_restart :: bool

definition targets_one_thing :: "compact_command_options \<Rightarrow> bool" where
  "targets_one_thing options \<longleftrightarrow>
     (if cc_name options = [] then 0 else 1) + (if cc_all options then 1 else 0) +
     (if cc_file options = [] then 0 else 1) = (1 :: nat)"

definition to_operation_options :: "compact_command_options \<Rightarrow> config \<Rightarrow> compact_options" where
  "to_operation_options options settings =
     \<lparr>co_trim = compact_trim settings \<and> \<not> cc_no_trim options, co_shutdown = cc_shutdown options,
      co_restart = compact_restart settings \<or> cc_restart options,
      co_unlock_timeout = config_unlock_timeout settings, co_trim_timeout = 10 * 60 * 1000\<rparr>"

record compact_outcome =
  oc_label :: string
  oc_failure :: "error option"
  oc_before :: "u64 option"
  oc_after :: "u64 option"
  oc_reclaimed :: "u64 option"

definition plain_outcome :: "string \<Rightarrow> compact_outcome" where
  "plain_outcome label =
     \<lparr>oc_label = label, oc_failure = None, oc_before = None, oc_after = None, oc_reclaimed = None\<rparr>"

definition failed_outcome :: "string \<Rightarrow> error \<Rightarrow> compact_outcome" where
  "failed_outcome label e = (plain_outcome label)\<lparr>oc_failure := Some e\<rparr>"

definition value_or_zero :: "u64 option \<Rightarrow> u64" where
  "value_or_zero n = (case n of None \<Rightarrow> 0 | Some b \<Rightarrow> b)"

definition outcome_text :: "compact_outcome \<Rightarrow> string" where
  "outcome_text x =
     (case oc_failure x of
        Some e \<Rightarrow> oc_label x @ '': '' @ to_human_line e @ eol
      | None \<Rightarrow>
          (case oc_reclaimed x of
             None \<Rightarrow> oc_label x @ '': compacted. Its size could not be measured.'' @ eol
           | Some n \<Rightarrow>
               oc_label x @ '': '' @ format_size n @ '' reclaimed ('' @ format_size (value_or_zero (oc_before x)) @
               '' to '' @ format_size (value_or_zero (oc_after x)) @ '')'' @ eol))"

definition outcome_json :: "compact_outcome \<Rightarrow> json" where
  "outcome_json x = JObject
     ([(''target'', JString (oc_label x)), (''compacted'', JBool (oc_failure x = None))] @
      (case oc_failure x of
         None \<Rightarrow> []
       | Some e \<Rightarrow>
           [(''error'', JString (err_message e)), (''remedy'', JString (err_remedy e)),
            (''exit_code'', JNumber (exit_code_for (err_code e)))]) @
      add_if_known ''size_before'' json_u64 (oc_before x) @
      add_if_known ''size_after'' json_u64 (oc_after x) @
      add_if_known ''reclaimed'' json_u64 (oc_reclaimed x))"

section \<open>One compaction\<close>

definition compact_one ::
  "bool \<Rightarrow> 'w compact_operation \<Rightarrow> string \<Rightarrow> 'w compact_state \<Rightarrow> (compact_outcome \<times> 'w compact_state) option" where
  "compact_one dry op label s =
     (case run_operation (compact_ioperation op) \<lparr>dry_run = dry\<rparr> s of
        None \<Rightarrow> None
      | Some (Inl e, s') \<Rightarrow> Some (failed_outcome label e, s')
      | Some (Inr _, s') \<Rightarrow>
          Some
            (if dry then plain_outcome label
             else (plain_outcome label)
               \<lparr>oc_before := size_before s', oc_after := size_after s', oc_reclaimed := reclaimed s'\<rparr>, s'))"

text \<open>What the operation did reaches the command's streams.\<close>

definition after_operation :: "global_options \<Rightarrow> 'w compact_state \<Rightarrow> 'w cli \<Rightarrow> 'w cli" where
  "after_operation g s c = tell_sink (g_json g) (sink s) (c\<lparr>shell := world s\<rparr>)"

section \<open>The targets\<close>

definition compactable ::
  "'w services \<Rightarrow> global_options \<Rightarrow> 'w cli \<Rightarrow> (error + distro list) \<times> 'w cli" where
  "compactable sv g =
     attempt (enumerate_warned sv) (\<lambda>l.
     call (effect (fold (\<lambda>d. if is_wsl2 d then id
                            else log_verbose g (distro_name d @ '' is WSL1 and has no virtual disk; skipped''))
                    (distros l))) (\<lambda>_.
     ret (Inr (filter is_wsl2 (distros l)))))"

definition targets_of ::
  "'w services \<Rightarrow> compact_command_options \<Rightarrow> global_options \<Rightarrow> 'w cli \<Rightarrow> (error + distro list) \<times> 'w cli" where
  "targets_of sv options g =
     (if cc_all options then compactable sv g
      else attempt (supported_distro sv (cc_name options)) (\<lambda>d. ret (Inr [d])))"

definition distro_compaction ::
  "texts \<Rightarrow> 'w services \<Rightarrow> compact_command_options \<Rightarrow> distro \<Rightarrow> 'w compact_operation" where
  "distro_compaction tx sv options d =
     compact_of_distro (sv_disks sv) (sv_filesystem sv) (sv_host sv) (sv_clock sv) d
       (to_operation_options options (sv_config sv)) (tx_narrow tx)"

definition file_compaction ::
  "texts \<Rightarrow> 'w services \<Rightarrow> compact_command_options \<Rightarrow> 'w compact_operation" where
  "file_compaction tx sv options =
     compact_of_file (sv_disks sv) (sv_filesystem sv) (sv_host sv) (sv_clock sv)
       (tx_widen tx (cc_file options)) (to_operation_options options (sv_config sv)) (tx_narrow tx)"

section \<open>A loose file\<close>

definition loose_failure ::
  "texts \<Rightarrow> compact_command_options \<Rightarrow> global_options \<Rightarrow> error \<Rightarrow> 'w cli \<Rightarrow> int \<times> 'w cli" where
  "loose_failure tx options g e =
     (if g_json g then
        call (effect (print_json tx (outcome_json (failed_outcome (cc_file options) e)))) (\<lambda>_.
        ret (exit_code_for (err_code e)))
      else report_error (tx_dump tx) g e)"

definition compact_loose_file ::
  "texts \<Rightarrow> 'w services \<Rightarrow> compact_command_options \<Rightarrow> global_options \<Rightarrow> 'w cli \<Rightarrow> (int \<times> 'w cli) option" where
  "compact_loose_file tx sv options g c =
     (let op = file_compaction tx sv options in
      case compact_plan op (compact_start (shell c) []) of
        (Inl e, s) \<Rightarrow> Some (loose_failure tx options g e (after_operation g s c))
      | (Inr planned, s) \<Rightarrow>
          (case compact_one (g_dry_run g) op (cc_file options) s of
             None \<Rightarrow> None
           | Some (x, s') \<Rightarrow>
               (let c1 = after_operation g s' c in
                Some
                  (case oc_failure x of
                     Some e \<Rightarrow> loose_failure tx options g e c1
                   | None \<Rightarrow>
                       if g_dry_run g then
                         succeed (render_dry_run (tx_dump tx) ''target'' g (cc_file options) planned c1)
                       else succeed (answer tx g (outcome_json x) (outcome_text x) c1)))))"

section \<open>Distributions\<close>

definition compact_target ::
  "texts \<Rightarrow> 'w services \<Rightarrow> compact_command_options \<Rightarrow> global_options \<Rightarrow> string list option \<Rightarrow> distro \<Rightarrow>
     'w cli \<Rightarrow> (compact_outcome list \<times> 'w cli) option" where
  "compact_target tx sv options g running_first d c =
     (let op = distro_compaction tx sv options d;
          s = (case running_first of
                 None \<Rightarrow> compact_start (shell c) []
               | Some names \<Rightarrow> set_running_before names (compact_start (shell c) []))
      in if \<not> g_dry_run g then
           (case compact_one False op (distro_name d) s of
              None \<Rightarrow> None
            | Some (x, s') \<Rightarrow> Some ([x], after_operation g s' c))
         else
           (case compact_plan op s of
              (Inl e, s') \<Rightarrow> Some ([failed_outcome (distro_name d) e], after_operation g s' c)
            | (Inr planned, s') \<Rightarrow>
                (let c1 = after_operation g s' c;
                     c2 = (if g_json g then c1 else print_out (distro_name d @ '':'' @ eol) c1)
                 in Some ([], render_dry_run (tx_dump tx) ''target'' g (distro_name d) planned c2))))"

fun compact_targets ::
  "texts \<Rightarrow> 'w services \<Rightarrow> compact_command_options \<Rightarrow> global_options \<Rightarrow> string list option \<Rightarrow> distro list \<Rightarrow>
     'w cli \<Rightarrow> (compact_outcome list \<times> 'w cli) option" where
  "compact_targets tx sv options g running_first [] c = Some ([], c)"
| "compact_targets tx sv options g running_first (d # ds) c =
     (case compact_target tx sv options g running_first d c of
        None \<Rightarrow> None
      | Some (xs, c1) \<Rightarrow>
          (case compact_targets tx sv options g running_first ds c1 of
             None \<Rightarrow> None
           | Some (ys, c2) \<Rightarrow> Some (xs @ ys, c2)))"

definition compact_each ::
  "texts \<Rightarrow> 'w services \<Rightarrow> distro list \<Rightarrow> compact_command_options \<Rightarrow> global_options \<Rightarrow> 'w cli \<Rightarrow>
     (compact_outcome list \<times> 'w cli) option" where
  "compact_each tx sv targets options g c =
     (case on_shell (running (sv_host sv)) c of
        (asked, c1) \<Rightarrow>
          compact_targets tx sv options g (case asked of Inl _ \<Rightarrow> None | Inr names \<Rightarrow> Some names) targets c1)"

section \<open>Reporting\<close>

fun first_failure :: "compact_outcome list \<Rightarrow> error option" where
  "first_failure [] = None"
| "first_failure (x # xs) = (case oc_failure x of Some e \<Rightarrow> Some e | None \<Rightarrow> first_failure xs)"

definition report_dry_run :: "compact_outcome list \<Rightarrow> 'w cli \<Rightarrow> int \<times> 'w cli" where
  "report_dry_run refusals c =
     (if refusals = [] then exit_code_success
      else exit_code_for (case oc_failure (hd refusals) of Some e \<Rightarrow> err_code e | None \<Rightarrow> Preflight),
      fold (\<lambda>x. print_err (outcome_text x)) refusals c)"

definition say_outcome :: "texts \<Rightarrow> global_options \<Rightarrow> compact_outcome \<Rightarrow> 'w cli \<Rightarrow> 'w cli" where
  "say_outcome tx g x =
     (if g_json g then print_json tx (outcome_json x)
      else if oc_failure x \<noteq> None then print_err (outcome_text x)
      else print_out (outcome_text x))"

definition total_reclaimed :: "global_options \<Rightarrow> compact_outcome list \<Rightarrow> u64" where
  "total_reclaimed g xs =
     foldl (\<lambda>n x. if g_json g \<or> oc_failure x \<noteq> None then n else n + value_or_zero (oc_reclaimed x)) 0 xs"

definition report_outcomes ::
  "texts \<Rightarrow> compact_outcome list \<Rightarrow> global_options \<Rightarrow> 'w cli \<Rightarrow> int \<times> 'w cli" where
  "report_outcomes tx xs g c =
     (let c1 = fold (say_outcome tx g) xs c in
      case first_failure xs of
        Some e \<Rightarrow> (exit_code_for (err_code e), c1)
      | None \<Rightarrow>
          succeed
            (if \<not> g_json g \<and> length xs > 1
             then print_out (eol @ format_size (total_reclaimed g xs) @ '' reclaimed in total'' @ eol) c1
             else c1))"

section \<open>The command\<close>

definition closing_sink :: "global_options \<Rightarrow> (int \<times> 'w cli) option \<Rightarrow> (int \<times> 'w cli) option" where
  "closing_sink g r = map_option (\<lambda>(code, c). (code, close_sink (g_json g) c)) r"

definition compact_distros ::
  "texts \<Rightarrow> 'w services \<Rightarrow> compact_command_options \<Rightarrow> global_options \<Rightarrow> distro list \<Rightarrow> 'w cli \<Rightarrow>
     (int \<times> 'w cli) option" where
  "compact_distros tx sv options g targets c =
     (if targets = [] then
        Some (succeed (if g_json g then c else print_out (''no WSL2 distributions to compact'' @ eol) c))
      else
        (case compact_each tx sv targets options g c of
           None \<Rightarrow> None
         | Some (xs, c1) \<Rightarrow>
             Some (if g_dry_run g then report_dry_run xs c1 else report_outcomes tx xs g c1)))"

definition run_compact ::
  "texts \<Rightarrow> 'w services \<Rightarrow> compact_command_options \<Rightarrow> global_options \<Rightarrow> 'w cli \<Rightarrow> (int \<times> 'w cli) option" where
  "run_compact tx sv options g =
     (if \<not> targets_one_thing options then
        at_once (report_error (tx_dump tx) g
          (mk_error Usage ''name one distribution, --all, or --file''
            (''`wsldisk compact Ubuntu`, `wsldisk compact --all`, or '' @
             ''`wsldisk compact --file D:'' @ [CHR 0x5C] @ ''disks'' @ [CHR 0x5C] @ ''data.vhdx`'')))
      else if cc_file options \<noteq> [] then
        (\<lambda>c. closing_sink g (compact_loose_file tx sv options g c))
      else
        (\<lambda>c. closing_sink g
          (or_report_wait tx g (targets_of sv options g) (compact_distros tx sv options g) c)))"

section \<open>Every target is tried\<close>

lemma compact_targets_labels:
  assumes "\<not> g_dry_run g" and "compact_targets tx sv options g rf ds c = Some (xs, c')"
  shows "map oc_label xs = map distro_name ds"
  using assms(2)
proof (induction ds arbitrary: c xs)
  case (Cons d ds)
  then obtain x c1 ys where x: "compact_target tx sv options g rf d c = Some (x, c1)"
    and ys: "compact_targets tx sv options g rf ds c1 = Some (ys, c')" "xs = x @ ys"
    by (auto split: option.splits)
  have "map oc_label x = [distro_name d]"
    using x assms(1)
    by (auto simp: compact_target_def compact_one_def Let_def plain_outcome_def failed_outcome_def
        split: option.splits sum.splits prod.splits)
  with ys Cons.IH[OF ys(1)] show ?case by simp
qed simp

lemma first_failure_None: "first_failure xs = None \<longleftrightarrow> list_all (\<lambda>x. oc_failure x = None) xs"
  by (induction xs) (auto split: option.splits)

lemma first_failure_Some:
  "first_failure xs = Some e \<Longrightarrow>
   \<exists>ys x zs. xs = ys @ x # zs \<and> oc_failure x = Some e \<and> list_all (\<lambda>y. oc_failure y = None) ys"
proof (induction xs)
  case (Cons a xs)
  show ?case
  proof (cases "oc_failure a")
    case None
    with Cons obtain ys x zs where "xs = ys @ x # zs" "oc_failure x = Some e" "list_all (\<lambda>y. oc_failure y = None) ys"
      by auto
    with None show ?thesis by (intro exI[of _ "a # ys"]) auto
  next
    case (Some b)
    with Cons.prems show ?thesis by (intro exI[of _ "[]"]) auto
  qed
qed simp

text \<open>\<open>compact\<close> gives every target its turn and one outcome, in order, whatever becomes of the others, and
  the exit code says the first thing that went wrong: 0 exactly when no target failed.\<close>

theorem compact_reports_every_target:
  assumes "\<not> g_dry_run g" and "compact_each tx sv targets options g c = Some (xs, c')"
  shows "map oc_label xs = map distro_name targets \<and>
    (fst (report_outcomes tx xs g c') = 0 \<longleftrightarrow> list_all (\<lambda>x. oc_failure x = None) xs) \<and>
    (fst (report_outcomes tx xs g c') \<noteq> 0 \<longrightarrow>
      (\<exists>ys x zs e. xs = ys @ x # zs \<and> list_all (\<lambda>y. oc_failure y = None) ys \<and> oc_failure x = Some e \<and>
         fst (report_outcomes tx xs g c') = exit_code_for (err_code e)))"
proof -
  have nz: "exit_code_for e \<noteq> 0" for e by (cases e) simp_all
  have labels: "map oc_label xs = map distro_name targets"
    using assms by (auto simp: compact_each_def split: prod.splits intro: compact_targets_labels)
  have code: "fst (report_outcomes tx xs g c') =
      (case first_failure xs of None \<Rightarrow> 0 | Some e \<Rightarrow> exit_code_for (err_code e))"
    by (simp add: report_outcomes_def Let_def succeed_def exit_code_success_def split: option.splits)
  show ?thesis
  proof (cases "first_failure xs")
    case None
    then show ?thesis using labels code first_failure_None[of xs] by simp
  next
    case (Some e)
    from first_failure_Some[OF this] obtain ys x zs where
      "xs = ys @ x # zs" "oc_failure x = Some e" "list_all (\<lambda>y. oc_failure y = None) ys" by blast
    moreover have "fst (report_outcomes tx xs g c') = exit_code_for (err_code e)" using code Some by simp
    moreover have "\<not> list_all (\<lambda>x. oc_failure x = None) xs" using first_failure_None[of xs] Some by simp
    ultimately show ?thesis using labels nz[of "err_code e"] by (intro conjI) (blast | simp)+
  qed
qed

section \<open>It comes back\<close>

lemma compact_one_returns:
  fixes op :: "'w compact_operation"
  assumes "wait_contract (cp_clock op) time (cp_filesystem op)"
  shows "compact_one dry op label s \<noteq> None"
proof -
  have "comes_back (compact_execute op :: 'w compact_state \<Rightarrow> _)"
    by (rule compact_execute_comes_back[OF assms])
  then have "op_execute (compact_ioperation op) u \<noteq> None" for u
    by (simp add: compact_ioperation_def comes_back_def)
  from run_operation_returns[OF this] show ?thesis
    by (auto simp: compact_one_def split: option.splits sum.splits)
qed

lemma compact_targets_return:
  assumes "wait_contract (sv_clock sv) time (sv_filesystem sv)"
  shows "compact_targets tx sv options g rf ds c \<noteq> None"
proof (induction ds arbitrary: c)
  case (Cons d ds)
  have one: "compact_one False (distro_compaction tx sv options d) l s = None \<longleftrightarrow> False" for l s
    using compact_one_returns[where time = time and op = "distro_compaction tx sv options d"] assms
    by (simp add: distro_compaction_def compact_of_distro_def)
  have "compact_target tx sv options g rf d c \<noteq> None"
    by (auto simp: one compact_target_def Let_def split: option.splits sum.splits prod.splits)
  then obtain xs c1 where "compact_target tx sv options g rf d c = Some (xs, c1)" by auto
  then show ?case using Cons[of c1] by (simp split: option.splits)
qed simp

text \<open>C10: \<open>compact\<close> comes back, for one target, for all of them and for a loose file, whatever holds the
  disks: the waits of all its targets end when a sleep lets the clock advance.\<close>

theorem compact_command_returns:
  assumes "wait_contract (sv_clock sv) time (sv_filesystem sv)"
  shows "\<exists>code c'. run_compact tx sv options g c = Some (code, c')"
proof -
  have one: "compact_one dry (file_compaction tx sv options) l s = None \<longleftrightarrow> False" for dry l s
    using compact_one_returns[where time = time and op = "file_compaction tx sv options"] assms
    by (simp add: file_compaction_def compact_of_file_def)
  then have loose: "compact_loose_file tx sv options g b \<noteq> None" for b
    by (auto simp: one compact_loose_file_def Let_def split: option.splits sum.splits prod.splits)
  have each: "compact_each tx sv targets options g b = None \<longleftrightarrow> False" for targets b
    using compact_targets_return[OF assms] by (simp add: compact_each_def split: prod.splits)
  have "run_compact tx sv options g c \<noteq> None"
    using loose
    by (auto simp: each compact_distros_def run_compact_def closing_sink_def at_once_def or_report_wait_def
        split: sum.splits prod.splits option.splits)
  then show ?thesis by auto
qed

theorem compact_command_returns_witness:
  "\<exists>code c'. run_compact sample_texts sample_services
     \<lparr>cc_name = ''U'', cc_all = False, cc_file = [], cc_no_trim = False, cc_shutdown = False, cc_restart = True\<rparr>
     sample_options (sample_streams sample_machine) = Some (code, c')"
  by (rule compact_command_returns[where time = fake_now])
    (simp add: sample_services_def fake_wait.wait_contract_axioms)

section \<open>Standard output\<close>

lemma after_operation_talks: "g_json g \<Longrightarrow> talks_json tx c (after_operation g s c)"
  by (simp add: after_operation_def talks_json_quiet)

lemma loose_failure_talks: "g_json g \<Longrightarrow> speaks_json tx (loose_failure tx options g e)"
  unfolding loose_failure_def by (intro json_rules)

lemma speaks_json_loose_file [json_rules]:
  assumes j: "g_json g"
  shows "speaks_json_wait tx (compact_loose_file tx sv options g)"
  unfolding speaks_json_wait_def
proof (intro allI impI)
  fix c code c'
  assume r: "compact_loose_file tx sv options g c = Some (code, c')"
  have q: "talks_json tx c (after_operation g s c)" for s by (rule after_operation_talks[OF j])
  have f: "loose_failure tx options g e (after_operation g s c) = (code, c') \<Longrightarrow> talks_json tx c c'" for e s
    using talks_json_trans[OF q speaks_jsonD[OF loose_failure_talks[OF j]]] .
  show "talks_json tx c c'"
    using r j
    by (auto simp: compact_loose_file_def Let_def succeed_def split: prod.splits sum.splits option.splits if_splits
        dest: f intro: talks_json_answer talks_json_dry_run q)
qed

lemma compact_target_talks:
  assumes j: "g_json g" and "compact_target tx sv options g rf d c = Some (xs, c')"
  shows "talks_json tx c c'"
  using assms(2) j after_operation_talks[OF j]
  by (auto simp: compact_target_def Let_def split: prod.splits sum.splits option.splits if_splits
      intro: talks_json_dry_run)

lemma compact_targets_talk:
  assumes j: "g_json g"
  shows "compact_targets tx sv options g rf ds c = Some (xs, c') \<Longrightarrow> talks_json tx c c'"
proof (induction ds arbitrary: c xs)
  case (Cons d ds)
  then obtain ys c1 zs where "compact_target tx sv options g rf d c = Some (ys, c1)"
    "compact_targets tx sv options g rf ds c1 = Some (zs, c')"
    by (auto split: option.splits)
  then show ?case using compact_target_talks[OF j] Cons.IH talks_json_trans by blast
qed simp

lemma report_outcomes_talks: "g_json g \<Longrightarrow> speaks_json tx (report_outcomes tx xs g)"
proof -
  assume j: "g_json g"
  have "talks_json tx b c \<Longrightarrow> talks_json tx b (fold (say_outcome tx g) xs c)" for b c :: "'a cli"
    using j by (induction xs arbitrary: c) (auto simp: say_outcome_def intro: talks_json_print_json)
  then show ?thesis
    using j by (auto simp: speaks_json_def report_outcomes_def Let_def succeed_def split: option.splits)
qed

lemma report_dry_run_out: "out_text (snd (report_dry_run xs c)) = out_text c"
proof -
  have "out_text (fold (\<lambda>x. print_err (outcome_text x)) xs c) = out_text c" for c :: "'a cli"
    by (induction xs arbitrary: c) simp_all
  then show ?thesis by (simp add: report_dry_run_def)
qed

lemma report_dry_run_talks: "speaks_json tx (report_dry_run xs)"
  unfolding speaks_json_def using report_dry_run_out by (metis snd_conv talks_json_quiet)

lemma speaks_json_targets [json_rules]: "speaks_json tx (targets_of sv options g)"
proof -
  have "out_text (fold (\<lambda>d. if is_wsl2 d then id else log_verbose g (f d)) ds b) = out_text b"
    for ds f and b :: "'a cli"
    by (induction ds arbitrary: b) simp_all
  then show ?thesis
    unfolding targets_of_def compactable_def by (intro json_rules speaks_json_quiet)
qed

lemma compact_each_talks:
  assumes j: "g_json g" and "compact_each tx sv targets options g c = Some (xs, c')"
  shows "talks_json tx c c'"
proof -
  obtain asked c1 where a: "on_shell (running (sv_host sv)) c = (asked, c1)" by (meson surj_pair)
  then have "talks_json tx c c1"
    using speaks_json_on_shell[of tx "running (sv_host sv)"] by (auto simp: speaks_json_def)
  from talks_json_trans[OF this compact_targets_talk[OF j]] assms(2) a
  show ?thesis by (auto simp: compact_each_def)
qed

lemma speaks_json_closing [json_rules]:
  "g_json g \<Longrightarrow> speaks_json_wait tx m \<Longrightarrow> speaks_json_wait tx (\<lambda>c. closing_sink g (m c))"
  by (auto simp: speaks_json_wait_def closing_sink_def)

lemma compact_distros_talk:
  assumes j: "g_json g"
  shows "speaks_json_wait tx (compact_distros tx sv options g targets)"
  unfolding speaks_json_wait_def
proof (intro allI impI)
  fix c code c'
  assume r: "compact_distros tx sv options g targets c = Some (code, c')"
  show "talks_json tx c c'"
  proof (cases "compact_each tx sv targets options g c")
    case (Some p)
    then obtain xs c1 where e: "compact_each tx sv targets options g c = Some (xs, c1)" by (cases p) simp
    have "talks_json tx c1 c' \<or> targets = []"
      using r e
      by (auto simp: compact_distros_def split: if_splits
          dest: speaks_jsonD[OF report_dry_run_talks[of tx]] speaks_jsonD[OF report_outcomes_talks[OF j, of tx]])
    then show ?thesis
      using talks_json_trans[OF compact_each_talks[OF j e]] r j by (auto simp: compact_distros_def succeed_def)
  qed (use r j in \<open>auto simp: compact_distros_def succeed_def split: if_splits\<close>)
qed

lemma run_compact_json [json_rules]: "g_json g \<Longrightarrow> speaks_json_wait tx (run_compact tx sv options g)"
  unfolding run_compact_def by (intro json_rules compact_distros_talk)

text \<open>A dry run says a refusal on standard error only, under \<open>--json\<close> too: standard output stays empty.\<close>

theorem dry_run_refusal_is_not_json:
  "out_text (snd (report_dry_run xs c)) = out_text c"
  by (rule report_dry_run_out)

end
