(* ===== verification/Usage_Command.thy ===== *)
theory Usage_Command
  imports Services Usage
begin

text \<open>
  \<open>usage\<close> (\<open>src/src/cli/usage_command.cpp\<close>): the two tables, the JSON object and the progress on standard
  error. The catalogue is the generated one, an argument here; the order \<open>std::ranges::sort\<close> gives to
  equal sizes is one of the arguments of the operation.
\<close>

section \<open>The report\<close>

definition usage_table :: "usage_entry list \<Rightarrow> table" where
  "usage_table es =
     fold (\<lambda>e. add_row [bytes_cell (Some (ue_bytes e)), text_cell (ue_label e), flag_cell (ue_safe e),
                        text_cell (ue_path e)]) es
       (new_table [''SIZE'', ''WHAT'', ''CLEARABLE'', ''PATH''])"

definition directory_table :: "usage_directory list \<Rightarrow> table" where
  "directory_table ds =
     fold (\<lambda>d. add_row [bytes_cell (Some (ud_bytes d)), text_cell (ud_path d),
                        bytes_cell (if attributed_bytes d > 0 then Some (attributed_bytes d) else None),
                        maybe_text_cell (if attributed_to d = [] then None else Some (attributed_to d))]) ds
       (new_table [''SIZE'', ''DIRECTORY'', ''OF WHICH KNOWN'', ''LARGEST KNOWN''])"

definition usage_text :: "usage_report \<Rightarrow> string" where
  "usage_text r =
     (if ur_entries r = [] then ur_distribution r @ '': nothing in the cache catalogue is using space'' @ eol
      else render_table (usage_table (ur_entries r)) @ eol) @
     format_size (ur_counted r) @ '' found, of '' @ format_size (ur_guest_used r) @
     '' the guest reports in use'' @ eol @
     (if list_ex (\<lambda>e. \<not> ue_safe e) (ur_entries r) then
        ''rows marked no hold things wsldisk cannot judge -- images you built, logs '' @
        ''something may be reading'' @ eol
      else []) @
     concat (map (\<lambda>e. if contains_others e
       then ue_path e @ '' contains other rows above; its size is not added twice'' @ eol else []) (ur_entries r)) @
     (if ur_directories r \<noteq> [] then
        eol @ render_table (directory_table (ur_directories r)) @ eol @
        ''directories are the whole guest, not extra findings. `of which known` is how '' @
        ''much of each row the table above already showed'' @ eol
      else []) @
     concat (map (\<lambda>t. ''note: '' @ t @ eol) (ur_notes r))"

definition usage_entry_json :: "usage_entry \<Rightarrow> json" where
  "usage_entry_json e = JObject
     ([(''path'', JString (ue_path e)), (''label'', JString (ue_label e)), (''bytes'', json_u64 (ue_bytes e)),
       (''safe'', JBool (ue_safe e)), (''contains_others'', JBool (contains_others e))] @
      add_if_text ''note'' (ue_note e))"

definition usage_directory_json :: "usage_directory \<Rightarrow> json" where
  "usage_directory_json d = JObject
     ([(''path'', JString (ud_path d)), (''bytes'', json_u64 (ud_bytes d)), (''depth'', JNumber (int (ud_depth d))),
       (''attributed_bytes'', json_u64 (attributed_bytes d))] @
      add_if_text ''attributed_to'' (attributed_to d))"

definition usage_json :: "usage_report \<Rightarrow> json" where
  "usage_json r = JObject
     ([(''distribution'', JString (ur_distribution r)), (''guest_used'', json_u64 (ur_guest_used r)),
       (''guest_free'', json_u64 (ur_guest_free r)), (''counted'', json_u64 (ur_counted r)),
       (''entries'', JArray (map usage_entry_json (ur_entries r)))] @
      (if ur_directories r \<noteq> [] then [(''directories'', JArray (map usage_directory_json (ur_directories r)))]
       else []) @
      (if ur_notes r \<noteq> [] then [(''notes'', JArray (map JString (ur_notes r)))] else []))"

section \<open>The command\<close>

record usage_command_options =
  uc_name :: string
  uc_top :: nat
  uc_by_directory :: bool
  uc_depth :: nat

definition usage_dry_run :: string where
  "usage_dry_run = ''usage only reads; there is nothing it would have changed''"

definition usage_dry_run_json :: "string \<Rightarrow> json" where
  "usage_dry_run_json n = JObject
     [(''distribution'', JString n), (''dry_run'', JBool True), (''note'', JString usage_dry_run)]"

text \<open>The callback: what is being measured, on standard error.\<close>

definition say_measuring :: "global_options \<Rightarrow> sink_event list \<Rightarrow> 'w cli \<Rightarrow> 'w cli" where
  "say_measuring g events c =
     (if g_verbose g \<or> g_json g then
        print_err (concat (map (\<lambda>e. case e of Sink_status t \<Rightarrow> ''  measuring '' @ t @ eol | _ \<Rightarrow> []) events)) c
      else c)"

definition usage_measured ::
  "'w usage_operation \<Rightarrow> global_options \<Rightarrow> 'w cli \<Rightarrow> (error + usage_report) \<times> 'w cli" where
  "usage_measured u g c =
     (case measure_usage u \<lparr>world = shell c, sink = []\<rparr> of
        (r, s) \<Rightarrow> (r, say_measuring g (sink s) (c\<lparr>shell := world s\<rparr>)))"

definition run_usage ::
  "texts \<Rightarrow> cache_entry list \<Rightarrow> (usage_entry list \<Rightarrow> usage_entry list) \<Rightarrow>
     (usage_directory list \<Rightarrow> usage_directory list) \<Rightarrow> 'w services \<Rightarrow> usage_command_options \<Rightarrow>
     global_options \<Rightarrow> 'w cli \<Rightarrow> int \<times> 'w cli" where
  "run_usage tx catalogue sort_entries sort_directories sv options g =
     or_report tx g (lookup_distro sv (uc_name options)) (\<lambda>d.
     if g_dry_run g then
       call (effect (answer tx g (usage_dry_run_json (uc_name options)) (usage_dry_run @ eol))) (\<lambda>_. succeed)
     else
       or_report tx g
         (usage_measured
           \<lparr>us_host = sv_host sv, us_distro = d,
            us_options = \<lparr>uo_top = uc_top options, uo_by_directory = uc_by_directory options,
                          uo_depth = uc_depth options, uo_timeout = 5 * 60 * 1000\<rparr>,
            us_catalogue = catalogue, us_sort_entries = sort_entries, us_sort_directories = sort_directories\<rparr> g)
         (\<lambda>r. call (effect (answer tx g (usage_json r) (usage_text r))) (\<lambda>_. succeed)))"

section \<open>Standard output\<close>

lemma speaks_json_usage_measured [json_rules]: "speaks_json tx (usage_measured u g)"
  by (auto simp: speaks_json_def usage_measured_def say_measuring_def split: prod.splits intro!: talks_json_quiet)

lemma run_usage_json [json_rules]:
  "g_json g \<Longrightarrow> speaks_json tx (run_usage tx catalogue sort_entries sort_directories sv options g)"
  unfolding run_usage_def by (intro json_rules)

end
