(* ===== verification/Config_Command.thy ===== *)
theory Config_Command
  imports Services
begin

text \<open>
  \<open>config\<close> and the settings every command starts with (\<open>src/src/cli/config_command.cpp\<close>). \<open>toml\<close> stands for
  the TOML library and \<open>launch\<close> for the editor, as in the code.
\<close>

section \<open>The settings of a run\<close>

definition editor_command :: "'w IFileSystem \<Rightarrow> 'w \<Rightarrow> string \<times> 'w" where
  "editor_command fs =
     call (expand_environment fs (wide ''%EDITOR%'')) (\<lambda>r.
     case r of
       Inl _ \<Rightarrow> ret ''notepad''
     | Inr p \<Rightarrow>
         if p = wide ''%EDITOR%'' \<or> p = [] then ret ''notepad''
         else if CHR '' '' \<in> set (path_to_utf8 p) then
           call (exists_path fs p) (\<lambda>present.
           ret (if present then [quote] @ path_to_utf8 p @ [quote] else path_to_utf8 p))
         else ret (path_to_utf8 p))"

definition load_configuration ::
  "('t, 'n) toml \<Rightarrow> 'w IFileSystem \<Rightarrow> 'w cli \<Rightarrow> config \<times> 'w cli" where
  "load_configuration toml fs =
     call (on_shell (config_path fs)) (\<lambda>p.
     case p of
       Inl e \<Rightarrow>
         call (effect (log_warn (''using the built-in defaults: '' @ error_to_string e))) (\<lambda>_. ret default_config)
     | Inr p \<Rightarrow>
         call (on_shell (load_config toml fs p)) (\<lambda>r.
         case r of
           Inl e \<Rightarrow>
             call (effect (log_warn (''ignoring '' @ path_to_utf8 p @ '': '' @ error_to_string e))) (\<lambda>_.
             ret default_config)
         | Inr settings \<Rightarrow> ret settings))"

section \<open>Showing\<close>

definition setting :: "config \<Rightarrow> string \<Rightarrow> string" where
  "setting c key = (case get_config_value c key of None \<Rightarrow> [] | Some v \<Rightarrow> v)"

definition wsl_details :: "wsl_config \<Rightarrow> details" where
  "wsl_details w =
     (case default_vhd_size w of None \<Rightarrow> [] | Some v \<Rightarrow> [(''wsl2.defaultVhdSize'', v)]) @
     (case vhd_size w of None \<Rightarrow> [] | Some v \<Rightarrow> [(''wsl2.vhdSize'', v)]) @
     (case swap_file w of None \<Rightarrow> [] | Some v \<Rightarrow> [(''wsl2.swapFile'', v)])"

definition settings_text :: "config \<Rightarrow> wsl_config \<Rightarrow> path \<Rightarrow> string" where
  "settings_text c w p =
     path_to_utf8 p @ eol @ eol @
     write_details (map (\<lambda>key. (key, setting c key)) config_keys) @
     (if wsl_config_empty w then []
      else eol @ ''from .wslconfig (read-only):'' @ eol @ write_details (wsl_details w))"

definition wsl_fields :: "wsl_config \<Rightarrow> (string \<times> json) list" where
  "wsl_fields w =
     add_if_known ''defaultVhdSize'' JString (default_vhd_size w) @
     add_if_known ''vhdSize'' JString (vhd_size w) @
     add_if_known ''swapFile'' JString (swap_file w)"

definition settings_json :: "config \<Rightarrow> wsl_config \<Rightarrow> path \<Rightarrow> json" where
  "settings_json c w p = JObject
     ([(''path'', JString (path_to_utf8 p)),
       (''settings'', JObject (map (\<lambda>key. (key, JString (setting c key))) config_keys))] @
      (if wsl_fields w = [] then [] else [(''wslconfig'', JObject (wsl_fields w))]))"

definition read_wslconfig :: "'w IFileSystem \<Rightarrow> 'w \<Rightarrow> wsl_config \<times> 'w" where
  "read_wslconfig fs =
     call (wslconfig_path fs) (\<lambda>p.
     case p of
       Inl _ \<Rightarrow> ret empty_wsl_config
     | Inr p \<Rightarrow>
         call (exists_path fs p) (\<lambda>present.
         if \<not> present then ret empty_wsl_config
         else
           call (read_text_file fs p) (\<lambda>r.
           ret (case r of Inl _ \<Rightarrow> empty_wsl_config | Inr t \<Rightarrow> parse_wslconfig t))))"

section \<open>The verbs\<close>

record config_options =
  cf_action :: string
  cf_key :: string
  cf_value :: string

definition save_config :: "'w IFileSystem \<Rightarrow> path \<Rightarrow> config \<Rightarrow> 'w \<Rightarrow> status \<times> 'w" where
  "save_config fs p c =
     attempt (create_directories fs (parent_path p)) (\<lambda>_. write_text_file fs p (render_config c))"

definition all_settings_json :: "config \<Rightarrow> json" where
  "all_settings_json c = JObject (map (\<lambda>key. (key, JString (setting c key))) config_keys)"

definition key_value_json :: "string \<Rightarrow> string \<Rightarrow> json" where
  "key_value_json key v = JObject [(''key'', JString key), (''value'', JString v)]"

text \<open>A key \<open>get\<close> does not know is one \<open>set\<close> refuses (\<open>unknown_key_refused\<close>), so the report has an error.\<close>

definition run_get ::
  "texts \<Rightarrow> config \<Rightarrow> config_options \<Rightarrow> global_options \<Rightarrow> 'w cli \<Rightarrow> int \<times> 'w cli" where
  "run_get tx c options g =
     (if cf_key options = [] then
        call (effect (answer tx g (all_settings_json c)
          (concat (map (\<lambda>key. key @ '' = '' @ setting c key @ eol) config_keys)))) (\<lambda>_. succeed)
      else
        (case get_config_value c (cf_key options) of
           None \<Rightarrow>
             or_report tx g (ret (set_config_value c (cf_key options) [])) (\<lambda>_. succeed)
         | Some v \<Rightarrow>
             call (effect (answer tx g (key_value_json (cf_key options) v) (v @ eol))) (\<lambda>_. succeed)))"

definition run_set ::
  "texts \<Rightarrow> 'w services \<Rightarrow> config \<Rightarrow> config_options \<Rightarrow> global_options \<Rightarrow> path \<Rightarrow> 'w cli \<Rightarrow> int \<times> 'w cli" where
  "run_set tx sv c options g p =
     or_report tx g (ret (set_config_value c (cf_key options) (cf_value options))) (\<lambda>c'.
     let stored = setting c' (cf_key options) in
     if g_dry_run g then
       call (effect (answer tx g
         (JObject [(''path'', JString (path_to_utf8 p)), (''dry_run'', JBool True),
                   (''key'', JString (cf_key options)), (''value'', JString stored)])
         (''--dry-run: '' @ path_to_utf8 p @ '' was not changed. It would have set '' @ cf_key options @
          '' = '' @ stored @ eol))) (\<lambda>_. succeed)
     else
       or_report tx g (on_shell (save_config (sv_filesystem sv) p c')) (\<lambda>_.
       call (effect (answer tx g (key_value_json (cf_key options) stored)
         (cf_key options @ '' = '' @ stored @ eol))) (\<lambda>_. succeed)))"

definition run_edit ::
  "texts \<Rightarrow> 'w services \<Rightarrow> config \<Rightarrow> global_options \<Rightarrow> (path \<Rightarrow> 'w \<Rightarrow> status \<times> 'w) \<Rightarrow> path \<Rightarrow>
     'w cli \<Rightarrow> int \<times> 'w cli" where
  "run_edit tx sv c g launch p =
     or_report tx g
       (call (on_shell (exists_path (sv_filesystem sv) p)) (\<lambda>present.
        if present then ret (Inr ()) else on_shell (save_config (sv_filesystem sv) p c))) (\<lambda>_.
     if g_dry_run g then
       call (effect (answer tx g
         (JObject [(''path'', JString (path_to_utf8 p)), (''dry_run'', JBool True)])
         (''--dry-run: would open '' @ path_to_utf8 p @ eol))) (\<lambda>_. succeed)
     else or_report tx g (on_shell (launch p)) (\<lambda>_. succeed))"

definition run_config ::
  "texts \<Rightarrow> ('t, 'n) toml \<Rightarrow> 'w services \<Rightarrow> config_options \<Rightarrow> global_options \<Rightarrow>
     (path \<Rightarrow> 'w \<Rightarrow> status \<times> 'w) \<Rightarrow> 'w cli \<Rightarrow> int \<times> 'w cli" where
  "run_config tx toml sv options g launch =
     or_report tx g (on_shell (config_path (sv_filesystem sv))) (\<lambda>p.
     if cf_action options = ''path'' then
       call (effect (answer tx g (JObject [(''path'', JString (tx_narrow tx p))]) (tx_narrow tx p @ eol))) (\<lambda>_.
       succeed)
     else
       or_report tx g (on_shell (load_config toml (sv_filesystem sv) p)) (\<lambda>c.
       call (effect (log_verbose g (''read '' @ tx_narrow tx p))) (\<lambda>_.
       if cf_action options = ''get'' then run_get tx c options g
       else if cf_action options = ''set'' then run_set tx sv c options g p
       else if cf_action options = ''edit'' then run_edit tx sv c g launch p
       else
         call (on_shell (read_wslconfig (sv_filesystem sv))) (\<lambda>w.
         call (effect (answer tx g (settings_json c w p) (settings_text c w p))) (\<lambda>_. succeed)))))"

section \<open>What the verbs do\<close>

lemma unknown_key_refused: "get_config_value c k = None \<Longrightarrow> \<exists>e. set_config_value c k v = Inl e"
  by (auto simp: get_config_value_def set_config_value_def fail_def split: if_splits)

text \<open>\<open>config set\<close> and \<open>config get\<close> refuse a value or key before anything is written: a refusal leaves the
  world exactly as it was and exits with the error's code, and so does a dry run of \<open>set\<close>, which
  answers with the value it would have stored.\<close>

theorem config_set_checks_first:
  "(\<forall>e. set_config_value c (cf_key options) (cf_value options) = Inl e \<longrightarrow>
      shell (snd (run_set tx sv c options g p b)) = shell b \<and>
      fst (run_set tx sv c options g p b) = exit_code_for (err_code e)) \<and>
   (\<forall>c'. set_config_value c (cf_key options) (cf_value options) = Inr c' \<longrightarrow>
      (g_dry_run g \<longrightarrow> shell (snd (run_set tx sv c options g p b)) = shell b \<and>
         fst (run_set tx sv c options g p b) = 0) \<and>
      (\<not> g_dry_run g \<longrightarrow>
         shell (snd (run_set tx sv c options g p b)) = snd (save_config (sv_filesystem sv) p c' (shell b)))) \<and>
   shell (snd (run_get tx c options g b)) = shell b"
proof -
  have a: "shell (answer tx g x t b) = shell b" for x t and b :: "'a cli"
    by (simp add: answer_def print_json_def)
  have r: "shell (snd (report_error (tx_dump tx) g e b)) = shell b" for e and b :: "'a cli"
    by (simp add: report_error_def)
  show ?thesis
    by (auto simp: run_set_def run_get_def or_report_def call_def ret_def effect_def succeed_def a r
        exit_code_success_def report_error_def on_shell_def Let_def split: prod.splits sum.splits option.splits)
qed

text \<open>\<open>--dry-run\<close> does not keep \<open>config edit\<close> from writing the file when there is none.\<close>

theorem config_edit_dry_run_writes:
  assumes "exists_path (sv_filesystem sv) p (shell b) = (False, w)"
    and "save_config (sv_filesystem sv) p c w = (Inr (), w')"
  shows "shell (snd (run_edit tx sv c (g\<lparr>g_dry_run := True\<rparr>) launch p b)) = w' \<and>
    fst (run_edit tx sv c (g\<lparr>g_dry_run := True\<rparr>) launch p b) = 0"
  using assms
  by (simp add: run_edit_def or_report_def call_def on_shell_def effect_def answer_def print_json_def
      succeed_def exit_code_success_def)

section \<open>The editor command\<close>

lemma load_configuration_out: "out_text (snd (load_configuration toml fs b)) = out_text b"
proof -
  have out: "on_shell f x = (y, z) \<Longrightarrow> out_text z = out_text x" for f :: "'a \<Rightarrow> 'y \<times> 'a" and x y z
    by (auto simp: on_shell_def split: prod.splits)
  obtain r c1 where p: "on_shell (config_path fs) b = (r, c1)" by (meson surj_pair)
  show ?thesis
  proof (cases r)
    case (Inr q)
    obtain l c2 where l: "on_shell (load_config toml fs q) c1 = (l, c2)" by (meson surj_pair)
    with Inr show ?thesis
      using p out[OF l] out[OF p]
      by (auto simp: load_configuration_def call_def effect_def ret_def split: sum.splits)
  qed (use p out[OF p] in \<open>simp add: load_configuration_def call_def effect_def ret_def\<close>)
qed

lemma load_configuration_settings:
  "config_ok (fst (load_configuration toml fs b))"
proof -
  obtain r c1 where p: "on_shell (config_path fs) b = (r, c1)" by (meson surj_pair)
  show ?thesis
  proof (cases r)
    case (Inr q)
    obtain l c2 where l: "on_shell (load_config toml fs q) c1 = (l, c2)" by (meson surj_pair)
    have "l = Inr s \<Longrightarrow> config_ok s" for s
      using l load_config_ok[of toml fs q "shell c1" s] by (auto simp: on_shell_def split: prod.splits)
    with Inr show ?thesis
      using p l default_config_ok
      by (auto simp: load_configuration_def call_def effect_def ret_def split: sum.splits)
  qed (use p default_config_ok in \<open>simp add: load_configuration_def call_def effect_def ret_def\<close>)
qed

text \<open>Every command runs with settings inside their bounds: a file that cannot be found, read or parsed is a
  warning and the built-in defaults, and what is loaded never waits longer than an hour for a disk.\<close>

theorem load_configuration_ok:
  "config_ok (fst (load_configuration toml fs b)) \<and>
   out_text (snd (load_configuration toml fs b)) = out_text b"
  by (simp add: load_configuration_settings load_configuration_out)

section \<open>Standard output\<close>

lemma run_config_json [json_rules]:
  "g_json g \<Longrightarrow> speaks_json tx (run_config tx toml sv options g launch)"
  unfolding run_config_def run_get_def run_set_def run_edit_def Let_def by (intro json_rules)

end
