(* ===== verification/Completion.thy ===== *)
theory Completion
  imports Services
begin

text \<open>
  The command tree (\<open>add_all_commands\<close> of \<open>src/src/cli/commands.cpp\<close> and the \<open>add_*_command\<close> functions) as
  data, and the completion scripts read out of it (\<open>completion_command.cpp\<close>). CLI11 is not part of the
  repository: \<open>inherited\<close>, the options it puts on every command by itself, is an argument, and of the
  tree only what the scripts ask for is kept: names, descriptions, options in order, subcommands.
\<close>

section \<open>The tree\<close>

record option_spec =
  op_positional :: "string option"
  op_long :: "string list"
  op_short :: "string list"

definition positional :: "string \<Rightarrow> option_spec" where
  "positional n = \<lparr>op_positional = Some n, op_long = [], op_short = []\<rparr>"

definition long_option :: "string \<Rightarrow> option_spec" where
  "long_option n = \<lparr>op_positional = None, op_long = [n], op_short = []\<rparr>"

definition short_option :: "string \<Rightarrow> string \<Rightarrow> option_spec" where
  "short_option s n = \<lparr>op_positional = None, op_long = [n], op_short = [s]\<rparr>"

datatype app =
  App (app_name: string) (app_description: string) (app_options: "option_spec list") (app_commands: "app list")

text \<open>\<open>add_global_options\<close>.\<close>

definition global_specs :: "bool \<Rightarrow> option_spec list" where
  "global_specs machine_readable =
     (if machine_readable then [long_option ''json''] else []) @
     [short_option ''v'' ''verbose'', short_option ''y'' ''yes'', long_option ''dry-run'', long_option ''log'']"

definition apostrophe :: char where
  "apostrophe = CHR 0x27"

definition list_app :: "option_spec list \<Rightarrow> app" where
  "list_app inherited =
     App ''list'' ''List every registered distribution and its disk''
       (inherited @ global_specs True @ [long_option ''probe'']) []"

definition info_app :: "option_spec list \<Rightarrow> app" where
  "info_app inherited =
     App ''info'' ''Show everything known about one distribution''
       (inherited @ [positional ''distro''] @ global_specs True @ [long_option ''probe'']) []"

definition orphans_app :: "option_spec list \<Rightarrow> app" where
  "orphans_app inherited =
     App ''orphans'' ''Find virtual disks that no distribution claims''
       (inherited @ global_specs True @
        [long_option ''scan'', long_option ''delete'', long_option ''to'', long_option ''relink'']) []"

definition move_app :: "option_spec list \<Rightarrow> app" where
  "move_app inherited =
     App ''move'' (''Move a distribution'' @ [apostrophe] @ ''s virtual disk to another directory'')
       (inherited @ [positional ''distro'', positional ''destination'', long_option ''keep-source''] @
        global_specs True) []"

definition relink_app :: "option_spec list \<Rightarrow> app" where
  "relink_app inherited =
     App ''relink'' ''Point a distribution at a virtual disk that has been moved''
       (inherited @ [positional ''distro'', positional ''path''] @ global_specs True) []"

definition trim_app :: "option_spec list \<Rightarrow> app" where
  "trim_app inherited =
     App ''trim'' (''Tell one distribution'' @ [apostrophe] @ ''s filesystem to release unused blocks'')
       (inherited @ [positional ''distro''] @ global_specs True) []"

definition usage_app :: "option_spec list \<Rightarrow> app" where
  "usage_app inherited =
     App ''usage'' ''Show where the space inside a distribution went''
       (inherited @ [positional ''distro'', long_option ''top'', long_option ''by-directory'', long_option ''depth''] @
        global_specs True) []"

definition compact_app :: "option_spec list \<Rightarrow> app" where
  "compact_app inherited =
     App ''compact'' ''Reclaim the unused space in a virtual disk''
       (inherited @ [positional ''distro''] @ global_specs True @
        [long_option ''all'', long_option ''file'', long_option ''no-trim'', long_option ''restart'',
         long_option ''shutdown'']) []"

definition config_app :: "option_spec list \<Rightarrow> app" where
  "config_app inherited =
     App ''config'' (''Show or change wsldisk'' @ [apostrophe] @ ''s settings'') (inherited @ global_specs True)
       [App ''path'' ''Print where the config file lives'' (inherited @ global_specs True) [],
        App ''get'' ''Print one setting, or all of them'' (inherited @ global_specs True @ [positional ''key'']) [],
        App ''set'' ''Change one setting''
          (inherited @ global_specs True @ [positional ''key'', positional ''value'']) [],
        App ''edit'' ''Open the config file in $EDITOR'' (inherited @ global_specs True) []]"

definition completion_app :: "option_spec list \<Rightarrow> app" where
  "completion_app inherited =
     App ''completion'' ''Print a shell completion script for wsldisk''
       (inherited @ global_specs False @ [positional ''shell'']) []"

definition all_commands :: "option_spec list \<Rightarrow> app" where
  "all_commands inherited =
     App ''wsldisk'' ''Compact, shrink, move, inspect and snapshot WSL2 virtual disks''
       (inherited @ [short_option ''V'' ''version''] @ global_specs True)
       (map (\<lambda>f. f inherited)
         [list_app, info_app, orphans_app, move_app, relink_app, trim_app, usage_app, compact_app, config_app,
          completion_app])"

section \<open>Reading the tree\<close>

definition positionals_of :: "app \<Rightarrow> string list" where
  "positionals_of a =
     concat (map (\<lambda>x. case op_positional x of Some n \<Rightarrow> [n] | None \<Rightarrow> []) (app_options a))"

definition flags_of :: "app \<Rightarrow> string list" where
  "flags_of a =
     concat (map (\<lambda>x. case op_positional x of
         Some _ \<Rightarrow> []
       | None \<Rightarrow> map (\<lambda>n. ''--'' @ n) (op_long x) @ map (\<lambda>n. ''-'' @ n) (op_short x)) (app_options a))"

definition names_a_path :: "string \<Rightarrow> bool" where
  "names_a_path p \<longleftrightarrow> p = ''path'' \<or> p = ''destination''"

definition is_kind :: "string \<Rightarrow> string \<Rightarrow> bool" where
  "is_kind p kind \<longleftrightarrow> (if kind = ''path'' then names_a_path p else p = kind)"

definition command_slots :: "string \<Rightarrow> app \<Rightarrow> string list" where
  "command_slots kind a =
     concat (map (\<lambda>(i, p). if is_kind p kind then [app_name a @ '':'' @ show_nat i] else [])
       (List.enumerate 0 (positionals_of a)))"

definition positional_slots :: "app \<Rightarrow> string \<Rightarrow> string list" where
  "positional_slots a kind = concat (map (command_slots kind) (app_commands a))"

definition verbs_of :: "app \<Rightarrow> string list" where
  "verbs_of a = map app_name (app_commands a)"

definition candidates_of :: "app \<Rightarrow> string list" where
  "candidates_of a = verbs_of a @ flags_of a"

definition zsh_completer_for :: "string \<Rightarrow> string" where
  "zsh_completer_for p =
     (if p = ''distro'' then ''_wsldisk_distros'' else if names_a_path p then ''_files'' else [])"

text \<open>\<open>joined\<close>: the separator goes before an item once some text is there.\<close>

definition joined_by :: "string \<Rightarrow> string list \<Rightarrow> string" where
  "joined_by sep items = foldl (\<lambda>t x. (if t = [] then t else t @ sep) @ x) [] items"

definition shell_quoted :: "string \<Rightarrow> string" where
  "shell_quoted t =
     [apostrophe] @
     concat (map (\<lambda>c. if c = apostrophe then [apostrophe, CHR 0x5C, apostrophe, apostrophe] else [c]) t) @
     [apostrophe]"

definition powershell_list :: "string list \<Rightarrow> string" where
  "powershell_list items = joined_by '', '' (map (\<lambda>x. [apostrophe] @ x @ [apostrophe]) items)"

section \<open>The scripts\<close>

text \<open>Their fixed lines. A HOL string cannot hold every character of them: \<open>~\<close> stands for the apostrophe,
  \<open>%\<close> for the quotation mark and \<open>?\<close> for the backslash, none of which the scripts use themselves.\<close>

definition spelled :: "string \<Rightarrow> string" where
  "spelled t =
     map (\<lambda>c. if c = CHR ''~'' then apostrophe else if c = CHR ''%'' then CHR 0x22
              else if c = CHR ''?'' then CHR 0x5C else c) t"

definition spelled_lines :: "string list \<Rightarrow> string" where
  "spelled_lines ls = concat (map (\<lambda>l. spelled l @ eol) ls)"

definition powershell_header :: string where
  "powershell_header = spelled_lines
     [''# PowerShell completions for wsldisk. Generated by `wsldisk completion powershell`;'',
      ''# regenerate it after upgrading rather than editing it.'',
      ''#'',
      ''# Add to your profile:'',
      ''#   wsldisk completion powershell | Out-String | Invoke-Expression'',
      []]"

definition powershell_functions :: string where
  "powershell_functions = spelled_lines
     [''function script:WsldiskDistros {'',
      ''    try {'',
      ''        (wsldisk list --json 2>$null) |'',
      ''            ForEach-Object { ($_ | ConvertFrom-Json).name } |'',
      ''            Where-Object { $_ }'',
      ''    } catch {'',
      ''        @()'',
      ''    }'',
      ''}'',
      [],
      ''function script:WsldiskPaths {'',
      ''    param($prefix)'',
      ''    try {'',
      ''        Get-ChildItem -Path %$prefix*% -ErrorAction SilentlyContinue |'',
      ''            ForEach-Object { $_.FullName }'',
      ''    } catch {'',
      ''        @()'',
      ''    }'',
      ''}'',
      []]"

definition powershell_completer :: string where
  "powershell_completer = spelled_lines
     [''Register-ArgumentCompleter -Native -CommandName wsldisk -ScriptBlock {'',
      ''    param($wordToComplete, $commandAst, $cursorPosition)'',
      [],
      ''    $words = @($commandAst.CommandElements | ForEach-Object { $_.ToString() })'',
      ''    $bare = @($words | Select-Object -Skip 1 | Where-Object { -not $_.StartsWith(~-~) })'',
      ''    # The word being typed is already in the AST, so drop it: it is'',
      ''    # not a positional that has been supplied.'',
      ''    if ($bare.Count -gt 0 -and $bare[-1] -eq $wordToComplete) {'',
      ''        $bare = @($bare | Select-Object -First ($bare.Count - 1))'',
      ''    }'',
      ''    $command = if ($bare.Count -gt 0) { $bare[0] } else { $null }'',
      ''    $slot = %${command}:$($bare.Count - 1)%'',
      [],
      ''    $candidates = if (-not $command -or -not $script:WsldiskCommands.ContainsKey($command)) {'',
      ''        @($script:WsldiskCommands.Keys) + $script:WsldiskGlobal'',
      ''    } elseif ($wordToComplete.StartsWith(~-~)) {'',
      ''        $script:WsldiskCommands[$command]'',
      ''    } elseif ($script:WsldiskDistroSlots -contains $slot) {'',
      ''        WsldiskDistros'',
      ''    } elseif ($script:WsldiskPathSlots -contains $slot) {'',
      ''        WsldiskPaths $wordToComplete'',
      ''    } else {'',
      ''        $script:WsldiskCommands[$command]'',
      ''    }'',
      [],
      ''    $candidates | Where-Object { $_ -like %$wordToComplete*% } | Sort-Object |'',
      ''        ForEach-Object {'',
      ''            [System.Management.Automation.CompletionResult]::new('',
      ''                $_, $_, ~ParameterValue~, $_)'',
      ''        }'',
      ''}'']"

definition bash_header :: string where
  "bash_header = spelled_lines
     [''# bash completions for wsldisk. Generated by `wsldisk completion bash`;'',
      ''# regenerate it after upgrading rather than editing it.'',
      ''#'',
      ''# Add to your profile:'',
      ''#   source <(wsldisk completion bash)'',
      []]"

definition bash_words :: string where
  "bash_words = spelled_lines
     [''    local cur prev command word'',
      ''    cur=%${COMP_WORDS[COMP_CWORD]}%'',
      ''    command=~~'',
      ''    local positional=-1'',
      ''    for word in %${COMP_WORDS[@]:1:COMP_CWORD-1}%; do'',
      ''        case %$word% in'',
      ''            -*) ;;'',
      ''            *)'',
      ''                if [[ -z %$command% ]]; then'',
      ''                    command=%$word%'',
      ''                else'',
      ''                    positional=$((positional + 1))'',
      ''                fi'',
      ''                ;;'',
      ''        esac'',
      ''    done'',
      ''    positional=$((positional + 1))'',
      []]"

definition bash_flags :: string where
  "bash_flags = spelled_lines
     [''    local flags=~~'',
      ''    case %$command% in'']"

definition bash_candidates :: string where
  "bash_candidates = spelled_lines
     [''        *) COMPREPLY=($(compgen -W %$commands $global% -- %$cur%)); return ;;'',
      ''    esac'',
      [],
      ''    local slot=%$command:$positional%'',
      ''    if [[ %$cur% != -* ]] && [[ %$distro_slots% == *% $slot %* ]]; then'',
      ''        local distros'',
      ''        distros=$(wsldisk list --json 2>/dev/null |'',
      ''            sed -n ~s/.*%name%[[:space:]]*:[[:space:]]*%?([^%]*?)%.*/?1/p~)'',
      ''        COMPREPLY=($(compgen -W %$distros% -- %$cur%))'',
      ''        return'',
      ''    fi'',
      [],
      ''    if [[ %$cur% != -* ]] && [[ %$path_slots% == *% $slot %* ]]; then'',
      ''        COMPREPLY=($(compgen -f -- %$cur%))'',
      ''        return'',
      ''    fi'',
      [],
      ''    COMPREPLY=($(compgen -W %$flags% -- %$cur%))'',
      ''}'',
      [],
      ''complete -F _wsldisk wsldisk'']"

definition zsh_header :: string where
  "zsh_header = spelled_lines
     [''#compdef wsldisk'',
      ''# zsh completions for wsldisk. Generated by `wsldisk completion zsh`;'',
      ''# regenerate it after upgrading rather than editing it.'',
      ''#'',
      ''# Add to your profile:'',
      ''#   source <(wsldisk completion zsh)'',
      []]"

definition zsh_distros :: string where
  "zsh_distros = spelled_lines
     [''_wsldisk_distros() {'',
      ''    local -a names'',
      ''    names=(${(f)%$(wsldisk list --json 2>/dev/null |'',
      ''        sed -n ~s/.*%name%[[:space:]]*:[[:space:]]*%?([^%]*?)%.*/?1/p~)%})'',
      ''    _describe ~distribution~ names'',
      ''}'',
      []]"

definition zsh_commands :: string where
  "zsh_commands = spelled_lines
     [''_wsldisk() {'',
      ''    local -a commands'',
      ''    commands=('']"

definition zsh_state :: string where
  "zsh_state = spelled_lines
     [''        ~1: :{_describe %command% commands}~ ?'',
      ''        ~*:: :->args~'',
      [],
      ''    case $state in'',
      ''        args)'',
      ''            case $words[1] in'']"

definition zsh_footer :: string where
  "zsh_footer = spelled_lines
     [''            esac'',
      ''            ;;'',
      ''    esac'',
      ''}'',
      [],
      ''_wsldisk %$@%'']"

definition powershell_script :: "app \<Rightarrow> string" where
  "powershell_script a =
     powershell_header @
     ''$script:WsldiskCommands = @'' @ ''{'' @ eol @
     concat (map (\<lambda>k. spelled ''    ~'' @ app_name k @ spelled ''~ = @('' @ powershell_list (candidates_of k) @
       '')'' @ eol) (app_commands a)) @
     ''}'' @ eol @ eol @
     ''$script:WsldiskGlobal = @('' @ powershell_list (flags_of a) @ '')'' @ eol @ eol @
     powershell_functions @
     ''$script:WsldiskDistroSlots = @('' @ powershell_list (positional_slots a ''distro'') @ '')'' @ eol @
     ''$script:WsldiskPathSlots = @('' @ powershell_list (positional_slots a ''path'') @ '')'' @ eol @ eol @
     powershell_completer"

definition bash_script :: "app \<Rightarrow> string" where
  "bash_script a =
     bash_header @
     ''_wsldisk() {'' @ eol @
     spelled ''    local commands=~'' @ joined_by '' '' (verbs_of a) @ spelled ''~'' @ eol @
     spelled ''    local global=~'' @ joined_by '' '' (flags_of a) @ spelled ''~'' @ eol @
     spelled ''    local distro_slots=~ '' @ joined_by '' '' (positional_slots a ''distro'') @ spelled '' ~'' @ eol @
     spelled ''    local path_slots=~ '' @ joined_by '' '' (positional_slots a ''path'') @ spelled '' ~'' @ eol @ eol @
     bash_words @
     bash_flags @
     concat (map (\<lambda>k. ''        '' @ app_name k @ spelled '') flags=~'' @ joined_by '' '' (candidates_of k) @
       spelled ''~ ;;'' @ eol) (app_commands a)) @
     bash_candidates"

definition zsh_positional_specs :: "app \<Rightarrow> string" where
  "zsh_positional_specs k =
     concat (map (\<lambda>(i, p).
       let completer = zsh_completer_for p in
       if completer = [] then []
       else spelled '' ?'' @ eol @ spelled ''                        ~'' @ show_nat (i + 1) @ '': :'' @ completer @
              spelled ''~'')
       (List.enumerate 0 (positionals_of k)))"

definition zsh_case :: "app \<Rightarrow> string" where
  "zsh_case k =
     ''                '' @ app_name k @ '')'' @ eol @
     ''                    _arguments'' @
     concat (map (\<lambda>f. spelled '' ?'' @ eol @ spelled ''                        ~'' @ f @ spelled ''~'') (flags_of k)) @
     (if zsh_positional_specs k \<noteq> [] then zsh_positional_specs k
      else if verbs_of k \<noteq> [] then
        spelled '' ?'' @ eol @ spelled ''                        ~1: :('' @ joined_by '' '' (verbs_of k) @ spelled '')~''
      else []) @
     eol @ ''                    ;;'' @ eol"

definition zsh_script :: "app \<Rightarrow> string" where
  "zsh_script a =
     zsh_header @ zsh_distros @ zsh_commands @
     concat (map (\<lambda>k. ''        '' @ shell_quoted (app_name k @ '':'' @ app_description k) @ eol) (app_commands a)) @
     ''    )'' @ eol @ eol @
     spelled ''    _arguments -C ?'' @ eol @
     concat (map (\<lambda>f. spelled ''        ~'' @ f @ spelled ''~ ?'' @ eol) (flags_of a)) @
     zsh_state @
     concat (map zsh_case (app_commands a)) @
     zsh_footer"

section \<open>The command\<close>

definition completion_shells :: "string list" where
  "completion_shells = [''powershell'', ''bash'', ''zsh'']"

definition generate_completion :: "app \<Rightarrow> string \<Rightarrow> string" where
  "generate_completion a shell_name =
     (if shell_name = ''powershell'' then powershell_script a
      else if shell_name = ''bash'' then bash_script a
      else zsh_script a)"

definition run_completion ::
  "texts \<Rightarrow> option_spec list \<Rightarrow> string \<Rightarrow> global_options \<Rightarrow> 'w cli \<Rightarrow> int \<times> 'w cli" where
  "run_completion tx inherited shell_name g =
     (if shell_name \<notin> set completion_shells then
        report_error (tx_dump tx) g
          (mk_error Usage (''there is no completion for `'' @ shell_name @ ''`'')
            (''the shells are: '' @ joined_by '', '' completion_shells))
      else
        call (effect (print_out (generate_completion (all_commands inherited) shell_name))) (\<lambda>_. succeed))"

section \<open>What a shell reads\<close>

text \<open>A POSIX shell's reading of one word: in single quotes every character but the closing quote stands for
  itself, outside a backslash keeps the next one, and a blank or the end of the line ends the word.\<close>

fun posix_word :: "bool \<Rightarrow> string \<Rightarrow> string option" where
  "posix_word True [] = None"
| "posix_word True (c # cs) =
     (if c = apostrophe then posix_word False cs else map_option ((#) c) (posix_word True cs))"
| "posix_word False [] = Some []"
| "posix_word False [c] =
     (if c = apostrophe \<or> c = CHR 0x5C then None else if c = CHR '' '' \<or> c = CHR 0x0A then Some [] else Some [c])"
| "posix_word False (c # d # cs) =
     (if c = apostrophe then posix_word True (d # cs)
      else if c = CHR 0x5C then map_option ((#) d) (posix_word False cs)
      else if c = CHR '' '' \<or> c = CHR 0x0A then Some []
      else map_option ((#) c) (posix_word False (d # cs)))"

lemma posix_word_opens: "x \<noteq> [] \<Longrightarrow> posix_word False (apostrophe # x) = posix_word True x"
  by (cases x) simp_all

lemma posix_word_quoted_body:
  "posix_word True
     (concat (map (\<lambda>c. if c = apostrophe then [apostrophe, CHR 0x5C, apostrophe, apostrophe] else [c]) t) @
      apostrophe # rest) =
   map_option ((@) t) (posix_word False rest)"
proof (induction t)
  case (Cons c t)
  show ?case
  proof (cases "c = apostrophe")
    case True
    have "apostrophe \<noteq> CHR 0x5C" by (simp add: apostrophe_def)
    with True Cons show ?thesis by (simp add: option.map_comp comp_def posix_word_opens)
  qed (use Cons in \<open>simp add: option.map_comp comp_def\<close>)
qed (simp add: option.map_ident)

text \<open>C40: a description in the zsh script is read by the shell as the text it was, whatever quotes it holds.\<close>

theorem shell_quoted_roundtrip:
  "posix_word False (shell_quoted t) = Some t \<and> posix_word False (shell_quoted t @ eol) = Some t"
proof -
  have "posix_word False (shell_quoted t @ rest) = map_option ((@) t) (posix_word False rest)" for rest
    using posix_word_quoted_body[of t rest] by (simp add: shell_quoted_def posix_word_opens)
  from this[of "[]"] this[of eol] show ?thesis by (simp add: eol_def apostrophe_def)
qed

lemma command_slots_exact:
  "s \<in> set (command_slots kind k) \<longleftrightarrow>
     (\<exists>i. i < length (positionals_of k) \<and> is_kind (positionals_of k ! i) kind \<and> s = app_name k @ '':'' @ show_nat i)"
proof
  assume "s \<in> set (command_slots kind k)"
  then show "\<exists>i. i < length (positionals_of k) \<and> is_kind (positionals_of k ! i) kind \<and> s = app_name k @ '':'' @ show_nat i"
    by (auto simp: command_slots_def in_set_enumerate_eq split: if_splits)
next
  assume "\<exists>i. i < length (positionals_of k) \<and> is_kind (positionals_of k ! i) kind \<and> s = app_name k @ '':'' @ show_nat i"
  then obtain i where i: "i < length (positionals_of k)" "is_kind (positionals_of k ! i) kind"
    "s = app_name k @ '':'' @ show_nat i" by blast
  then have "(i, positionals_of k ! i) \<in> set (List.enumerate 0 (positionals_of k))"
    by (simp add: in_set_enumerate_eq)
  with i(2,3) show "s \<in> set (command_slots kind k)"
    unfolding command_slots_def by (auto intro!: bexI[of _ "(i, positionals_of k ! i)"])
qed

text \<open>The scripts offer names and files exactly where the parser takes a distribution or a path: a slot is
  listed when the command has a positional of that kind at that index, and only then.\<close>

theorem positional_slots_exact:
  "s \<in> set (positional_slots a kind) \<longleftrightarrow>
     (\<exists>k \<in> set (app_commands a). \<exists>i. i < length (positionals_of k) \<and>
        is_kind (positionals_of k ! i) kind \<and> s = app_name k @ '':'' @ show_nat i)"
  by (simp add: positional_slots_def command_slots_exact)

lemma run_completion_json:
  "g_json g \<Longrightarrow> shell_name \<notin> set completion_shells \<Longrightarrow> speaks_json tx (run_completion tx inherited shell_name g)"
  unfolding run_completion_def by (simp add: speaks_json_report)

end
