(* ===== verification/App.thy ===== *)
theory App
  imports Orphans_Command List_Command Compact_Command Usage_Command Config_Command Completion
    Win32_Registry Win32_Copy Win32_Host Win32_Disk
begin

text \<open>
  The program (\<open>src/src/cli/app.cpp\<close>): arguments, parsing, the dispatch to a command with the services of
  the platform, and what each outcome prints. CLI11 is \<open>parser\<close>: what it makes of the arguments, its help
  and its version text. \<open>std::exception\<close> and broken streams are not modelled.
\<close>

section \<open>Parsing\<close>

datatype command =
    List_command bool
  | Info_command info_options
  | Orphans_command orphans_options
  | Move_command move_command_options
  | Relink_command relink_options
  | Trim_command string
  | Usage_command usage_command_options
  | Compact_command compact_command_options
  | Config_command config_options
  | Completion_command string

datatype parsed =
    Call_for_help
  | Call_for_version
  | Parse_error string
  | Parsed global_options "command option"

record parser =
  parse_arguments :: "string list \<Rightarrow> parsed"
  help_text :: string
  version_text :: string
  inherited_options :: "option_spec list"

section \<open>The platform\<close>

text \<open>The services \<open>run\<close> constructs, each over the Win32 table; \<open>root\<close> is \<open>HKEY_CURRENT_USER\<close> and \<open>steady\<close>
  the clock of the C++ library.\<close>

definition platform_services ::
  "'w win32 \<Rightarrow> texts \<Rightarrow> handle \<Rightarrow> ('w \<Rightarrow> int \<times> 'w) \<Rightarrow> 'w services" where
  "platform_services api tx root steady =
     \<lparr>sv_registry = win32_registry api root, sv_filesystem = win32_filesystem api (tx_narrow tx),
      sv_disks = win32_virtual_disk api (tx_narrow tx), sv_host = wsl_exe_host api (tx_narrow tx),
      sv_clock = system_clock api steady, sv_config = default_config\<rparr>"

definition open_in_editor :: "'w win32 \<Rightarrow> texts \<Rightarrow> 'w IFileSystem \<Rightarrow> path \<Rightarrow> 'w \<Rightarrow> status \<times> 'w" where
  "open_in_editor api tx fs p =
     call (editor_command fs) (\<lambda>command. launch_editor api (tx_narrow tx) command p)"

section \<open>Running\<close>

record ('w, 't, 'n) program =
  pg_texts :: texts
  pg_parser :: parser
  pg_toml :: "('t, 'n) toml"
  pg_services :: "'w services"
  pg_launch :: "path \<Rightarrow> 'w \<Rightarrow> status \<times> 'w"
  pg_catalogue :: "cache_entry list"
  pg_sort_entries :: "usage_entry list \<Rightarrow> usage_entry list"
  pg_sort_directories :: "usage_directory list \<Rightarrow> usage_directory list"
  pg_opens_log :: "path \<Rightarrow> bool"

definition with_config :: "config \<Rightarrow> 'w services \<Rightarrow> 'w services" where
  "with_config settings sv = sv\<lparr>sv_config := settings\<rparr>"

definition run_command ::
  "('w, 't, 'n) program \<Rightarrow> 'w services \<Rightarrow> global_options \<Rightarrow> command \<Rightarrow> 'w cli \<Rightarrow> (int \<times> 'w cli) option" where
  "run_command pg sv g cmd =
     (let tx = pg_texts pg in
      case cmd of
        List_command probe \<Rightarrow> at_once (run_list tx sv probe g)
      | Info_command options \<Rightarrow> at_once (run_info tx sv options g)
      | Orphans_command options \<Rightarrow> run_orphans tx sv options g ask
      | Move_command options \<Rightarrow> run_move_command tx sv options g
      | Relink_command options \<Rightarrow> run_relink_command tx sv options g
      | Trim_command n \<Rightarrow> run_trim_command tx sv n g
      | Usage_command options \<Rightarrow>
          at_once (run_usage tx (pg_catalogue pg) (pg_sort_entries pg) (pg_sort_directories pg) sv options g)
      | Compact_command options \<Rightarrow> run_compact tx sv options g
      | Config_command options \<Rightarrow> at_once (run_config tx (pg_toml pg) sv options g (pg_launch pg))
      | Completion_command n \<Rightarrow> at_once (run_completion tx (inherited_options (pg_parser pg)) n g))"

definition run_parsed ::
  "('w, 't, 'n) program \<Rightarrow> global_options \<Rightarrow> command \<Rightarrow> 'w cli \<Rightarrow> (int \<times> 'w cli) option" where
  "run_parsed pg g cmd c =
     (let c1 = start_logger path_to_utf8 (g_log_file g) (pg_opens_log pg (g_log_file g)) c in
      case cmd of
        Completion_command n \<Rightarrow> run_command pg (pg_services pg) g cmd c1
      | _ \<Rightarrow>
          (case load_configuration (pg_toml pg) (sv_filesystem (pg_services pg)) c1 of
             (settings, c2) \<Rightarrow> run_command pg (with_config settings (pg_services pg)) g cmd c2))"

definition usage_error :: "string \<Rightarrow> error" where
  "usage_error what = mk_error Usage what ''run `wsldisk --help` to see the arguments this takes''"

definition run_app :: "('w, 't, 'n) program \<Rightarrow> string list \<Rightarrow> 'w cli \<Rightarrow> (int \<times> 'w cli) option" where
  "run_app pg args c =
     (case parse_arguments (pg_parser pg) args of
        Call_for_help \<Rightarrow> Some (succeed (print_out (help_text (pg_parser pg)) c))
      | Call_for_version \<Rightarrow> Some (succeed (print_out (version_text (pg_parser pg) @ eol) c))
      | Parse_error what \<Rightarrow>
          Some (exit_code_for Usage,
            if ''--json'' \<in> set args then print_json (pg_texts pg) (error_json (usage_error what)) c
            else print_err (''error: '' @ what @ eol @ eol @ help_text (pg_parser pg)) c)
      | Parsed g None \<Rightarrow>
          Some (succeed (print_out (help_text (pg_parser pg))
            (start_logger path_to_utf8 (g_log_file g) (pg_opens_log pg (g_log_file g)) c)))
      | Parsed g (Some cmd) \<Rightarrow> run_parsed pg g cmd c)"

text \<open>The arguments as the system hands them over: wide, the program's name first.\<close>

definition main_entry :: "('w, 't, 'n) program \<Rightarrow> wstr list \<Rightarrow> 'w cli \<Rightarrow> (int \<times> 'w cli) option" where
  "main_entry pg argv = run_app pg (map to_utf8 (drop 1 argv))"

section \<open>Standard output under JSON\<close>

lemma start_logger_out [simp]: "out_text (start_logger utf8 p opened c) = out_text c"
  by (simp add: start_logger_def)

text \<open>The commands whose standard output is data: all but \<open>completion\<close>, and \<open>orphans --delete\<close> only without
  its question.\<close>

definition prints_data :: "global_options \<Rightarrow> command \<Rightarrow> bool" where
  "prints_data g cmd \<longleftrightarrow>
     (case cmd of
        Completion_command n \<Rightarrow> n \<notin> set completion_shells
      | Orphans_command options \<Rightarrow> g_assume_yes g \<or> \<not> oo_remove options
      | _ \<Rightarrow> True)"

lemma run_command_json:
  assumes "g_json g" and "prints_data g cmd"
  shows "speaks_json_wait (pg_texts pg) (run_command pg sv g cmd)"
  using assms
  by (cases cmd) (auto simp: run_command_def Let_def prints_data_def
      intro!: json_rules operation_commands_json run_completion_json)


text \<open>A program over the machine in memory; what it parses is always \<open>list --json\<close>.\<close>

definition sample_parser :: parser where
  "sample_parser =
     \<lparr>parse_arguments = (\<lambda>args. Parsed sample_options (Some (List_command False))), help_text = ''help'',
      version_text = ''version'', inherited_options = []\<rparr>"

definition sample_program :: "(fake_machine, (string \<times> sample_node) list, sample_node) program" where
  "sample_program =
     \<lparr>pg_texts = sample_texts, pg_parser = sample_parser, pg_toml = sample_toml [], pg_services = sample_services,
      pg_launch = (\<lambda>p m. (Inr (), m)), pg_catalogue = [], pg_sort_entries = id, pg_sort_directories = id,
      pg_opens_log = (\<lambda>p. True)\<rparr>"


section \<open>Exit codes\<close>

text \<open>Arguments that do not parse exit with 2 and touch nothing: the world is as it was, whatever it is.\<close>

theorem parse_error_touches_nothing:
  assumes "parse_arguments (pg_parser pg) args = Parse_error what"
  shows "\<exists>c'. run_app pg args c = Some (2, c') \<and> shell c' = shell c \<and> in_lines c' = in_lines c"
  using assms by (simp add: run_app_def print_json_def)

end
