(* ===== verification/Dry_Run.thy ===== *)
theory Dry_Run
  imports App
begin

text \<open>
  What \<open>--dry-run\<close> promises across the commands (\<open>src/src/cli/options.h\<close>: plan and print, change
  nothing). \<open>with_changes other sv\<close> are the services \<open>sv\<close> with every method that changes the machine taken
  from \<open>other\<close>: a command that does the same with both has called none of them.
\<close>

section \<open>Services that differ in what they change\<close>

definition registry_changes :: "'w IRegistry \<Rightarrow> 'w IRegistry \<Rightarrow> 'w IRegistry" where
  "registry_changes other reg = reg\<lparr>write_string := write_string other\<rparr>"

definition file_changes :: "'w IFileSystem \<Rightarrow> 'w IFileSystem \<Rightarrow> 'w IFileSystem" where
  "file_changes other fs =
     fs\<lparr>remove_file := remove_file other, copy_file_sparse := copy_file_sparse other,
        rename_file := rename_file other, write_text_file := write_text_file other,
        create_directories := create_directories other\<rparr>"

definition host_changes :: "'w IWslHost \<Rightarrow> 'w IWslHost \<Rightarrow> 'w IWslHost" where
  "host_changes other host =
     host\<lparr>terminate := terminate other, shutdown_wsl := shutdown_wsl other, run_as_root := run_as_root other,
          mount_bare := mount_bare other, unmount := unmount other\<rparr>"

definition with_changes :: "'w services \<Rightarrow> 'w services \<Rightarrow> 'w services" where
  "with_changes other sv =
     sv\<lparr>sv_registry := registry_changes (sv_registry other) (sv_registry sv),
        sv_filesystem := file_changes (sv_filesystem other) (sv_filesystem sv),
        sv_host := host_changes (sv_host other) (sv_host sv),
        sv_disks := sv_disks other, sv_clock := sv_clock other\<rparr>"

named_theorems changes

lemma with_changes_simps [changes]:
  "sv_registry (with_changes other sv) = registry_changes (sv_registry other) (sv_registry sv)"
  "sv_filesystem (with_changes other sv) = file_changes (sv_filesystem other) (sv_filesystem sv)"
  "sv_host (with_changes other sv) = host_changes (sv_host other) (sv_host sv)"
  "sv_config (with_changes other sv) = sv_config sv"
  "with_config settings (with_changes other sv) = with_changes other (with_config settings sv)"
  by (simp_all add: with_changes_def with_config_def)

lemma asking [changes]:
  "subkeys (registry_changes reg' reg) = subkeys reg"
  "read_string (registry_changes reg' reg) = read_string reg"
  "read_dword (registry_changes reg' reg) = read_dword reg"
  "exists_path (file_changes fs' fs) = exists_path fs"
  "file_size (file_changes fs' fs) = file_size fs"
  "file_size_on_disk (file_changes fs' fs) = file_size_on_disk fs"
  "get_volume_info (file_changes fs' fs) = get_volume_info fs"
  "list_directory (file_changes fs' fs) = list_directory fs"
  "is_locked (file_changes fs' fs) = is_locked fs"
  "same_volume (file_changes fs' fs) = same_volume fs"
  "expand_environment (file_changes fs' fs) = expand_environment fs"
  "read_text_file (file_changes fs' fs) = read_text_file fs"
  "running (host_changes host' host) = running host"
  by (simp_all add: registry_changes_def file_changes_def host_changes_def)

section \<open>The parts that only ask\<close>

lemma enumerate_changes [changes]: "enumerate_distros (registry_changes reg' reg) = enumerate_distros reg"
proof -
  have "key_text (registry_changes reg' reg) = key_text reg"
    "key_number (registry_changes reg' reg) = key_number reg"
    by (simp_all add: fun_eq_iff key_text_def key_number_def changes)
  then have key: "read_key (registry_changes reg' reg) = read_key reg"
    by (simp add: fun_eq_iff read_key_def)
  have "enumerate_keys (registry_changes reg' reg) d gs r w = enumerate_keys reg d gs r w" for d gs r w
    by (induction gs arbitrary: r w) (simp_all add: key split: prod.splits sum.splits)
  then show ?thesis
    by (simp add: fun_eq_iff enumerate_distros_def attempt_def changes split: prod.splits sum.splits)
qed

lemma lookup_changes [changes]:
  "enumerate_warned (with_changes other sv) = enumerate_warned sv"
  "lookup_distro (with_changes other sv) n = lookup_distro sv n"
  "supported_distro (with_changes other sv) n = supported_distro sv n"
  by (simp_all add: enumerate_warned_def lookup_distro_def supported_distro_def changes)

lemma scan_changes [changes]:
  "default_scan_patterns (file_changes fs' fs) = default_scan_patterns fs"
  "find_orphans (file_changes fs' fs) l ps ws = find_orphans fs l ps ws"
proof -
  show "default_scan_patterns (file_changes fs' fs) = default_scan_patterns fs"
    by (simp add: default_scan_patterns_def changes)
  have expand: "expand_scan_pattern (file_changes fs' fs) p w = expand_scan_pattern fs p w" for p w
    by (simp add: expand_scan_pattern_def changes split: prod.splits)
  have collect: "collect_unclaimed (file_changes fs' fs) es cl seen os w = collect_unclaimed fs es cl seen os w"
    for es cl seen os w
    by (induction es arbitrary: seen os w) (simp_all add: changes split: prod.splits bool.splits)
  have dirs: "scan_directories (file_changes fs' fs) cl ds s w = scan_directories fs cl ds s w" for cl ds s w
    by (induction ds arbitrary: s w) (simp_all add: changes collect split: prod.splits sum.splits)
  have "scan_patterns (file_changes fs' fs) cl ps s w = scan_patterns fs cl ps s w" for cl s w
    by (induction ps arbitrary: s w) (simp_all add: expand dirs split: prod.splits)
  then show "find_orphans (file_changes fs' fs) l ps ws = find_orphans fs l ps ws"
    by (simp add: fun_eq_iff find_orphans_def Let_def)
qed

lemma config_changes [changes]:
  "config_path (file_changes fs' fs) = config_path fs"
  "load_config toml (file_changes fs' fs) p = load_config toml fs p"
  "wslconfig_path (file_changes fs' fs) = wslconfig_path fs"
  "read_wslconfig (file_changes fs' fs) = read_wslconfig fs"
  by (simp_all add: config_path_def load_config_def wslconfig_path_def read_wslconfig_def changes
      cong: if_cong sum.case_cong)

section \<open>A dry run is its plan\<close>

lemma run_operation_plans:
  "op_plan op = op_plan op' \<Longrightarrow> run_operation op \<lparr>dry_run = True\<rparr> s = run_operation op' \<lparr>dry_run = True\<rparr> s"
  by (simp add: run_operation_def split: prod.splits sum.splits)

lemma drive_and_render_plans:
  assumes "g_dry_run g" and "op_plan op = op_plan op'"
  shows "drive_and_render tx g op start n j t c = drive_and_render tx g op' start n j' t' c"
  using assms run_operation_plans[OF assms(2)]
  by (simp add: drive_and_render_def drive_def split: option.splits prod.splits sum.splits)

lemma or_report_wait_cong:
  "(\<And>x c1. f x c1 = f' x c1) \<Longrightarrow> or_report_wait tx g m f c = or_report_wait tx g m f' c"
  by (simp add: or_report_wait_def split: prod.splits sum.splits)

lemma stopped_changes [changes]: "require_stopped (host_changes host' host) d = require_stopped host d"
  by (simp add: fun_eq_iff require_stopped_def changes)

lemma relink_plan_changes:
  "relink_plan (relink_command_operation tx (with_changes other sv) options d) =
   relink_plan (relink_command_operation tx sv options d)"
  by (simp add: relink_plan_def relink_command_operation_def relink_write_step_def relink_smoke_step_def changes
      cong: if_cong)

lemma move_plan_changes:
  assumes "mv_distro m' = mv_distro m" and "mv_destination m' = mv_destination m" and "mv_options m' = mv_options m"
    and "mv_narrow m' = mv_narrow m"
    and "mv_filesystem m' = file_changes fs (mv_filesystem m)" and "mv_host m' = host_changes host (mv_host m)"
  shows "move_plan m' = move_plan m"
proof -
  have "move_target m' = move_target m" "require_room m' = require_room m"
    using assms by (simp_all add: fun_eq_iff move_target_def require_room_def changes cong: if_cong)
  moreover have r: "was_renamed m' = (was_renamed m :: ('a, 'b) move_state_scheme \<Rightarrow> bool)"
    using assms by (simp add: fun_eq_iff was_renamed_def)
  moreover have "move_planned m' = (move_planned m :: ('a, 'b) move_state_scheme \<Rightarrow> _)"
    using assms r calculation(1)
    by (simp add: fun_eq_iff move_planned_def move_transfer_step_def move_repoint_step_def move_smoke_step_def
        move_delete_step_def move_deletes_def Let_def cong: if_cong)
  ultimately show ?thesis
    using assms by (simp add: move_plan_def Let_def changes cong: if_cong)
qed

lemma move_command_plan:
  "move_plan (move_command_operation tx (with_changes other sv) options d) =
   move_plan (move_command_operation tx sv options d)"
  by (rule move_plan_changes[where fs = "sv_filesystem other" and host = "sv_host other"])
    (simp_all add: move_command_operation_def changes)

lemma compact_plan_changes:
  assumes "cp_distro op' = cp_distro op" and "cp_path op' = cp_path op" and "cp_options op' = cp_options op"
    and "cp_narrow op' = cp_narrow op"
    and "cp_filesystem op' = file_changes fs (cp_filesystem op)" and "cp_host op' = host_changes host (cp_host op)"
  shows "compact_plan op' = compact_plan op"
proof -
  have "measure_before op' s = measure_before op s" "plan_guest_steps op' d s = plan_guest_steps op d s"
    "compact_planned op' steps s = compact_planned op steps s"
    for s :: "('a, 'b) compact_state_scheme" and d steps
    using assms
    by (simp_all add: measure_before_def plan_guest_steps_def Let_def trim_guest_step_def stop_step_def
        compact_planned_def compaction_step_def restarts_def changes split: option.splits)
  then have "measure_before op' = (measure_before op :: ('a, 'b) compact_state_scheme \<Rightarrow> _)"
    "plan_guest_steps op' = (plan_guest_steps op :: _ \<Rightarrow> ('a, 'b) compact_state_scheme \<Rightarrow> _)"
    "compact_planned op' = (compact_planned op :: _ \<Rightarrow> ('a, 'b) compact_state_scheme \<Rightarrow> _)"
    by (simp_all add: fun_eq_iff)
  with assms show ?thesis
    by (simp add: compact_plan_def changes cong: if_cong option.case_cong)
qed

lemma distro_compaction_plan:
  "compact_plan (distro_compaction tx (with_changes other sv) options d) =
   compact_plan (distro_compaction tx sv options d)"
  by (rule compact_plan_changes[where fs = "sv_filesystem other" and host = "sv_host other"])
    (simp_all add: distro_compaction_def compact_of_distro_def changes)

lemma file_compaction_plan:
  "compact_plan (file_compaction tx (with_changes other sv) options) =
   compact_plan (file_compaction tx sv options)"
  by (rule compact_plan_changes[where fs = "sv_filesystem other" and host = "sv_host other"])
    (simp_all add: file_compaction_def compact_of_file_def changes)

lemma compact_one_plans:
  assumes "compact_plan op' = (compact_plan op :: 'w compact_state \<Rightarrow> _)"
  shows "compact_one True op' label s = compact_one True op label s"
proof -
  have "op_plan (compact_ioperation op') = op_plan (compact_ioperation op)"
    using assms by (simp add: compact_ioperation_def)
  from run_operation_plans[OF this] show ?thesis by (simp add: compact_one_def)
qed

section \<open>The commands\<close>

lemma run_trim_dry:
  assumes "g_dry_run g"
  shows "run_trim_command tx (with_changes other sv) n g c = run_trim_command tx sv n g c"
  unfolding run_trim_command_def changes
  by (rule or_report_wait_cong, rule drive_and_render_plans[OF assms])
    (simp add: trim_ioperation_def trim_plan_def fun_eq_iff Let_def)

lemma run_relink_dry:
  assumes "g_dry_run g"
  shows "run_relink_command tx (with_changes other sv) options g c = run_relink_command tx sv options g c"
  unfolding run_relink_command_def changes
  by (rule or_report_wait_cong, rule drive_and_render_plans[OF assms])
    (simp add: relink_ioperation_def relink_plan_changes)

lemma run_move_dry:
  assumes "g_dry_run g"
  shows "run_move_command tx (with_changes other sv) options g c = run_move_command tx sv options g c"
  unfolding run_move_command_def changes Let_def
  by (rule or_report_wait_cong, rule drive_and_render_plans[OF assms])
    (simp add: move_ioperation_def move_command_plan)

lemma delete_orphans_dry:
  "g_dry_run g \<Longrightarrow> delete_orphans tx (with_changes other sv) os g confirm = delete_orphans tx sv os g confirm"
  by (simp add: delete_orphans_def)

lemma run_orphans_dry:
  assumes "g_dry_run g"
  shows "run_orphans tx (with_changes other sv) options g confirm c = run_orphans tx sv options g confirm c"
proof -
  have "scan_for_orphans tx (with_changes other sv) g options = scan_for_orphans tx sv g options"
    by (simp add: scan_for_orphans_def changes)
  then show ?thesis by (simp add: run_orphans_def run_relink_dry[OF assms] delete_orphans_dry[OF assms] cong: if_cong)
qed

lemma run_compact_dry:
  assumes "g_dry_run g"
  shows "run_compact tx (with_changes other sv) options g c = run_compact tx sv options g c"
proof -
  have loose: "compact_loose_file tx (with_changes other sv) options g b = compact_loose_file tx sv options g b" for b
    using assms compact_one_plans[OF file_compaction_plan[of tx other sv options]]
    by (simp add: compact_loose_file_def Let_def file_compaction_plan split: prod.splits sum.splits)
  have target: "compact_target tx (with_changes other sv) options g rf d b = compact_target tx sv options g rf d b"
    for rf d b
    using assms by (simp add: compact_target_def Let_def distro_compaction_plan)
  have targets: "compact_targets tx (with_changes other sv) options g rf ds b = compact_targets tx sv options g rf ds b"
    for rf ds b
    by (induction ds arbitrary: b) (simp_all add: target split: option.splits)
  have chosen: "targets_of (with_changes other sv) options g = targets_of sv options g"
    by (simp add: targets_of_def compactable_def changes)
  have each: "compact_each tx (with_changes other sv) ts options g b = compact_each tx sv ts options g b" for ts b
    by (simp add: compact_each_def targets changes)
  have "compact_distros tx (with_changes other sv) options g = compact_distros tx sv options g"
    by (simp add: fun_eq_iff compact_distros_def each)
  with chosen show ?thesis by (simp add: run_compact_def loose)
qed

lemma run_usage_dry:
  assumes "g_dry_run g"
  shows "run_usage tx cat se sd (with_changes other sv) options g = run_usage tx cat se sd sv options g"
  using assms by (simp add: run_usage_def changes)

lemma run_config_dry:
  assumes "g_dry_run g" and "cf_action options \<noteq> ''edit''"
  shows "run_config tx toml (with_changes other sv) options g launch = run_config tx toml sv options g launch"
proof -
  have "run_set tx (with_changes other sv) c options g p = run_set tx sv c options g p" for c p
    using assms(1) by (simp add: run_set_def Let_def)
  with assms(2) show ?thesis by (simp add: run_config_def changes cong: if_cong)
qed

text \<open>The commands the promise is about: \<open>list\<close> and \<open>info\<close> do not look at \<open>--dry-run\<close>, and \<open>config edit\<close>
  writes the file when there is none (\<open>config_edit_dry_run_writes\<close>).\<close>

definition honours_dry_run :: "command \<Rightarrow> bool" where
  "honours_dry_run cmd \<longleftrightarrow>
     (case cmd of
        List_command probe \<Rightarrow> False
      | Info_command options \<Rightarrow> False
      | Config_command options \<Rightarrow> cf_action options \<noteq> ''edit''
      | _ \<Rightarrow> True)"

text \<open>C2: under \<open>--dry-run\<close> no command calls anything that changes the machine: the registry is not written, no
  file removed, copied, renamed or written, no directory made, no distribution started or stopped, no
  disk opened, nothing waited for. Whatever those calls would do, the run is the same.\<close>

theorem dry_run_changes_nothing:
  assumes "g_dry_run g" and "honours_dry_run cmd"
  shows "run_command pg (with_changes other sv) g cmd c = run_command pg sv g cmd c"
  using assms
  by (cases cmd)
    (simp_all add: run_command_def Let_def honours_dry_run_def at_once_def run_trim_dry run_relink_dry run_move_dry
      run_orphans_dry run_compact_dry run_usage_dry run_config_dry)

text \<open>\<open>orphans --delete --yes\<close> on a machine where nothing can be changed.\<close>

definition frozen_services :: "fake_machine services" where
  "frozen_services = sample_services\<lparr>sv_filesystem := fake_filesystem\<lparr>remove_file := (\<lambda>p m. (no_such_file, m))\<rparr>\<rparr>"

theorem dry_run_changes_nothing_witness:
  "run_command sample_program (with_changes frozen_services sample_services)
     \<lparr>g_json = False, g_verbose = True, g_assume_yes = True, g_dry_run = True, g_log_file = []\<rparr>
     (Orphans_command \<lparr>oo_scan_dirs = [], oo_remove = True, oo_relink_distro = [], oo_relink_path = []\<rparr>)
     (sample_streams sample_machine) =
   run_command sample_program sample_services
     \<lparr>g_json = False, g_verbose = True, g_assume_yes = True, g_dry_run = True, g_log_file = []\<rparr>
     (Orphans_command \<lparr>oo_scan_dirs = [], oo_remove = True, oo_relink_distro = [], oo_relink_path = []\<rparr>)
     (sample_streams sample_machine)"
  by (rule dry_run_changes_nothing) (simp_all add: honours_dry_run_def)

text \<open>What \<open>list\<close> does is the same with and without the option.\<close>

theorem list_ignores_dry_run:
  fixes c :: "'w cli"
  shows "run_list tx sv probe (g\<lparr>g_dry_run := d\<rparr>) c = run_list tx sv probe g c"
proof -
  have v: "log_verbose (g\<lparr>g_dry_run := d\<rparr>) = (log_verbose g :: string \<Rightarrow> 'w cli \<Rightarrow> 'w cli)"
    by (simp add: fun_eq_iff log_verbose_def)
  have "gather_row tx sv (g\<lparr>g_dry_run := d\<rparr>) p po ns x = gather_row tx sv g p po ns x" for p po ns x
    by (simp add: gather_row_def v Let_def cong: if_cong)
  then have rows: "gather_rows tx sv (g\<lparr>g_dry_run := d\<rparr>) p po ns ds b = gather_rows tx sv g p po ns ds b" for p po ns ds b
    by (induction ds arbitrary: b) (simp_all split: prod.splits)
  then have "gather_rows tx sv (g\<lparr>g_dry_run := d\<rparr>) = gather_rows tx sv g" by (simp add: fun_eq_iff)
  moreover have "report_error (tx_dump tx) (g\<lparr>g_dry_run := d\<rparr>) = (report_error (tx_dump tx) g :: _ \<Rightarrow> 'w cli \<Rightarrow> _)"
    by (simp add: fun_eq_iff report_error_def)
  ultimately show ?thesis by (simp add: run_list_def gather_def or_report_def cong: sum.case_cong)
qed

end
