(* ===== verification/Spec2Isabelle.thy ===== *)
theory Spec2Isabelle
  imports Errors Size Text_Encoding Wsl_Output Distro Orphans Relink Move Trim Compact Catalogue Disk_Info Usage Win32_Registry Win32_Filesystem Win32_Copy Win32_Files Command_Line Win32_Host Win32_Disk Lookup Dry_Run
begin

text \<open>
  A verification development of wsldisk, a command-line tool for Windows that lists, measures, trims,
  compacts, moves and repoints the virtual disks of WSL2 distributions. It models the C++ under
  \<open>src/src/lib\<close> and \<open>src/src/cli\<close>; a definition has the name of the function it translates, with a
  suffix or prefix where HOL or another file already has the name.

  \<^bold>\<open>The parts and how they interact.\<close> The program has four layers, and so has the development.

  \<^item> Values: \<open>Errors\<close> (\<open>lib/errors\<close>), \<open>Size\<close>, \<open>Text_Encoding\<close>, \<open>Wsl_Output\<close>, \<open>Distro\<close>, \<open>Orphans\<close>, \<open>Config\<close>,
    \<open>Catalogue\<close>, \<open>Disk_Info\<close> (\<open>lib/model\<close>, one theory per file). \<open>Wsl_Prelude\<close> holds the types of the C++ code
    and the lemmas the theories share, \<open>Win_Path\<close> the part of \<open>std::filesystem::path\<close> in use.
  \<^item> Interfaces and operations: \<open>Interfaces\<close> (\<open>lib/interfaces.h\<close>) makes each abstract class a record of
    methods over a type of worlds; \<open>Operation\<close> (\<open>lib/ops/operation\<close>, \<open>runner\<close>) is the plan, the undo stack and
    the runner; \<open>Relink\<close>, \<open>Move\<close>, \<open>Trim\<close>, \<open>Compact\<close>, \<open>Usage\<close> are the operations, \<open>Repoint\<close> what relink and move
    share. \<open>Contracts\<close> states as locales what the operations rely on, \<open>Fakes\<close> is a machine in memory
    that satisfies them.
  \<^item> The platform (\<open>lib/platform\<close>): \<open>Win32\<close> is the table of system calls and its errors, \<open>Win32_Registry\<close>,
    \<open>Win32_Filesystem\<close>, \<open>Win32_Copy\<close>, \<open>Win32_Files\<close>, \<open>Win32_Host\<close>, \<open>Win32_Disk\<close> the classes built on it,
    \<open>Command_Line\<close> the quoting for a child process.
  \<^item> The tool (\<open>cli\<close>): \<open>Console\<close> (options, logger, progress sink), \<open>Lookup\<close>, \<open>Render\<close>, \<open>Services\<close>, one theory per
    command (\<open>List_Command\<close> for list and info, \<open>Orphans_Command\<close>, \<open>Operation_Commands\<close> for trim, relink and
    move, \<open>Compact_Command\<close>, \<open>Usage_Command\<close>, \<open>Config_Command\<close>, \<open>Completion\<close>) and \<open>App\<close> (\<open>app.cpp\<close>: parsing, settings,
    dispatch, exit codes). \<open>Dry_Run\<close> states what holds across the commands.

  A command finds its distribution through the registry interface, builds an operation from the
  services and hands it to the runner with a sink; the operation calls the interfaces; \<open>App\<close> plugs the
  platform's classes in (\<open>platform_services\<close>).

  \<^bold>\<open>How code becomes definitions.\<close> A \<open>std::string\<close> is a list of bytes, a \<open>std::wstring\<close> and a path a list of
  16-bit words, sizes are 64-bit words that wrap as in C++. \<open>Result<T>\<close> is \<open>error + 'a\<close>, a mutable object
  a record threaded through its methods, a method of an interface a function from a world to its
  result and the next world, so that what other processes do between two calls is not excluded. The
  members of an operation that never change are one record (\<open>move_operation\<close>), those that do another
  (\<open>move_state\<close>) on top of \<open>run_state\<close>: the world and what the sink was told. A command threads \<open>cli\<close>: the
  world, the lines of standard input, and the texts on standard output, standard error and in the
  log. Undo actions and callbacks are functions in the state, as in the code.

  \<^bold>\<open>Loops and bounds.\<close> A loop over data is structural recursion. A loop that ends when the outside lets
  it (the wait for a disk, the polling of a compaction, the draining of pipes, the growing buffers of
  the registry) is a \<open>partial_function (option)\<close>: \<open>None\<close> is a call that never returns, and returning is
  proved from a contract, with the clock reading, the remaining work of the service or the free
  space of the buffer as measure. There is no fuel. Where such a method fills a field of an interface
  record the field takes \<open>the\<close> of it, and its own theorem says when there is a value. The polling bounds of the
  code (\<open>cancel_poll_attempts\<close>, \<open>poll_interval\<close>, timeouts) are its constants.

  \<^bold>\<open>What the lemmas show.\<close>

  \<^item> No disk is lost: whatever fails, a move leaves the disk at the source or at the target and either
    completes or restores file and registry; relink likewise; the undo stack runs every entry, last
    first. A copy made through the Win32 calls is the original byte for byte. \<open>orphans --delete\<close> removes
    only what it listed and only with consent. Nothing is changed under \<open>--dry-run\<close>, and no plan puts a
    step after one that cannot be undone.
  \<^item> Compaction touches only a disk seen free, never shuts WSL down unasked, comes back whatever holds
    the disk, and when it has returned no operation is left running in the kernel.
  \<^item> Measuring is honest: what cannot be read is absent with a note, nothing is counted twice, a usage
    run only reads, \<open>info --probe\<close> starts only the distribution named.
  \<^item> Text survives: sizes, UTF-8 and UTF-16, command lines, settings, quoted shell words and the lists of
    \<open>wsl.exe\<close> read back as what was written; the size parser computes the exact value on machine words.
  \<^item> Output keeps its promises: standard output under \<open>--json\<close> is JSON lines only, a terminal keeps one line per
    step, tables line up, suggestions are by least edit distance.
  \<^item> Orphan detection is exact: what it reports is unclaimed, and what is unclaimed it reports. As a whole,
    from enumeration to deletion, \<open>orphans\<close> spares the disk of every registered distribution, as far as
    the paths of one file differ only in spelling (links and short names are the exception).

  The contracts of \<open>Contracts\<close> are interpreted on the machine in memory and, for the registry and the
  files, derived from the documented behaviour of the Win32 calls (\<open>win32_registry_contract\<close>,
  \<open>win32_file_contract\<close>), which has instances in memory of its own. \<open>operation_contract\<close> is the interface
  between an operation and the runner: its clients' lemma \<open>run_outcomes\<close> gives the theorems on relink and move.
  \<open>disk_service\<close>, \<open>pipe_contract\<close> and \<open>handle_contract\<close> state the asynchronous disk service, pipes and handles;
  \<open>scan_contract\<close> says that nothing a scan asks of registry or filesystem changes a file.

  \<^bold>\<open>Not modelled.\<close>

  \<^item> Libraries are parameters: CLI11 (\<open>parser\<close>), the TOML library (\<open>toml\<close>), the text of a JSON value (\<open>tx_dump\<close>),
    the conversions between \<open>std::filesystem::path\<close> and narrow strings (\<open>tx_narrow\<close>, \<open>tx_widen\<close>), the order
    \<open>std::ranges::sort\<close> gives to equal elements, the Win32 calls themselves (\<open>win32\<close>; \<open>win32_api.cpp\<close> only forwards).
  \<^item> The catalogue text and the version banner are generated by the build.
  \<^item> Exceptions (\<open>std::bad_alloc\<close>, a failing stream) and the catch-all of \<open>main_entry\<close>; a terminal's width and what
    it does with wide characters.
  \<^item> \<open>spikes/elevation/elevate.cpp\<close>, an experiment that is not built with the program; scripts, packaging and tests.
\<close>

end
